theory Spec2Isabelle
  imports Main
begin

section \<open>Manifest model (internal/models)\<close>

text \<open>
  Go strings are byte sequences and are modelled as \<^typ>\<open>string\<close>.  A Go \<open>int\<close> that is
  only stored, compared and copied is an \<^typ>\<open>int\<close>.  A Go map is a finite map whose
  \<open>range\<close> order is not specified: it is modelled as an association list, looked up with
  \<^const>\<open>map_of\<close>, whose list order stands for the order in which one \<open>range\<close> statement
  enumerates the map.  Two lists with the same \<^const>\<open>map_of\<close> are the same Go map
  enumerated in two different orders.  A pointer that may be \<open>nil\<close> is an option.
\<close>

subsection \<open>Errors\<close>

text \<open>
  Every \<open>fmt.Errorf\<close> of the modelled functions is one constructor; the arguments of the
  format string are the arguments of the constructor, and \<open>%w\<close> is the wrapped error.
  There is one type for each source file that creates errors.
\<close>

datatype stack_error =
    VersionRequired
  | ServicesRequired
  | ServiceInvalid string stack_error
  | UndefinedNetwork string string
  | UndefinedVolume string string
  | BuildOrTemplateRequired
  | BuildAndTemplateExclusive
  | BuildContextRequired
  | UndefinedService string
  | InvalidRestartPolicy string
  | NegativeScale
  | CircularDependency string

datatype lxcfile_error =
    FromRequired
  | SetupRequired
  | StepWithoutAction nat
  | CopySourceRequired nat
  | CopyDestRequired nat
  | MountTargetRequired nat
  | MountSourceRequired nat
  | ContainerPortRange nat
  | HostPortRange nat
  | HealthTestRequired

subsection \<open>Structures of stack.go and lxcfile.go\<close>

datatype yaml_value = YString string | YMap "(string \<times> yaml_value) list" | YOther

record Resources =
  Cores :: int
  CPULimit :: int
  CPUUnits :: int
  Memory :: int
  Swap :: int
  RootFS :: int
  NetRate :: int

record HealthCheck =
  Test :: string
  Retries :: int

record BuildConfig =
  Context :: string
  Dockerfile :: string
  Args :: "(string \<times> string) list option"
  Target :: string

text \<open>
  \<open>Service\<close>: the fields the modelled functions read.  \<open>Build\<close> is an \<open>interface{}\<close>
  holding what the YAML decoder produced: \<open>None\<close> is \<open>nil\<close>.
\<close>

record Service =
  Build :: "yaml_value option"
  Template :: string
  Hostname :: string
  Resources :: "Resources option"
  Environment :: "(string \<times> string) list"
  Volumes :: "string list"
  DependsOn :: "string list"
  Health :: "HealthCheck option"
  Restart :: string
  Networks :: "string list"
  Scale :: int

record Metadata =
  meta_Name :: string
  meta_Version :: string

record ProxmoxConfig =
  px_Node :: string
  px_Storage :: string
  px_TemplateStorage :: string

record Settings =
  DefaultResources :: "Resources option"
  Proxmox :: "ProxmoxConfig option"

record Hooks =
  PreStart :: "string list"
  PostStart :: "string list"
  PreStop :: "string list"
  PostStop :: "string list"

record LXCStack =
  Version :: string
  stack_Metadata :: "Metadata option"
  Services :: "(string \<times> Service) list"
  stack_Volumes :: "(string \<times> unit) list"
  stack_Networks :: "(string \<times> unit) list"
  stack_Settings :: "Settings option"
  stack_Hooks :: "Hooks option"

text \<open>The zero value of \<open>Service\<close>, which a Go map returns for a key it does not hold.\<close>

definition zero_Service :: Service where
  "zero_Service =
     \<lparr>Build = None, Template = [], Hostname = [], Resources = None, Environment = [],
      Volumes = [], DependsOn = [], Health = None, Restart = [], Networks = [], Scale = 0\<rparr>"

definition lookup_service :: "(string \<times> Service) list \<Rightarrow> string \<Rightarrow> Service" where
  "lookup_service svcs n = (case map_of svcs n of Some s \<Rightarrow> s | None \<Rightarrow> zero_Service)"

subsection \<open>GetServiceDependencyOrder\<close>

text \<open>
  The three variables the closure \<open>visit\<close> captures.  \<open>visited\<close> and \<open>visiting\<close> are
  \<open>map[string]bool\<close>, read with default \<open>false\<close>.
\<close>

record visit_state =
  order :: "string list"
  visited :: "string \<Rightarrow> bool"
  visiting :: "string \<Rightarrow> bool"

text \<open>
  \<open>visit\<close> and the loop over \<open>service.DependsOn\<close> inside it (\<open>visit_deps\<close>), which
  returns at the first error.
\<close>

function visit :: "(string \<times> Service) list \<Rightarrow> string \<Rightarrow> visit_state \<Rightarrow> stack_error + visit_state"
  and visit_deps :: "(string \<times> Service) list \<Rightarrow> string list \<Rightarrow> visit_state \<Rightarrow> stack_error + visit_state"
where
  "visit svcs serviceName st =
     (if visiting st serviceName then Inl (CircularDependency serviceName)
      else if visited st serviceName then Inr st
      else (case visit_deps svcs (DependsOn (lookup_service svcs serviceName))
                   (st\<lparr>visiting := (visiting st)(serviceName := True)\<rparr>) of
              Inl err \<Rightarrow> Inl err
            | Inr st' \<Rightarrow>
                Inr (st'\<lparr>visiting := (visiting st')(serviceName := False),
                         visited := (visited st')(serviceName := True),
                         order := order st' @ [serviceName]\<rparr>)))"
| "visit_deps svcs [] st = Inr st"
| "visit_deps svcs (dep # deps) st =
     (case visit svcs dep st of
        Inl err \<Rightarrow> Inl err
      | Inr st' \<Rightarrow> visit_deps svcs deps st')"
  by pat_completeness auto

text \<open>A successful visit leaves the in-progress marks as it found them.\<close>

lemma visit_dom_visiting:
  "visit_visit_deps_dom (Inl (svcs, n, st)) \<Longrightarrow> visit svcs n st = Inr st'
     \<Longrightarrow> visiting st' = visiting st"
  "visit_visit_deps_dom (Inr (svcs, ds, st)) \<Longrightarrow> visit_deps svcs ds st = Inr st'
     \<Longrightarrow> visiting st' = visiting st"
proof (induction svcs n st and svcs ds st arbitrary: st' and st' rule: visit_visit_deps.pinduct)
  case (1 svcs serviceName st)
  note eq = visit.psimps[OF 1(1)]
  let ?st1 = "st\<lparr>visiting := (visiting st)(serviceName := True)\<rparr>"
  show ?case
  proof (cases "visiting st serviceName \<or> visited st serviceName")
    case True
    with 1(3) eq show ?thesis by (auto split: if_splits)
  next
    case False
    then have nv: "\<not> visiting st serviceName" and nd: "\<not> visited st serviceName"
      by simp_all
    show ?thesis
    proof (cases "visit_deps svcs (DependsOn (lookup_service svcs serviceName)) ?st1")
      case (Inl e)
      with 1(3) eq nv nd show ?thesis by simp
    next
      case (Inr st2)
      have "visiting st2 = visiting ?st1"
        by (rule 1(2)[OF nv nd Inr])
      then have a: "visiting st2 = (visiting st)(serviceName := True)" by simp
      have b: "visiting st' = (visiting st2)(serviceName := False)"
        using 1(3) eq nv nd Inr by auto
      have "(visiting st)(serviceName := False) = visiting st"
        using nv by (simp add: fun_eq_iff)
      then show ?thesis by (simp add: a b)
    qed
  qed
next
  case (2 svcs st)
  then show ?case by (simp add: visit_deps.psimps)
next
  case (3 svcs dep deps st)
  note eq = visit_deps.psimps(2)[OF 3(1)]
  show ?case
  proof (cases "visit svcs dep st")
    case (Inl e)
    with 3(4) eq show ?thesis by simp
  next
    case (Inr st1)
    then have r: "visit_deps svcs deps st1 = Inr st'" using 3(4) eq by simp
    have "visiting st1 = visiting st" by (rule 3(2)[OF Inr])
    moreover have "visiting st' = visiting st1" by (rule 3(3)[OF Inr r])
    ultimately show ?thesis by simp
  qed
qed

text \<open>
  The traversal terminates on every input: a recursive visit of a key of the map marks
  one more key in progress, and a name that is not a key has no dependencies.
\<close>

termination visit
proof (relation "(\<lambda>x. case x of
          Inl (svcs, n, st) \<Rightarrow> card (fst ` set svcs - Collect (visiting st))
        | Inr (svcs, ds, st) \<Rightarrow> card (fst ` set svcs - Collect (visiting st)))
      <*mlex*> measure (\<lambda>x. case x of
          Inl _ \<Rightarrow> 1
        | Inr (svcs, ds, st) \<Rightarrow> (if ds = [] then 0 else 2 + length ds))", goal_cases)
  case 1
  then show ?case by (simp add: wf_mlex)
next
  case (2 svcs serviceName st)
  show ?case
  proof (cases "serviceName \<in> fst ` set svcs")
    case True
    have "fst ` set svcs - Collect ((visiting st)(serviceName := True))
            \<subset> fst ` set svcs - Collect (visiting st)"
      using 2 True by (auto split: if_splits)
    then have "card (fst ` set svcs - Collect ((visiting st)(serviceName := True)))
                 < card (fst ` set svcs - Collect (visiting st))"
      by (intro psubset_card_mono) simp_all
    then show ?thesis by (simp add: mlex_less)
  next
    case False
    then have "map_of svcs serviceName = None" by (simp add: map_of_eq_None_iff)
    then have d: "DependsOn (lookup_service svcs serviceName) = []"
      by (simp add: lookup_service_def zero_Service_def)
    have "fst ` set svcs - Collect ((visiting st)(serviceName := True))
            = fst ` set svcs - Collect (visiting st)"
      using False by (force split: if_splits)
    then show ?thesis using d by (simp add: mlex_leq)
  qed
next
  case (3 svcs dep deps st)
  then show ?case by (simp add: mlex_leq)
next
  case (4 svcs dep deps st x2)
  have "visiting x2 = visiting st" by (rule visit_dom_visiting(1)[OF 4(2) 4(1)])
  then show ?case by (simp add: mlex_leq)
qed

declare visit.simps [simp del]

text \<open>The loop \<open>for serviceName := range s.Services\<close>, in the order of the list.\<close>

fun visit_services :: "(string \<times> Service) list \<Rightarrow> string list \<Rightarrow> visit_state \<Rightarrow> stack_error + visit_state" where
  "visit_services svcs [] st = Inr st"
| "visit_services svcs (serviceName # rest) st =
     (case visit svcs serviceName st of
        Inl err \<Rightarrow> Inl err
      | Inr st' \<Rightarrow> visit_services svcs rest st')"

definition initial_visit_state :: visit_state where
  "initial_visit_state = \<lparr>order = [], visited = (\<lambda>_. False), visiting = (\<lambda>_. False)\<rparr>"

definition GetServiceDependencyOrder :: "LXCStack \<Rightarrow> stack_error + string list" where
  "GetServiceDependencyOrder s =
     (case visit_services (Services s) (map fst (Services s)) initial_visit_state of
        Inl err \<Rightarrow> Inl err
      | Inr st \<Rightarrow> Inr (order st))"


subsection \<open>LXCStack.Validate\<close>

text \<open>\<open>HasBuild\<close> and \<open>GetBuildConfig\<close>, with the type switch on the \<open>interface{}\<close>.\<close>

definition HasBuild :: "Service \<Rightarrow> bool" where
  "HasBuild s = (Build s \<noteq> None)"

fun string_entries :: "(string \<times> yaml_value) list \<Rightarrow> (string \<times> string) list" where
  "string_entries [] = []"
| "string_entries ((k, YString strVal) # rest) = (k, strVal) # string_entries rest"
| "string_entries ((k, v) # rest) = string_entries rest"

definition yaml_string :: "(string \<times> yaml_value) list \<Rightarrow> string \<Rightarrow> string" where
  "yaml_string build key = (case map_of build key of Some (YString v) \<Rightarrow> v | _ \<Rightarrow> [])"

definition GetBuildConfig :: "Service \<Rightarrow> BuildConfig option" where
  "GetBuildConfig s =
     (case Build s of
        None \<Rightarrow> None
      | Some (YString build) \<Rightarrow>
          Some \<lparr>Context = build, Dockerfile = [], Args = None, Target = []\<rparr>
      | Some (YMap build) \<Rightarrow>
          Some \<lparr>Context = yaml_string build ''context'',
                Dockerfile = yaml_string build ''dockerfile'',
                Args = (case map_of build ''args'' of
                          Some (YMap args) \<Rightarrow> Some (string_entries args)
                        | _ \<Rightarrow> None),
                Target = yaml_string build ''target''\<rparr>
      | Some YOther \<Rightarrow> None)"

text \<open>The loop over \<open>service.DependsOn\<close> in \<open>validateService\<close>.\<close>

fun check_depends_on :: "(string \<times> Service) list \<Rightarrow> string list \<Rightarrow> stack_error option" where
  "check_depends_on svcs [] = None"
| "check_depends_on svcs (dep # deps) =
     (if map_of svcs dep = None then Some (UndefinedService dep)
      else check_depends_on svcs deps)"

definition validPolicies :: "string list" where
  "validPolicies = [''no'', ''always'', ''on-failure'', ''unless-stopped'']"

definition validateService :: "LXCStack \<Rightarrow> string \<Rightarrow> Service \<Rightarrow> stack_error option" where
  "validateService s name service =
     (if \<not> HasBuild service \<and> Template service = [] then Some BuildOrTemplateRequired
      else if HasBuild service \<and> Template service \<noteq> [] then Some BuildAndTemplateExclusive
      else if HasBuild service \<and>
              (case GetBuildConfig service of None \<Rightarrow> True | Some buildConfig \<Rightarrow> Context buildConfig = [])
        then Some BuildContextRequired
      else case check_depends_on (Services s) (DependsOn service) of
        Some err \<Rightarrow> Some err
      | None \<Rightarrow>
          if Restart service \<noteq> [] \<and> Restart service \<notin> set validPolicies
            then Some (InvalidRestartPolicy (Restart service))
          else if Scale service < 0 then Some NegativeScale
          else None)"

text \<open>\<open>strings.Split(volume, ":")\<close>: the pieces between the colons, at least one piece.\<close>

fun split_colon :: "string \<Rightarrow> string list" where
  "split_colon [] = [[]]"
| "split_colon (c # cs) =
     (if c = CHR '':'' then [] # split_colon cs
      else (case split_colon cs of
              [] \<Rightarrow> [[c]]
            | p # ps \<Rightarrow> (c # p) # ps))"

text \<open>
  \<open>strings.ToUpper\<close> on a string of one byte: an ASCII lower-case letter becomes its
  upper-case letter, and no other byte becomes a letter of \<open>A\<close> to \<open>Z\<close>.
\<close>

definition upper_letters :: string where
  "upper_letters = ''ABCDEFGHIJKLMNOPQRSTUVWXYZ''"

definition lower_letters :: string where
  "lower_letters = ''abcdefghijklmnopqrstuvwxyz''"

definition ToUpper_byte :: "char \<Rightarrow> char" where
  "ToUpper_byte c = (case map_of (zip lower_letters upper_letters) c of Some u \<Rightarrow> u | None \<Rightarrow> c)"

fun splitVolume :: "string \<Rightarrow> string list" where
  "splitVolume volume =
     (case split_colon volume of
        [c] # p1 # p2 # rest \<Rightarrow>
          (if ToUpper_byte c \<in> set upper_letters then ([c] @ '':'' @ p1) # p2 # rest
           else [c] # p1 # p2 # rest)
      | parts \<Rightarrow> parts)"

definition parseVolumeName :: "string \<Rightarrow> string" where
  "parseVolumeName volume =
     (case splitVolume volume of
        p0 # p1 # rest \<Rightarrow> p0
      | _ \<Rightarrow> [])"

text \<open>The three \<open>range s.Services\<close> loops of \<open>Validate\<close> and their inner loops.\<close>

fun validate_services :: "LXCStack \<Rightarrow> (string \<times> Service) list \<Rightarrow> stack_error option" where
  "validate_services s [] = None"
| "validate_services s ((name, service) # rest) =
     (case validateService s name service of
        Some err \<Rightarrow> Some (ServiceInvalid name err)
      | None \<Rightarrow> validate_services s rest)"

fun check_networks :: "LXCStack \<Rightarrow> string \<Rightarrow> string list \<Rightarrow> stack_error option" where
  "check_networks s serviceName [] = None"
| "check_networks s serviceName (networkName # rest) =
     (if map_of (stack_Networks s) networkName = None \<and> networkName \<noteq> ''default''
        then Some (UndefinedNetwork serviceName networkName)
      else check_networks s serviceName rest)"

fun validate_networks :: "LXCStack \<Rightarrow> (string \<times> Service) list \<Rightarrow> stack_error option" where
  "validate_networks s [] = None"
| "validate_networks s ((serviceName, service) # rest) =
     (case check_networks s serviceName (Networks service) of
        Some err \<Rightarrow> Some err
      | None \<Rightarrow> validate_networks s rest)"

fun check_volumes :: "LXCStack \<Rightarrow> string \<Rightarrow> string list \<Rightarrow> stack_error option" where
  "check_volumes s serviceName [] = None"
| "check_volumes s serviceName (volume # rest) =
     (case parseVolumeName volume of
        [] \<Rightarrow> check_volumes s serviceName rest
      | c # cs \<Rightarrow>
          if map_of (stack_Volumes s) (c # cs) = None \<and> c \<noteq> CHR ''/''
            then Some (UndefinedVolume serviceName (c # cs))
          else check_volumes s serviceName rest)"

fun validate_volumes :: "LXCStack \<Rightarrow> (string \<times> Service) list \<Rightarrow> stack_error option" where
  "validate_volumes s [] = None"
| "validate_volumes s ((serviceName, service) # rest) =
     (case check_volumes s serviceName (Volumes service) of
        Some err \<Rightarrow> Some err
      | None \<Rightarrow> validate_volumes s rest)"

definition Validate :: "LXCStack \<Rightarrow> stack_error option" where
  "Validate s =
     (if Version s = [] then Some VersionRequired
      else if length (Services s) = 0 then Some ServicesRequired
      else case validate_services s (Services s) of
        Some err \<Rightarrow> Some err
      | None \<Rightarrow>
          (case validate_networks s (Services s) of
             Some err \<Rightarrow> Some err
           | None \<Rightarrow> validate_volumes s (Services s)))"

section \<open>Build manifest (internal/models/lxcfile.go)\<close>

record Features =
  Unprivileged :: bool
  Nesting :: bool
  Keyctl :: bool
  Fuse :: bool

record CopyStep =
  Source :: string
  Dest :: string
  Owner :: string
  Mode :: string

text \<open>\<open>Env\<close> is a map that may be \<open>nil\<close>; \<open>Copy\<close> is a pointer.\<close>

record SetupStep =
  Run :: string
  Copy :: "CopyStep option"
  Env :: "(string \<times> string) list option"
  WorkDir :: string

record Mount =
  mount_Source :: string
  mount_Target :: string
  mount_Type :: string

record Port =
  port_Container :: int
  port_Host :: int

record LXCfile =
  From :: string
  lxcfile_Metadata :: "Metadata option"
  lxcfile_Features :: "Features option"
  lxcfile_Resources :: "Resources option"
  Setup :: "SetupStep list"
  Mounts :: "Mount list"
  Ports :: "Port list"
  lxcfile_Health :: "HealthCheck option"
  Cleanup :: "SetupStep list"

text \<open>
  The loops of \<open>LXCfile.Validate\<close>; \<open>i\<close> is the index of the head of the list, and the
  error carries \<open>i + 1\<close>.
\<close>

fun validate_setup :: "nat \<Rightarrow> SetupStep list \<Rightarrow> lxcfile_error option" where
  "validate_setup i [] = None"
| "validate_setup i (step # rest) =
     (if Run step = [] \<and> Copy step = None \<and> Env step = None \<and> WorkDir step = []
        then Some (StepWithoutAction (i + 1))
      else case Copy step of
        Some c \<Rightarrow>
          if Source c = [] then Some (CopySourceRequired (i + 1))
          else if Dest c = [] then Some (CopyDestRequired (i + 1))
          else validate_setup (i + 1) rest
      | None \<Rightarrow> validate_setup (i + 1) rest)"

fun validate_mounts :: "nat \<Rightarrow> Mount list \<Rightarrow> lxcfile_error option" where
  "validate_mounts i [] = None"
| "validate_mounts i (mount # rest) =
     (if mount_Target mount = [] then Some (MountTargetRequired (i + 1))
      else if mount_Type mount = ''bind'' \<and> mount_Source mount = []
        then Some (MountSourceRequired (i + 1))
      else validate_mounts (i + 1) rest)"

fun validate_ports :: "nat \<Rightarrow> Port list \<Rightarrow> lxcfile_error option" where
  "validate_ports i [] = None"
| "validate_ports i (port # rest) =
     (if port_Container port \<le> 0 \<or> port_Container port > 65535
        then Some (ContainerPortRange (i + 1))
      else if port_Host port \<noteq> 0 \<and> (port_Host port \<le> 0 \<or> port_Host port > 65535)
        then Some (HostPortRange (i + 1))
      else validate_ports (i + 1) rest)"

definition LXCfile_Validate :: "LXCfile \<Rightarrow> lxcfile_error option" where
  "LXCfile_Validate l =
     (if From l = [] then Some FromRequired
      else if length (Setup l) = 0 then Some SetupRequired
      else case validate_setup 0 (Setup l) of
        Some err \<Rightarrow> Some err
      | None \<Rightarrow>
          (case validate_mounts 0 (Mounts l) of
             Some err \<Rightarrow> Some err
           | None \<Rightarrow>
               (case validate_ports 0 (Ports l) of
                  Some err \<Rightarrow> Some err
                | None \<Rightarrow>
                    (case lxcfile_Health l of
                       Some h \<Rightarrow> if Test h = [] then Some HealthTestRequired else None
                     | None \<Rightarrow> None))))"

section \<open>Build pipeline (package builder)\<close>

subsection \<open>The world outside the program\<close>

datatype build_error =
    ExecError string
  | GenerateIDFailed build_error
  | CreateTempFailed build_error
  | StartTempFailed build_error
  | NotReady int
  | ContainerNotReady build_error
  | NoActions
  | SourceMissing string
  | MkdirFailed build_error
  | CopyFailed build_error
  | SetEnvFailed string build_error
  | StepFailed string build_error
  | ApplyConfigFailed build_error
  | StopFailed build_error
  | ExportFailed build_error

datatype deploy_error =
    ClientExecError string
  | LoadError string
  | LoadStackFailed deploy_error
  | InvalidStack stack_error
  | CreateNetworksFailed deploy_error
  | CreateVolumesFailed deploy_error
  | ResolveFailed stack_error
  | DeployFailed string deploy_error
  | TemplateOrBuildRequired string
  | LoadLXCfileFailed string deploy_error
  | BuildFailed string build_error
  | CreateContainerFailed deploy_error
  | ConfigureContainerFailed deploy_error
  | StartContainerFailed deploy_error

text \<open>
  What the program does to the world is a trace of events, in order: the lines it logs
  (the format string and its arguments), the \<open>pct\<close> commands it runs (\<open>Exec\<close> with the
  argument list), the files it stats, the clock reads, the sleeps and the manifest files it
  loads.
\<close>

datatype log_arg = S string | D int | BE build_error | DE deploy_error

datatype level = Info | Success | Warning | Failure | Plain

datatype event =
    Log level string "log_arg list"
  | Exec "string list"
  | Stat string
  | Now
  | Sleep nat
  | Load string

text \<open>
  What the world answers is a function of the trace so far: the result of a \<open>pct\<close>
  command (\<open>None\<close> is exit status zero, \<open>Some m\<close> the error of \<open>cmd.Run()\<close>), whether
  \<open>os.Stat\<close> finds no file, the clock in nanoseconds, and what the manifest loader of
  package \<open>config\<close> returns for a file name.  The functions of the Go library that are
  used on paths, numerals and runes are parameters as well.
\<close>

record env =
  pct_result :: "event list \<Rightarrow> string list \<Rightarrow> string option"
  not_exist :: "event list \<Rightarrow> string \<Rightarrow> bool"
  clock :: "event list \<Rightarrow> int"
  LoadLXCStack :: "event list \<Rightarrow> string \<Rightarrow> string + LXCStack"
  LoadLXCfile :: "event list \<Rightarrow> string \<Rightarrow> string + LXCfile"
  filepath_Dir :: "string \<Rightarrow> string"
  filepath_Join :: "string \<Rightarrow> string \<Rightarrow> string"
  Atoi_ok :: "string \<Rightarrow> bool"
  runes :: "string \<Rightarrow> int list"

definition emit :: "event \<Rightarrow> event list \<Rightarrow> event list" where
  "emit e tr = tr @ [e]"

text \<open>\<open>exec.Command("pct", args...).Run()\<close>.\<close>

definition pct :: "env \<Rightarrow> string list \<Rightarrow> event list \<Rightarrow> build_error option \<times> event list" where
  "pct w args tr = (map_option ExecError (pct_result w tr args), emit (Exec args) tr)"

text \<open>\<open>time.Now()\<close>, and \<open>time.Since\<close>, which reads the clock again.\<close>

definition time_Now :: "env \<Rightarrow> event list \<Rightarrow> int \<times> event list" where
  "time_Now w tr = (clock w tr, emit Now tr)"

definition time_Since :: "env \<Rightarrow> int \<Rightarrow> event list \<Rightarrow> int \<times> event list" where
  "time_Since w start tr = (clock w tr - start, emit Now tr)"

subsection \<open>Functions of the Go library\<close>

text \<open>\<open>strconv.Itoa\<close>.\<close>

fun nat_digits :: "nat \<Rightarrow> string" where
  "nat_digits n =
     (if n < 10 then [''0123456789'' ! n]
      else nat_digits (n div 10) @ [''0123456789'' ! (n mod 10)])"

declare nat_digits.simps [simp del]

definition Itoa :: "int \<Rightarrow> string" where
  "Itoa i = (if i < 0 then CHR ''-'' # nat_digits (nat (- i)) else nat_digits (nat i))"

text \<open>\<open>strings.Join\<close>.\<close>

fun Join :: "string list \<Rightarrow> string \<Rightarrow> string" where
  "Join [] sep = []"
| "Join [x] sep = x"
| "Join (x # y # rest) sep = x @ sep @ Join (y # rest) sep"

text \<open>
  \<open>strings.ReplaceAll s old new\<close> for a non-empty \<open>old\<close>, which is the only way the
  program calls it: the occurrences of \<open>old\<close> are replaced from left to right, without
  overlap.
\<close>

function ReplaceAll :: "string \<Rightarrow> string \<Rightarrow> string \<Rightarrow> string" where
  "ReplaceAll s old new =
     (if s = [] \<or> old = [] then s
      else if take (length old) s = old then new @ ReplaceAll (drop (length old) s) old new
      else hd s # ReplaceAll (tl s) old new)"
  by pat_completeness auto
termination
  by (relation "measure (\<lambda>(s, old, new). length s)") (auto simp: length_greater_0_conv)

declare ReplaceAll.simps [simp del]

text \<open>The remainder of Go's \<open>%\<close>, which has the sign of the dividend.\<close>

definition go_rem :: "int \<Rightarrow> int \<Rightarrow> int" where
  "go_rem a b = (if a < 0 then - ((- a) mod \<bar>b\<bar>) else a mod \<bar>b\<bar>)"

subsection \<open>Builder\<close>

record Config =
  Verbose :: bool
  DryRun :: bool
  ProxmoxNode :: string
  Storage :: string
  TempContainerPrefix :: string
  TemplateStorage :: string

record BuildResult =
  TemplateName :: string
  TemplatePath :: string
  ContainerID :: int
  BuildDuration :: int
  ExecutedSteps :: "string list"

text \<open>\<open>New\<close>: the defaults of the configuration.  A \<open>Builder\<close> holds its \<open>Config\<close> only.\<close>

definition zero_Config :: Config where
  "zero_Config = \<lparr>Verbose = False, DryRun = False, ProxmoxNode = [], Storage = [],
                   TempContainerPrefix = [], TemplateStorage = []\<rparr>"

definition New :: "Config option \<Rightarrow> Config" where
  "New config =
     (let c0 = (case config of None \<Rightarrow> zero_Config | Some c \<Rightarrow> c);
          c1 = (if TempContainerPrefix c0 = [] then c0\<lparr>TempContainerPrefix := ''pxc-build-''\<rparr> else c0);
          c2 = (if ProxmoxNode c1 = [] then c1\<lparr>ProxmoxNode := ''localhost''\<rparr> else c1);
          c3 = (if Storage c2 = [] then c2\<lparr>Storage := ''local-lvm''\<rparr> else c2)
      in if TemplateStorage c3 = [] then c3\<lparr>TemplateStorage := ''local''\<rparr> else c3)"

definition log :: "string \<Rightarrow> log_arg list \<Rightarrow> event list \<Rightarrow> event list" where
  "log format args tr = emit (Log Info format args) tr"

definition logWarning :: "string \<Rightarrow> log_arg list \<Rightarrow> event list \<Rightarrow> event list" where
  "logWarning format args tr = emit (Log Warning format args) tr"

definition logError :: "string \<Rightarrow> log_arg list \<Rightarrow> event list \<Rightarrow> event list" where
  "logError format args tr = emit (Log Failure format args) tr"

definition runPCTCommand :: "Config \<Rightarrow> env \<Rightarrow> string list \<Rightarrow> event list \<Rightarrow> build_error option \<times> event list" where
  "runPCTCommand b w args tr =
     pct w args (if Verbose b then log ''Executing: pct %s'' [S (Join args '' '')] tr else tr)"

definition generateContainerID :: "Config \<Rightarrow> env \<Rightarrow> event list \<Rightarrow> (build_error + int) \<times> event list" where
  "generateContainerID b w tr =
     (case time_Now w tr of
        (t, tr1) \<Rightarrow> (Inr (go_rem (t div 1000000000) 100000 + 10000), tr1))"

definition createTempContainer :: "Config \<Rightarrow> env \<Rightarrow> int \<Rightarrow> string \<Rightarrow> event list \<Rightarrow> build_error option \<times> event list" where
  "createTempContainer b w containerID baseTemplate tr =
     (let tr1 = log ''Creating temporary container %d from template: %s''
                  [D containerID, S baseTemplate] tr
      in if DryRun b
           then (None, log ''DRY RUN: Would create container %d'' [D containerID] tr1)
         else
           runPCTCommand b w
             ([''create'', Itoa containerID, baseTemplate,
               ''--hostname'', TempContainerPrefix b @ Itoa containerID,
               ''--memory'', ''512'', ''--cores'', ''1'', ''--unprivileged'', ''1'']
              @ (if Storage b \<noteq> [] then [''--storage'', Storage b] else []))
             tr1)"

definition startContainer :: "Config \<Rightarrow> env \<Rightarrow> int \<Rightarrow> event list \<Rightarrow> build_error option \<times> event list" where
  "startContainer b w containerID tr =
     (let tr1 = log ''Starting container %d'' [D containerID] tr
      in if DryRun b then (None, tr1)
         else runPCTCommand b w [''start'', Itoa containerID] tr1)"

definition stopContainer :: "Config \<Rightarrow> env \<Rightarrow> int \<Rightarrow> event list \<Rightarrow> build_error option \<times> event list" where
  "stopContainer b w containerID tr =
     (let tr1 = log ''Stopping container %d'' [D containerID] tr
      in if DryRun b then (None, tr1)
         else runPCTCommand b w [''stop'', Itoa containerID] tr1)"

text \<open>The polling loop of \<open>waitForContainer\<close>, from attempt \<open>i\<close>.\<close>

function wait_loop :: "env \<Rightarrow> int \<Rightarrow> nat \<Rightarrow> event list \<Rightarrow> build_error option \<times> event list" where
  "wait_loop w containerID i tr =
     (if i < 60 then
        (case pct w [''exec'', Itoa containerID, ''--'', ''echo'', ''ready''] tr of
           (None, tr1) \<Rightarrow> (None, tr1)
         | (Some err, tr1) \<Rightarrow> wait_loop w containerID (i + 1) (emit (Sleep 1) tr1))
      else (Some (NotReady containerID), tr))"
  by pat_completeness auto
termination
  by (relation "measure (\<lambda>(w, containerID, i, tr). 60 - i)") auto

declare wait_loop.simps [simp del]

definition waitForContainer :: "Config \<Rightarrow> env \<Rightarrow> int \<Rightarrow> event list \<Rightarrow> build_error option \<times> event list" where
  "waitForContainer b w containerID tr =
     (if DryRun b then (None, tr)
      else wait_loop w containerID 0
             (log ''Waiting for container %d to be ready...'' [D containerID] tr))"

text \<open>\<open>expandBuildArgs\<close>: the loop over the build arguments.\<close>

fun expandBuildArgs :: "string \<Rightarrow> (string \<times> string) list \<Rightarrow> string" where
  "expandBuildArgs result [] = result"
| "expandBuildArgs result ((key, val) # rest) =
     expandBuildArgs
       (ReplaceAll (ReplaceAll result (''${'' @ key @ ''}'') val) (''$'' @ key) val) rest"

definition executeRunStep :: "Config \<Rightarrow> env \<Rightarrow> int \<Rightarrow> string \<Rightarrow> string \<Rightarrow> (string \<times> string) list \<Rightarrow> event list \<Rightarrow> build_error option \<times> event list" where
  "executeRunStep b w containerID command stepName buildArgs tr =
     (let tr1 = log ''%s: Running command'' [S stepName] tr;
          tr2 = (if Verbose b then log ''Command: %s'' [S command] tr1 else tr1)
      in if DryRun b then (None, tr2)
         else pct w [''exec'', Itoa containerID, ''--'', ''sh'', ''-c'',
                     expandBuildArgs command buildArgs] tr2)"

definition executeCopyStep :: "Config \<Rightarrow> env \<Rightarrow> int \<Rightarrow> CopyStep \<Rightarrow> string \<Rightarrow> event list \<Rightarrow> build_error option \<times> event list" where
  "executeCopyStep b w containerID copyStep stepName tr =
     (let tr1 = log ''%s: Copying %s -> %s'' [S stepName, S (Source copyStep), S (Dest copyStep)] tr
      in if DryRun b then (None, tr1)
         else if not_exist w tr1 (Source copyStep)
           then (Some (SourceMissing (Source copyStep)), emit (Stat (Source copyStep)) tr1)
         else
           let tr2 = emit (Stat (Source copyStep)) tr1;
               destDir = filepath_Dir w (Dest copyStep);
               (mk, tr3) = (if destDir \<noteq> ''/'' \<and> destDir \<noteq> ''.''
                              then pct w [''exec'', Itoa containerID, ''--'', ''mkdir'', ''-p'', destDir] tr2
                            else (None, tr2))
           in case mk of
                Some err \<Rightarrow> (Some (MkdirFailed err), tr3)
              | None \<Rightarrow>
                  (case pct w [''push'', Itoa containerID, Source copyStep, Dest copyStep] tr3 of
                     (Some err, tr4) \<Rightarrow> (Some (CopyFailed err), tr4)
                   | (None, tr4) \<Rightarrow>
                       let tr5 =
                             (if Owner copyStep \<noteq> [] then
                                (case pct w [''exec'', Itoa containerID, ''--'', ''chown'', ''-R'',
                                             Owner copyStep, Dest copyStep] tr4 of
                                   (Some err, t) \<Rightarrow> logWarning ''Failed to set ownership: %v'' [BE err] t
                                 | (None, t) \<Rightarrow> t)
                              else tr4);
                           tr6 =
                             (if Mode copyStep \<noteq> [] then
                                (case pct w [''exec'', Itoa containerID, ''--'', ''chmod'', ''-R'',
                                             Mode copyStep, Dest copyStep] tr5 of
                                   (Some err, t) \<Rightarrow> logWarning ''Failed to set permissions: %v'' [BE err] t
                                 | (None, t) \<Rightarrow> t)
                              else tr5)
                       in (None, tr6)))"

text \<open>The loop of \<open>executeEnvStep\<close> over the variables.\<close>

fun env_loop :: "env \<Rightarrow> int \<Rightarrow> (string \<times> string) list \<Rightarrow> event list \<Rightarrow> build_error option \<times> event list" where
  "env_loop w containerID [] tr = (None, tr)"
| "env_loop w containerID ((key, val) # rest) tr =
     (case pct w [''exec'', Itoa containerID, ''--'', ''sh'', ''-c'',
                  ''echo '' @ [CHR 0x27] @ key @ ''='' @ val @ [CHR 0x27] @ '' >> /etc/environment''] tr of
        (Some err, tr1) \<Rightarrow> (Some (SetEnvFailed key err), tr1)
      | (None, tr1) \<Rightarrow> env_loop w containerID rest tr1)"

definition executeEnvStep :: "Config \<Rightarrow> env \<Rightarrow> int \<Rightarrow> (string \<times> string) list \<Rightarrow> string \<Rightarrow> event list \<Rightarrow> build_error option \<times> event list" where
  "executeEnvStep b w containerID vars stepName tr =
     (let tr1 = log ''%s: Setting %d environment variables'' [S stepName, D (int (length vars))] tr
      in if DryRun b then (None, tr1)
         else env_loop w containerID vars tr1)"

definition executeSetupStep :: "Config \<Rightarrow> env \<Rightarrow> int \<Rightarrow> SetupStep \<Rightarrow> string \<Rightarrow> (string \<times> string) list \<Rightarrow> event list \<Rightarrow> build_error option \<times> event list" where
  "executeSetupStep b w containerID step stepName buildArgs tr =
     (if Run step \<noteq> [] then executeRunStep b w containerID (Run step) stepName buildArgs tr
      else case Copy step of
        Some c \<Rightarrow> executeCopyStep b w containerID c stepName tr
      | None \<Rightarrow>
          (case Env step of
             Some vars \<Rightarrow> executeEnvStep b w containerID vars stepName tr
           | None \<Rightarrow> (Some NoActions, tr)))"

definition applyContainerConfig :: "Config \<Rightarrow> env \<Rightarrow> int \<Rightarrow> LXCfile \<Rightarrow> event list \<Rightarrow> build_error option \<times> event list" where
  "applyContainerConfig b w containerID lxcfile tr =
     (let tr1 = log ''Applying container configuration'' [] tr
      in if DryRun b then (None, tr1)
         else
           let args1 =
                 (case lxcfile_Resources lxcfile of
                    None \<Rightarrow> []
                  | Some r \<Rightarrow>
                      (if Cores r > 0 then [''-cores'', Itoa (Cores r)] else []) @
                      (if Memory r > 0 then [''-memory'', Itoa (Memory r)] else []) @
                      (if Swap r > 0 then [''-swap'', Itoa (Swap r)] else []));
               args2 =
                 (case lxcfile_Features lxcfile of
                    None \<Rightarrow> args1
                  | Some f \<Rightarrow>
                      let features =
                            (if Nesting f then [''nesting=1''] else []) @
                            (if Keyctl f then [''keyctl=1''] else []) @
                            (if Fuse f then [''fuse=1''] else [])
                      in if length features > 0 then args1 @ [''-features'', Join features '','']
                         else args1)
           in if length args2 > 0
                then runPCTCommand b w ([''set'', Itoa containerID] @ args2) tr1
              else (None, tr1))"

definition exportTemplate :: "Config \<Rightarrow> env \<Rightarrow> int \<Rightarrow> string \<Rightarrow> event list \<Rightarrow> (build_error + string) \<times> event list" where
  "exportTemplate b w containerID templateName tr =
     (let tr1 = log ''Converting container to template: %s'' [S templateName] tr
      in if DryRun b then (Inr templateName, tr1)
         else case runPCTCommand b w [''template'', Itoa containerID] tr1 of
                (Some err, tr2) \<Rightarrow> (Inl err, tr2)
              | (None, tr2) \<Rightarrow> (Inr (Itoa containerID), tr2))"

definition cleanupTempContainer :: "Config \<Rightarrow> env \<Rightarrow> int \<Rightarrow> event list \<Rightarrow> build_error option \<times> event list" where
  "cleanupTempContainer b w containerID tr =
     (if DryRun b then (None, tr)
      else
        let tr1 = log ''Cleaning up temporary container %d'' [D containerID] tr;
            (ignored, tr2) = runPCTCommand b w [''stop'', Itoa containerID] tr1
        in runPCTCommand b w [''destroy'', Itoa containerID] tr2)"

text \<open>
  The two loops of \<open>BuildTemplate\<close>; \<open>i\<close> is the index of the head of the list.  The
  setup loop returns at the first failing step; the cleanup loop logs a failure and goes
  on.
\<close>

fun setup_loop :: "Config \<Rightarrow> env \<Rightarrow> int \<Rightarrow> (string \<times> string) list \<Rightarrow> nat \<Rightarrow> SetupStep list \<Rightarrow> BuildResult \<Rightarrow> event list \<Rightarrow> (build_error + BuildResult) \<times> event list" where
  "setup_loop b w containerID buildArgs i [] result tr = (Inr result, tr)"
| "setup_loop b w containerID buildArgs i (step # rest) result tr =
     (let stepName = ''Step '' @ Itoa (int (i + 1))
      in case executeSetupStep b w containerID step stepName buildArgs tr of
           (Some err, tr1) \<Rightarrow> (Inl (StepFailed stepName err), tr1)
         | (None, tr1) \<Rightarrow>
             setup_loop b w containerID buildArgs (i + 1) rest
               (result\<lparr>ExecutedSteps := ExecutedSteps result @ [stepName]\<rparr>) tr1)"

fun cleanup_loop :: "Config \<Rightarrow> env \<Rightarrow> int \<Rightarrow> (string \<times> string) list \<Rightarrow> nat \<Rightarrow> SetupStep list \<Rightarrow> BuildResult \<Rightarrow> event list \<Rightarrow> BuildResult \<times> event list" where
  "cleanup_loop b w containerID buildArgs i [] result tr = (result, tr)"
| "cleanup_loop b w containerID buildArgs i (step # rest) result tr =
     (let stepName = ''Cleanup '' @ Itoa (int (i + 1))
      in case executeSetupStep b w containerID step stepName buildArgs tr of
           (Some err, tr1) \<Rightarrow>
             cleanup_loop b w containerID buildArgs (i + 1) rest result
               (logWarning ''Cleanup step failed (continuing): %v'' [BE err] tr1)
         | (None, tr1) \<Rightarrow>
             cleanup_loop b w containerID buildArgs (i + 1) rest
               (result\<lparr>ExecutedSteps := ExecutedSteps result @ [stepName]\<rparr>) tr1)"

text \<open>
  \<open>BuildTemplate\<close> after the \<open>defer\<close> statement.  Besides what the function returns,
  the body gives the value of \<open>shouldCleanup\<close> at the return.
\<close>

definition build_body :: "Config \<Rightarrow> env \<Rightarrow> LXCfile \<Rightarrow> string \<Rightarrow> (string \<times> string) list \<Rightarrow> int \<Rightarrow> int \<Rightarrow> BuildResult \<Rightarrow> event list \<Rightarrow> (build_error + BuildResult) \<times> bool \<times> event list" where
  "build_body b w lxcfile templateName buildArgs startTime containerID result tr =
     (case startContainer b w containerID tr of
        (Some startErr, tr1) \<Rightarrow> (Inl (StartTempFailed startErr), True, tr1)
      | (None, tr1) \<Rightarrow>
     (case waitForContainer b w containerID tr1 of
        (Some waitErr, tr2) \<Rightarrow> (Inl (ContainerNotReady waitErr), True, tr2)
      | (None, tr2) \<Rightarrow>
     (case setup_loop b w containerID buildArgs 0 (Setup lxcfile) result tr2 of
        (Inl err, tr3) \<Rightarrow> (Inl err, True, tr3)
      | (Inr result1, tr3) \<Rightarrow>
     (case applyContainerConfig b w containerID lxcfile tr3 of
        (Some err, tr4) \<Rightarrow> (Inl (ApplyConfigFailed err), True, tr4)
      | (None, tr4) \<Rightarrow>
     (case cleanup_loop b w containerID buildArgs 0 (Cleanup lxcfile) result1 tr4 of
        (result2, tr5) \<Rightarrow>
     (case stopContainer b w containerID tr5 of
        (Some err, tr6) \<Rightarrow> (Inl (StopFailed err), True, tr6)
      | (None, tr6) \<Rightarrow>
     (case exportTemplate b w containerID templateName tr6 of
        (Inl err, tr7) \<Rightarrow> (Inl (ExportFailed err), True, tr7)
      | (Inr templatePath, tr7) \<Rightarrow>
     (case time_Since w startTime tr7 of
        (d, tr8) \<Rightarrow>
          (Inr (result2\<lparr>TemplatePath := templatePath, BuildDuration := d\<rparr>), False, tr8)))))))))"

text \<open>The deferred function, run when \<open>BuildTemplate\<close> returns.\<close>

definition deferred_cleanup :: "Config \<Rightarrow> env \<Rightarrow> int \<Rightarrow> bool \<Rightarrow> event list \<Rightarrow> event list" where
  "deferred_cleanup b w containerID shouldCleanup tr =
     (if shouldCleanup then
        (case cleanupTempContainer b w containerID tr of
           (Some cleanupErr, tr1) \<Rightarrow>
             logError ''Failed to cleanup temporary container %d: %v''
               [D containerID, BE cleanupErr] tr1
         | (None, tr1) \<Rightarrow> tr1)
      else tr)"

text \<open>
  \<open>BuildTemplate\<close>.  Go returns \<open>(nil, err)\<close> or \<open>(result, nil)\<close>: the sum holds the one
  that is not \<open>nil\<close>.
\<close>

definition BuildTemplate :: "Config \<Rightarrow> env \<Rightarrow> LXCfile \<Rightarrow> string \<Rightarrow> (string \<times> string) list \<Rightarrow> event list \<Rightarrow> (build_error + BuildResult) \<times> event list" where
  "BuildTemplate b w lxcfile templateName buildArgs tr =
     (case time_Now w tr of
        (startTime, tr1) \<Rightarrow>
     (case generateContainerID b w tr1 of
        (Inl err, tr2) \<Rightarrow> (Inl (GenerateIDFailed err), tr2)
      | (Inr containerID, tr2) \<Rightarrow>
          let result = \<lparr>TemplateName = templateName, TemplatePath = [],
                        ContainerID = containerID, BuildDuration = 0, ExecutedSteps = []\<rparr>;
              tr3 = (if Verbose b
                       then log ''Using temporary container ID: %d'' [D containerID] tr2
                     else tr2)
          in case createTempContainer b w containerID (From lxcfile) tr3 of
               (Some createErr, tr4) \<Rightarrow> (Inl (CreateTempFailed createErr), tr4)
             | (None, tr4) \<Rightarrow>
                 (case build_body b w lxcfile templateName buildArgs startTime containerID result tr4 of
                    (ret, shouldCleanup, tr5) \<Rightarrow>
                      (ret, deferred_cleanup b w containerID shouldCleanup tr5))))"

section \<open>Proxmox client (package proxmox)\<close>

record Client =
  client_node :: string
  client_verbose :: bool
  client_dryRun :: bool

record ContainerConfig =
  cc_Hostname :: string
  cc_Memory :: int
  cc_Swap :: int
  cc_Cores :: int
  cc_Storage :: string
  cc_Net0 :: string
  cc_Environment :: "(string \<times> string) list"
  cc_MountPoints :: "(string \<times> string) list"

definition NewClient :: "string \<Rightarrow> bool \<Rightarrow> bool \<Rightarrow> Client" where
  "NewClient node verbose dryRun =
     \<lparr>client_node = (if node = [] then ''localhost'' else node),
      client_verbose = verbose, client_dryRun = dryRun\<rparr>"

text \<open>The client's \<open>runPCTCommand\<close>, which prints the command when verbose.\<close>

definition client_runPCTCommand :: "Client \<Rightarrow> env \<Rightarrow> string list \<Rightarrow> event list \<Rightarrow> deploy_error option \<times> event list" where
  "client_runPCTCommand c w args tr =
     (let tr1 = (if client_verbose c
                   then emit (Log Plain ''Executing: pct %s'' [S (Join args '' '')]) tr
                 else tr)
      in (map_option ClientExecError (pct_result w tr1 args), emit (Exec args) tr1))"

text \<open>
  \<open>config.Net0\<close> is set to the default when it is empty, so the network argument is
  always passed.  The configuration is not read again after the call.
\<close>

definition default_Net0 :: "ContainerConfig \<Rightarrow> string" where
  "default_Net0 config =
     (if cc_Net0 config = [] then ''name=eth0,bridge=vmbr0,ip=dhcp,type=veth'' else cc_Net0 config)"

definition configureClonedContainer :: "Client \<Rightarrow> env \<Rightarrow> int \<Rightarrow> ContainerConfig \<Rightarrow> event list \<Rightarrow> deploy_error option \<times> event list" where
  "configureClonedContainer c w vmid config tr =
     (let args =
            (if cc_Memory config > 0 then [''-memory'', Itoa (cc_Memory config)] else []) @
            (if cc_Cores config > 0 then [''-cores'', Itoa (cc_Cores config)] else []) @
            (if default_Net0 config \<noteq> [] then [''-net0'', default_Net0 config] else [])
      in if length args > 0 then client_runPCTCommand c w ([''set'', Itoa vmid] @ args) tr
         else (None, tr))"

definition cloneContainer :: "Client \<Rightarrow> env \<Rightarrow> int \<Rightarrow> string \<Rightarrow> ContainerConfig \<Rightarrow> event list \<Rightarrow> deploy_error option \<times> event list" where
  "cloneContainer c w vmid templateID config tr =
     (case client_runPCTCommand c w
             ([''clone'', templateID, Itoa vmid] @
              (if cc_Hostname config \<noteq> [] then [''--hostname'', cc_Hostname config] else [])) tr of
        (Some err, tr1) \<Rightarrow> (Some err, tr1)
      | (None, tr1) \<Rightarrow> configureClonedContainer c w vmid config tr1)"

definition CreateContainer :: "Client \<Rightarrow> env \<Rightarrow> int \<Rightarrow> string \<Rightarrow> ContainerConfig \<Rightarrow> event list \<Rightarrow> deploy_error option \<times> event list" where
  "CreateContainer c w vmid template config tr =
     (if client_dryRun c then
        (None, if client_verbose c
                 then emit (Log Plain ''DRY RUN: Would create container %d from template %s''
                              [D vmid, S template]) tr
               else tr)
      else if Atoi_ok w template then cloneContainer c w vmid template config tr
      else
        client_runPCTCommand c w
          ([''create'', Itoa vmid, template] @
           (if cc_Hostname config \<noteq> [] then [''--hostname'', cc_Hostname config] else []) @
           (if cc_Memory config > 0 then [''--memory'', Itoa (cc_Memory config)] else []) @
           (if cc_Cores config > 0 then [''--cores'', Itoa (cc_Cores config)] else []) @
           (if cc_Storage config \<noteq> [] then [''--storage'', cc_Storage config] else []) @
           (if default_Net0 config \<noteq> [] then [''--net0'', default_Net0 config] else []))
          tr)"

definition StartContainer :: "Client \<Rightarrow> env \<Rightarrow> int \<Rightarrow> event list \<Rightarrow> deploy_error option \<times> event list" where
  "StartContainer c w vmid tr =
     (if client_dryRun c then
        (None, if client_verbose c
                 then emit (Log Plain ''DRY RUN: Would start container %d'' [D vmid]) tr
               else tr)
      else client_runPCTCommand c w [''start'', Itoa vmid] tr)"

section \<open>Deployment orchestrator (package runner)\<close>

record RunnerConfig =
  rc_Verbose :: bool
  rc_DryRun :: bool
  rc_ProjectName :: string
  rc_BaseDir :: string
  rc_ProxmoxNode :: string
  rc_Storage :: string
  rc_TemplateStorage :: string

record Orchestrator =
  client :: Client
  builder :: Config
  verbose :: bool
  dryRun :: bool
  projectName :: string
  baseDir :: string
  storage :: string
  templateStorage :: string

record ServiceResult =
  Name :: string
  sr_ContainerID :: int
  Status :: string
  BuildTime :: int
  StartTime :: int
  Error :: "deploy_error option"

text \<open>
  \<open>DeploymentResult\<close>.  \<open>Networks\<close> and \<open>Volumes\<close> stay empty: no modelled function
  appends to them.
\<close>

record DeploymentResult =
  dr_Services :: "ServiceResult list"
  dr_Networks :: "string list"
  dr_Volumes :: "string list"
  DeploymentTime :: int

definition zero_RunnerConfig :: RunnerConfig where
  "zero_RunnerConfig =
     \<lparr>rc_Verbose = False, rc_DryRun = False, rc_ProjectName = [], rc_BaseDir = [],
      rc_ProxmoxNode = [], rc_Storage = [], rc_TemplateStorage = []\<rparr>"

definition runner_New :: "RunnerConfig option \<Rightarrow> Orchestrator" where
  "runner_New config =
     (let c0 = (case config of None \<Rightarrow> zero_RunnerConfig | Some c \<Rightarrow> c);
          c1 = (if rc_ProjectName c0 = [] then c0\<lparr>rc_ProjectName := ''pxc-project''\<rparr> else c0);
          c2 = (if rc_BaseDir c1 = [] then c1\<lparr>rc_BaseDir := ''.''\<rparr> else c1)
      in \<lparr>client = NewClient [] (rc_Verbose c2) (rc_DryRun c2),
          builder = New (Some \<lparr>Verbose = rc_Verbose c2, DryRun = rc_DryRun c2,
                                ProxmoxNode = rc_ProxmoxNode c2, Storage = rc_Storage c2,
                                TempContainerPrefix = [],
                                TemplateStorage = rc_TemplateStorage c2\<rparr>),
          verbose = rc_Verbose c2, dryRun = rc_DryRun c2, projectName = rc_ProjectName c2,
          baseDir = rc_BaseDir c2, storage = rc_Storage c2,
          templateStorage = rc_TemplateStorage c2\<rparr>)"

definition logSuccess :: "string \<Rightarrow> log_arg list \<Rightarrow> event list \<Rightarrow> event list" where
  "logSuccess format args tr = emit (Log Success format args) tr"

definition getStackName :: "Orchestrator \<Rightarrow> LXCStack \<Rightarrow> string" where
  "getStackName o' stack =
     (case stack_Metadata stack of
        Some m \<Rightarrow> if meta_Name m \<noteq> [] then meta_Name m else projectName o'
      | None \<Rightarrow> projectName o')"

definition getContainerHostname :: "Orchestrator \<Rightarrow> string \<Rightarrow> Service \<Rightarrow> string" where
  "getContainerHostname o' serviceName service =
     (if Hostname service \<noteq> [] then Hostname service
      else projectName o' @ ''-'' @ serviceName)"

text \<open>The placeholders of the source: they log at most, and return \<open>nil\<close>.\<close>

definition createNetworks :: "Orchestrator \<Rightarrow> event list \<Rightarrow> deploy_error option \<times> event list" where
  "createNetworks o' tr =
     (None, if verbose o' then log ''Creating networks (placeholder)'' [] tr else tr)"

definition createVolumes :: "Orchestrator \<Rightarrow> event list \<Rightarrow> deploy_error option \<times> event list" where
  "createVolumes o' tr =
     (None, if verbose o' then log ''Creating volumes (placeholder)'' [] tr else tr)"

definition configureContainer :: "int \<Rightarrow> Service \<Rightarrow> deploy_error option" where
  "configureContainer containerID service = None"

definition waitForHealthCheck :: "int \<Rightarrow> HealthCheck \<Rightarrow> deploy_error option" where
  "waitForHealthCheck containerID health = None"

definition executeHooks :: "string list \<Rightarrow> deploy_error option" where
  "executeHooks hooks = None"

definition removeService :: "string \<Rightarrow> event list \<Rightarrow> deploy_error option \<times> event list" where
  "removeService serviceName tr = (None, log ''Removing service: %s'' [S serviceName] tr)"

definition removeVolumes :: "LXCStack \<Rightarrow> deploy_error option" where
  "removeVolumes stack = None"

text \<open>
  The orchestrator's \<open>generateContainerID\<close>: the rolling hash over the runes of the
  project name followed by the service name.
\<close>

fun hash_loop :: "int \<Rightarrow> int list \<Rightarrow> int" where
  "hash_loop hash [] = hash"
| "hash_loop hash (char # rest) = hash_loop (go_rem (hash * 31 + char) 1000) rest"

definition service_ContainerID :: "Orchestrator \<Rightarrow> env \<Rightarrow> string \<Rightarrow> deploy_error + int" where
  "service_ContainerID o' w serviceName =
     Inr (200 + hash_loop 0 (runes w (projectName o' @ serviceName)))"

definition buildContainerConfig :: "Orchestrator \<Rightarrow> Service \<Rightarrow> LXCStack \<Rightarrow> ContainerConfig" where
  "buildContainerConfig o' service stack =
     (let config = \<lparr>cc_Hostname = [], cc_Memory = 0, cc_Swap = 0, cc_Cores = 0,
                     cc_Storage = storage o', cc_Net0 = [], cc_Environment = [],
                     cc_MountPoints = []\<rparr>;
          config1 =
            (case Resources service of
               None \<Rightarrow> config
             | Some r \<Rightarrow>
                 let a = (if Memory r > 0 then config\<lparr>cc_Memory := Memory r\<rparr> else config);
                     b = (if Cores r > 0 then a\<lparr>cc_Cores := Cores r\<rparr> else a)
                 in if Swap r > 0 then b\<lparr>cc_Swap := Swap r\<rparr> else b);
          defaults = (case stack_Settings stack of
                        None \<Rightarrow> None
                      | Some settings \<Rightarrow> DefaultResources settings);
          config2 =
            (case defaults of
               Some d \<Rightarrow> if cc_Memory config1 = 0 then config1\<lparr>cc_Memory := Memory d\<rparr> else config1
             | None \<Rightarrow> config1);
          config3 =
            (case defaults of
               Some d \<Rightarrow> if cc_Cores config2 = 0 then config2\<lparr>cc_Cores := Cores d\<rparr> else config2
             | None \<Rightarrow> config2);
          config4 = config3\<lparr>cc_Environment := Environment service\<rparr>
      in case stack_Settings stack of
           None \<Rightarrow> config4
         | Some settings \<Rightarrow>
             (case Proxmox settings of
                None \<Rightarrow> config4
              | Some p \<Rightarrow>
                  if px_Storage p \<noteq> [] then config4\<lparr>cc_Storage := px_Storage p\<rparr> else config4))"

definition ensureTemplate :: "Orchestrator \<Rightarrow> env \<Rightarrow> string \<Rightarrow> Service \<Rightarrow> event list \<Rightarrow> (deploy_error + string) \<times> event list" where
  "ensureTemplate o' w serviceName service tr =
     (if Template service \<noteq> [] then (Inr (Template service), tr)
      else case GetBuildConfig service of
        None \<Rightarrow> (Inl (TemplateOrBuildRequired serviceName), tr)
      | Some buildConfig \<Rightarrow>
          let lxcfilePath =
                (if Dockerfile buildConfig = []
                   then filepath_Join w (Context buildConfig) ''LXCfile.yml''
                 else filepath_Join w (Context buildConfig) (Dockerfile buildConfig))
          in case LoadLXCfile w tr lxcfilePath of
               Inl m \<Rightarrow> (Inl (LoadLXCfileFailed serviceName (LoadError m)), emit (Load lxcfilePath) tr)
             | Inr lxcfile \<Rightarrow>
                 let tr1 = emit (Load lxcfilePath) tr;
                     templateName = projectName o' @ ''-'' @ serviceName @ '':latest'';
                     tr2 = log ''Building template for service %s'' [S serviceName] tr1
                 in case time_Now w tr2 of
                      (buildStart, tr3) \<Rightarrow>
                   (case BuildTemplate (builder o') w lxcfile templateName
                           (case Args buildConfig of None \<Rightarrow> [] | Some a \<Rightarrow> a) tr3 of
                      (Inl err, tr4) \<Rightarrow> (Inl (BuildFailed serviceName err), tr4)
                    | (Inr result, tr4) \<Rightarrow>
                        (case time_Since w buildStart tr4 of
                           (d, tr5) \<Rightarrow>
                             (Inr (TemplatePath result),
                              log ''Template built for service %s in %v'' [S serviceName, D d] tr5))))"

definition deployService :: "Orchestrator \<Rightarrow> env \<Rightarrow> string \<Rightarrow> Service \<Rightarrow> LXCStack \<Rightarrow> event list \<Rightarrow> ServiceResult \<times> event list" where
  "deployService o' w name service stack tr =
     (let result = \<lparr>Name = name, sr_ContainerID = 0, Status = [], BuildTime = 0,
                     StartTime = 0, Error = None\<rparr>;
          tr1 = log ''Deploying service: %s'' [S name] tr
      in case ensureTemplate o' w name service tr1 of
           (Inl err, tr2) \<Rightarrow> (result\<lparr>Error := Some err\<rparr>, tr2)
         | (Inr templateName, tr2) \<Rightarrow>
      (case service_ContainerID o' w name of
           Inl err \<Rightarrow> (result\<lparr>Error := Some err\<rparr>, tr2)
         | Inr containerID \<Rightarrow>
      let result1 = result\<lparr>sr_ContainerID := containerID\<rparr>;
          containerConfig = (buildContainerConfig o' service stack)
                              \<lparr>cc_Hostname := getContainerHostname o' name service\<rparr>
      in case CreateContainer (client o') w containerID templateName containerConfig tr2 of
           (Some err, tr3) \<Rightarrow> (result1\<lparr>Error := Some (CreateContainerFailed err)\<rparr>, tr3)
         | (None, tr3) \<Rightarrow>
      (case configureContainer containerID service of
           Some err \<Rightarrow> (result1\<lparr>Error := Some (ConfigureContainerFailed err)\<rparr>, tr3)
         | None \<Rightarrow>
      (case time_Now w tr3 of
           (startTime, tr4) \<Rightarrow>
      (case StartContainer (client o') w containerID tr4 of
           (Some err, tr5) \<Rightarrow> (result1\<lparr>Error := Some (StartContainerFailed err)\<rparr>, tr5)
         | (None, tr5) \<Rightarrow>
      (case time_Since w startTime tr5 of
           (d, tr6) \<Rightarrow>
             let result2 = result1\<lparr>StartTime := d\<rparr>;
                 tr7 = (case Health service of
                          None \<Rightarrow> tr6
                        | Some h \<Rightarrow>
                            (case waitForHealthCheck containerID h of
                               Some err \<Rightarrow>
                                 logWarning ''Health check failed for service %s: %v''
                                   [S name, DE err] tr6
                             | None \<Rightarrow> tr6))
             in (result2\<lparr>Status := ''running''\<rparr>,
                 logSuccess ''Service %s deployed successfully (container %d)''
                   [S name, D containerID] tr7)))))))"

text \<open>
  The loop of \<open>Up\<close> over the resolved order: the outcome of each service is appended to
  the result, and the loop returns at the first outcome that holds an error.
\<close>

fun deploy_loop :: "Orchestrator \<Rightarrow> env \<Rightarrow> LXCStack \<Rightarrow> string list \<Rightarrow> DeploymentResult \<Rightarrow> event list \<Rightarrow> (DeploymentResult \<times> deploy_error option) \<times> event list" where
  "deploy_loop o' w stack [] result tr = ((result, None), tr)"
| "deploy_loop o' w stack (serviceName # rest) result tr =
     (case deployService o' w serviceName (lookup_service (Services stack) serviceName) stack tr of
        (serviceResult, tr1) \<Rightarrow>
          let result1 = result\<lparr>dr_Services := dr_Services result @ [serviceResult]\<rparr>
          in case Error serviceResult of
               Some err \<Rightarrow> ((result1, Some (DeployFailed serviceName err)), tr1)
             | None \<Rightarrow> deploy_loop o' w stack rest result1 tr1)"

text \<open>
  A list of hooks of the stack, run when it is not empty: the announcement, then
  \<open>executeHooks\<close>, whose failure is logged only.
\<close>

definition run_hooks :: "string \<Rightarrow> string \<Rightarrow> string list \<Rightarrow> event list \<Rightarrow> event list" where
  "run_hooks announce failed hooks tr =
     (if length hooks > 0 then
        (let t = log announce [] tr
         in case executeHooks hooks of
              Some err \<Rightarrow> logWarning failed [DE err] t
            | None \<Rightarrow> t)
      else tr)"

text \<open>
  \<open>Up\<close>.  It returns a pair as in Go: the result is \<open>None\<close> where Go returns \<open>nil\<close>.
\<close>

definition Up :: "Orchestrator \<Rightarrow> env \<Rightarrow> string \<Rightarrow> event list \<Rightarrow> (DeploymentResult option \<times> deploy_error option) \<times> event list" where
  "Up o' w stackFile tr =
     (case time_Now w tr of
        (startTime, tr1) \<Rightarrow>
     (case LoadLXCStack w (log ''Loading stack configuration: %s'' [S stackFile] tr1) stackFile of
        Inl m \<Rightarrow>
          ((None, Some (LoadStackFailed (LoadError m))),
           emit (Load stackFile) (log ''Loading stack configuration: %s'' [S stackFile] tr1))
      | Inr stack \<Rightarrow>
     (case Validate stack of
        Some err \<Rightarrow>
          ((None, Some (InvalidStack err)),
           emit (Load stackFile) (log ''Loading stack configuration: %s'' [S stackFile] tr1))
      | None \<Rightarrow>
     (case createNetworks o'
             (log ''Deploying stack: %s'' [S (getStackName o' stack)]
                (emit (Load stackFile)
                   (log ''Loading stack configuration: %s'' [S stackFile] tr1))) of
        (Some err, tr5) \<Rightarrow>
          ((Some \<lparr>dr_Services = [], dr_Networks = [], dr_Volumes = [], DeploymentTime = 0\<rparr>,
            Some (CreateNetworksFailed err)), tr5)
      | (None, tr5) \<Rightarrow>
     (case createVolumes o' tr5 of
        (Some err, tr6) \<Rightarrow>
          ((Some \<lparr>dr_Services = [], dr_Networks = [], dr_Volumes = [], DeploymentTime = 0\<rparr>,
            Some (CreateVolumesFailed err)), tr6)
      | (None, tr6) \<Rightarrow>
     (case GetServiceDependencyOrder stack of
        Inl err \<Rightarrow>
          ((Some \<lparr>dr_Services = [], dr_Networks = [], dr_Volumes = [], DeploymentTime = 0\<rparr>,
            Some (ResolveFailed err)), tr6)
      | Inr serviceOrder \<Rightarrow>
     (case deploy_loop o' w stack serviceOrder
             \<lparr>dr_Services = [], dr_Networks = [], dr_Volumes = [], DeploymentTime = 0\<rparr>
             (log ''Service startup order: %s'' [S (Join serviceOrder '' -> '')] tr6) of
        ((result1, Some err), tr8) \<Rightarrow> ((Some result1, Some err), tr8)
      | ((result1, None), tr8) \<Rightarrow>
     (case time_Since w startTime
             (case stack_Hooks stack of
                None \<Rightarrow> tr8
              | Some h \<Rightarrow>
                  run_hooks ''Executing post-start hooks'' ''Post-start hooks failed: %v''
                    (PostStart h) tr8) of
        (d, tr10) \<Rightarrow>
          ((Some (result1\<lparr>DeploymentTime := d\<rparr>), None),
           logSuccess ''Stack deployed successfully in %v'' [D d] tr10)))))))))"

text \<open>
  The reversal loop of \<open>Down\<close>: \<open>reverse_loop (Suc i) xs\<close> is the loop at index \<open>i\<close>, which
  swaps the elements at \<open>i\<close> and \<open>len - 1 - i\<close> and goes on with \<open>i - 1\<close>;
  \<open>reverse_loop 0\<close> is the loop at \<open>i = -1\<close>, where it ends.  It starts at \<open>len/2 - 1\<close>.
\<close>

fun reverse_loop :: "nat \<Rightarrow> 'a list \<Rightarrow> 'a list" where
  "reverse_loop 0 serviceOrder = serviceOrder"
| "reverse_loop (Suc i) serviceOrder =
     (let opp = length serviceOrder - 1 - i
      in reverse_loop i (serviceOrder[i := serviceOrder ! opp, opp := serviceOrder ! i]))"

definition reverse_in_place :: "'a list \<Rightarrow> 'a list" where
  "reverse_in_place serviceOrder = reverse_loop (length serviceOrder div 2) serviceOrder"

text \<open>The loop of \<open>Down\<close> that removes the services; a failure is logged only.\<close>

fun remove_loop :: "string list \<Rightarrow> event list \<Rightarrow> event list" where
  "remove_loop [] tr = tr"
| "remove_loop (serviceName # rest) tr =
     (case removeService serviceName tr of
        (Some err, tr1) \<Rightarrow>
          remove_loop rest
            (logWarning ''Failed to remove service %s: %v'' [S serviceName, DE err] tr1)
      | (None, tr1) \<Rightarrow> remove_loop rest tr1)"

definition Down :: "Orchestrator \<Rightarrow> env \<Rightarrow> string \<Rightarrow> bool \<Rightarrow> event list \<Rightarrow> deploy_error option \<times> event list" where
  "Down o' w stackFile remove_volumes tr =
     (case LoadLXCStack w tr stackFile of
        Inl m \<Rightarrow> (Some (LoadStackFailed (LoadError m)), emit (Load stackFile) tr)
      | Inr stack \<Rightarrow>
     (let tr1 = emit (Load stackFile) tr;
          tr2 = log ''Stopping stack: %s'' [S (getStackName o' stack)] tr1;
          tr3 = (case stack_Hooks stack of
                   None \<Rightarrow> tr2
                 | Some h \<Rightarrow>
                     run_hooks ''Executing pre-stop hooks'' ''Pre-stop hooks failed: %v''
                       (PreStop h) tr2)
      in case GetServiceDependencyOrder stack of
           Inl err \<Rightarrow> (Some (ResolveFailed err), tr3)
         | Inr serviceOrder \<Rightarrow>
             let shutdownOrder = reverse_in_place serviceOrder;
                 tr4 = log ''Service shutdown order: %s'' [S (Join shutdownOrder '' -> '')] tr3;
                 tr5 = remove_loop shutdownOrder tr4;
                 tr6 = (if remove_volumes then
                          (case removeVolumes stack of
                             Some err \<Rightarrow> logWarning ''Failed to remove volumes: %v'' [DE err] tr5
                           | None \<Rightarrow> tr5)
                        else tr5);
                 tr7 = (case stack_Hooks stack of
                          None \<Rightarrow> tr6
                        | Some h \<Rightarrow>
                            run_hooks ''Executing post-stop hooks'' ''Post-stop hooks failed: %v''
                              (PostStop h) tr6)
             in (None, logSuccess ''Stack stopped successfully'' [] tr7)))"

section \<open>Observations and examples\<close>

subsection \<open>What a trace and a result show\<close>

text \<open>
  The services that \<open>Down\<close> removes, in order: \<open>removeService\<close> logs each one.
\<close>

fun removal_of :: "event \<Rightarrow> string option" where
  "removal_of (Log Info format [S serviceName]) =
     (if format = ''Removing service: %s'' then Some serviceName else None)"
| "removal_of e = None"

definition removed_services :: "event list \<Rightarrow> string list" where
  "removed_services tr = List.map_filter removal_of tr"

text \<open>
  What the manifest loader returns to \<open>Up\<close> and to \<open>Down\<close> when they are started on
  the trace \<open>tr\<close>: \<open>Up\<close> reads the clock and logs one line before it loads.
\<close>

definition stack_loaded_by_Up :: "env \<Rightarrow> string \<Rightarrow> event list \<Rightarrow> string + LXCStack" where
  "stack_loaded_by_Up w stackFile tr =
     LoadLXCStack w (log ''Loading stack configuration: %s'' [S stackFile] (emit Now tr)) stackFile"

definition stack_loaded_by_Down :: "env \<Rightarrow> string \<Rightarrow> event list \<Rightarrow> string + LXCStack" where
  "stack_loaded_by_Down w stackFile tr = LoadLXCStack w tr stackFile"

text \<open>
  The outcomes \<open>new\<close> that a deployment of the services \<open>ns\<close> leaves with the error
  \<open>err\<close>: either there is no error and every service has a successful outcome, or the
  service at some index \<open>k\<close> failed, the outcomes end with it, and the ones in front of it
  are successful.
\<close>

definition outcomes_of :: "string list \<Rightarrow> ServiceResult list \<Rightarrow> deploy_error option \<Rightarrow> bool" where
  "outcomes_of ns new err \<longleftrightarrow>
     (err = None \<and> map Name new = ns \<and>
       (\<forall>r\<in>set new. Error r = None \<and> Status r = ''running'')) \<or>
     (\<exists>k e. k < length ns \<and> err = Some (DeployFailed (ns ! k) e) \<and>
         map Name new = take (Suc k) ns \<and>
         (\<forall>i<k. Error (new ! i) = None \<and> Status (new ! i) = ''running'') \<and>
         Error (new ! k) = Some e)"

subsection \<open>The phases of the build pipeline\<close>

text \<open>
  \<open>allocated_id w tr\<close> is the identifier that \<open>BuildTemplate\<close>, started on the trace
  \<open>tr\<close>, generates, and \<open>initial_result\<close> the result it starts with.  The functions
  \<open>enters_body\<close>, \<open>enters_setup\<close>, \<open>enters_cleanup\<close> and \<open>enters_export\<close> give the
  trace (and the result so far) with which that run of \<open>BuildTemplate\<close> gets to the
  \<open>defer\<close> statement, to the loop over the setup steps, to the loop over the cleanup
  steps and to \<open>exportTemplate\<close>; they are \<open>None\<close> when the run returns earlier.
  \<open>finalizer_events\<close> lists what the deferred cleanup appends to the trace \<open>tr\<close>.
\<close>

definition allocated_id :: "env \<Rightarrow> event list \<Rightarrow> int" where
  "allocated_id w tr = go_rem (clock w (emit Now tr) div 1000000000) 100000 + 10000"

definition initial_result :: "string \<Rightarrow> int \<Rightarrow> BuildResult" where
  "initial_result templateName containerID =
     \<lparr>TemplateName = templateName, TemplatePath = [], ContainerID = containerID,
      BuildDuration = 0, ExecutedSteps = []\<rparr>"

definition enters_body :: "Config \<Rightarrow> env \<Rightarrow> LXCfile \<Rightarrow> event list \<Rightarrow> event list option" where
  "enters_body b w lxcfile tr =
     (case createTempContainer b w (allocated_id w tr) (From lxcfile)
             (if Verbose b
                then log ''Using temporary container ID: %d'' [D (allocated_id w tr)]
                       (emit Now (emit Now tr))
              else emit Now (emit Now tr)) of
        (Some err, tr4) \<Rightarrow> None
      | (None, tr4) \<Rightarrow> Some tr4)"

definition enters_setup :: "Config \<Rightarrow> env \<Rightarrow> LXCfile \<Rightarrow> event list \<Rightarrow> event list option" where
  "enters_setup b w lxcfile tr =
     (case enters_body b w lxcfile tr of
        None \<Rightarrow> None
      | Some tr4 \<Rightarrow>
          (case startContainer b w (allocated_id w tr) tr4 of
             (Some err, tr5) \<Rightarrow> None
           | (None, tr5) \<Rightarrow>
               (case waitForContainer b w (allocated_id w tr) tr5 of
                  (Some err, tr6) \<Rightarrow> None
                | (None, tr6) \<Rightarrow> Some tr6)))"

definition enters_cleanup :: "Config \<Rightarrow> env \<Rightarrow> LXCfile \<Rightarrow> string \<Rightarrow> (string \<times> string) list \<Rightarrow> event list \<Rightarrow> (BuildResult \<times> event list) option" where
  "enters_cleanup b w lxcfile templateName buildArgs tr =
     (case enters_setup b w lxcfile tr of
        None \<Rightarrow> None
      | Some tr2 \<Rightarrow>
          (case setup_loop b w (allocated_id w tr) buildArgs 0 (Setup lxcfile)
                  (initial_result templateName (allocated_id w tr)) tr2 of
             (Inl err, tr3) \<Rightarrow> None
           | (Inr result1, tr3) \<Rightarrow>
               (case applyContainerConfig b w (allocated_id w tr) lxcfile tr3 of
                  (Some err, tr4) \<Rightarrow> None
                | (None, tr4) \<Rightarrow> Some (result1, tr4))))"

definition enters_export :: "Config \<Rightarrow> env \<Rightarrow> LXCfile \<Rightarrow> string \<Rightarrow> (string \<times> string) list \<Rightarrow> event list \<Rightarrow> (BuildResult \<times> event list) option" where
  "enters_export b w lxcfile templateName buildArgs tr =
     (case enters_cleanup b w lxcfile templateName buildArgs tr of
        None \<Rightarrow> None
      | Some (result1, tr4) \<Rightarrow>
          (case cleanup_loop b w (allocated_id w tr) buildArgs 0 (Cleanup lxcfile) result1 tr4 of
             (result2, tr5) \<Rightarrow>
               (case stopContainer b w (allocated_id w tr) tr5 of
                  (Some err, tr6) \<Rightarrow> None
                | (None, tr6) \<Rightarrow> Some (result2, tr6))))"

definition finalizer_events :: "Config \<Rightarrow> env \<Rightarrow> int \<Rightarrow> event list \<Rightarrow> event list" where
  "finalizer_events b w containerID tr =
     (if DryRun b then []
      else
        let stop = [''stop'', Itoa containerID];
            destroy = [''destroy'', Itoa containerID];
            before_destroy =
              [Log Info ''Cleaning up temporary container %d'' [D containerID]] @
              (if Verbose b then [Log Info ''Executing: pct %s'' [S (Join stop '' '')]] else []) @
              [Exec stop] @
              (if Verbose b then [Log Info ''Executing: pct %s'' [S (Join destroy '' '')]] else [])
        in before_destroy @ [Exec destroy] @
           (case pct_result w (tr @ before_destroy) destroy of
              None \<Rightarrow> []
            | Some m \<Rightarrow>
                [Log Failure ''Failed to cleanup temporary container %d: %v''
                   [D containerID, BE (ExecError m)]]))"

subsection \<open>The phases of Up\<close>

text \<open>
  The names of the outcomes that a run of \<open>Up\<close> returns, in order; none when it returns
  no result.
\<close>

definition deployed_by :: "(DeploymentResult option \<times> deploy_error option) \<times> event list \<Rightarrow> string list" where
  "deployed_by run =
     (case fst (fst run) of None \<Rightarrow> [] | Some result \<Rightarrow> map Name (dr_Services result))"

text \<open>
  The result \<open>Up\<close> starts with.  \<open>enters_deploy\<close> gives the stack, the resolved order
  and the trace with which \<open>Up\<close>, started on the trace \<open>tr\<close>, gets to its loop over the
  services; it is \<open>None\<close> when \<open>Up\<close> returns earlier.
\<close>

definition empty_result :: DeploymentResult where
  "empty_result = \<lparr>dr_Services = [], dr_Networks = [], dr_Volumes = [], DeploymentTime = 0\<rparr>"

definition enters_deploy :: "Orchestrator \<Rightarrow> env \<Rightarrow> string \<Rightarrow> event list \<Rightarrow> (LXCStack \<times> string list \<times> event list) option" where
  "enters_deploy o' w stackFile tr =
     (case stack_loaded_by_Up w stackFile tr of
        Inl m \<Rightarrow> None
      | Inr stack \<Rightarrow>
          (case Validate stack of
             Some err \<Rightarrow> None
           | None \<Rightarrow>
               (case createNetworks o'
                       (log ''Deploying stack: %s'' [S (getStackName o' stack)]
                          (emit (Load stackFile)
                             (log ''Loading stack configuration: %s'' [S stackFile]
                                (emit Now tr)))) of
                  (Some err, tr5) \<Rightarrow> None
                | (None, tr5) \<Rightarrow>
                    (case createVolumes o' tr5 of
                       (Some err, tr6) \<Rightarrow> None
                     | (None, tr6) \<Rightarrow>
                         (case GetServiceDependencyOrder stack of
                            Inl err \<Rightarrow> None
                          | Inr serviceOrder \<Rightarrow>
                              Some (stack, serviceOrder,
                                    log ''Service startup order: %s''
                                      [S (Join serviceOrder '' -> '')] tr6))))))"

text \<open>
  The outcome that \<open>deployService\<close> returns for a service that failed, and the
  identifier and the configuration with which it creates the container of a service.
\<close>

definition failed_outcome :: "string \<Rightarrow> int \<Rightarrow> deploy_error \<Rightarrow> ServiceResult" where
  "failed_outcome name containerID err =
     \<lparr>Name = name, sr_ContainerID = containerID, Status = [], BuildTime = 0, StartTime = 0,
      Error = Some err\<rparr>"

definition container_id :: "Orchestrator \<Rightarrow> env \<Rightarrow> string \<Rightarrow> int" where
  "container_id o' w name = 200 + hash_loop 0 (runes w (projectName o' @ name))"

definition container_config :: "Orchestrator \<Rightarrow> string \<Rightarrow> Service \<Rightarrow> LXCStack \<Rightarrow> ContainerConfig" where
  "container_config o' name service stack =
     (buildContainerConfig o' service stack)\<lparr>cc_Hostname := getContainerHostname o' name service\<rparr>"

subsection \<open>The merge of resources as the specification words it\<close>

text \<open>
  The value of a resource field at the service level and at the stack level (zero when
  the level has no resources), and the first of them that is not zero.
\<close>

fun first_nonzero :: "int list \<Rightarrow> int" where
  "first_nonzero [] = 0"
| "first_nonzero (x # xs) = (if x \<noteq> 0 then x else first_nonzero xs)"

definition service_value :: "(Resources \<Rightarrow> int) \<Rightarrow> Service \<Rightarrow> int" where
  "service_value field service = (case Resources service of None \<Rightarrow> 0 | Some r \<Rightarrow> field r)"

definition stack_defaults :: "LXCStack \<Rightarrow> Resources option" where
  "stack_defaults stack =
     (case stack_Settings stack of None \<Rightarrow> None | Some settings \<Rightarrow> DefaultResources settings)"

definition default_value :: "(Resources \<Rightarrow> int) \<Rightarrow> LXCStack \<Rightarrow> int" where
  "default_value field stack = (case stack_defaults stack of None \<Rightarrow> 0 | Some d \<Rightarrow> field d)"

definition merged_by_precedence :: "(Resources \<Rightarrow> int) \<Rightarrow> Service \<Rightarrow> LXCStack \<Rightarrow> int" where
  "merged_by_precedence field service stack =
     first_nonzero [service_value field service, default_value field stack, 0]"

subsection \<open>The dependency graph and the order of a sequence\<close>

text \<open>
  \<open>dep_edges\<close> holds \<open>(a, b)\<close> when the service \<open>a\<close> of the map lists \<open>b\<close> in its
  \<open>DependsOn\<close>.  \<open>appears_before b a xs\<close>: \<open>a\<close> occurs in \<open>xs\<close> and \<open>b\<close> occurs in front
  of the first \<open>a\<close>.
\<close>

definition dep_edges :: "(string \<times> Service) list \<Rightarrow> (string \<times> string) set" where
  "dep_edges svcs = {(a, b). \<exists>svc. map_of svcs a = Some svc \<and> b \<in> set (DependsOn svc)}"

definition appears_before :: "'a \<Rightarrow> 'a \<Rightarrow> 'a list \<Rightarrow> bool" where
  "appears_before b a xs = (b \<in> set (takeWhile (\<lambda>x. x \<noteq> a) xs) \<and> a \<in> set xs)"


text \<open>
  The invariant of the traversal: \<open>visited\<close> marks the names of \<open>order\<close>, no name is
  twice in \<open>order\<close>, and every dependency of a name of \<open>order\<close> is in front of it.
\<close>

definition order_inv :: "(string \<times> Service) list \<Rightarrow> visit_state \<Rightarrow> bool" where
  "order_inv svcs st \<longleftrightarrow>
     (\<forall>n. visited st n = (n \<in> set (order st))) \<and> distinct (order st) \<and>
     (\<forall>a\<in>set (order st). \<forall>b\<in>set (DependsOn (lookup_service svcs a)).
        appears_before b a (order st))"

text \<open>
  What one successful visit does to the state: the in-progress marks are as before, and
  the names appended to the order were not in progress.
\<close>

definition extends :: "visit_state \<Rightarrow> visit_state \<Rightarrow> bool" where
  "extends st st' \<longleftrightarrow>
     visiting st' = visiting st \<and>
     (\<exists>new. order st' = order st @ new \<and> (\<forall>x\<in>set new. \<not> visiting st x))"

subsection \<open>Example stacks\<close>

definition template_service :: "string list \<Rightarrow> Service" where
  "template_service deps = zero_Service\<lparr>Template := ''ubuntu-22.04'', DependsOn := deps\<rparr>"

definition stack_of :: "(string \<times> Service) list \<Rightarrow> LXCStack" where
  "stack_of svcs =
     \<lparr>Version = ''1.0'', stack_Metadata = None, Services = svcs, stack_Volumes = [],
      stack_Networks = [], stack_Settings = None, stack_Hooks = None\<rparr>"

definition ex_web_db :: LXCStack where
  "ex_web_db = stack_of [(''web'', template_service [''db'']), (''db'', template_service [])]"

definition ex_cycle :: LXCStack where
  "ex_cycle = stack_of [(''web'', template_service [''api'']), (''api'', template_service [''web''])]"

definition ex_missing :: LXCStack where
  "ex_missing = stack_of [(''a'', template_service [''missing''])]"

definition ex_abc :: LXCStack where
  "ex_abc = stack_of [(''c'', template_service [''a'', ''b'']),
                      (''a'', template_service []), (''b'', template_service [])]"

definition ex_ab :: LXCStack where
  "ex_ab = stack_of [(''a'', template_service []), (''b'', template_service [])]"

definition ex_ba :: LXCStack where
  "ex_ba = stack_of [(''b'', template_service []), (''a'', template_service [])]"

definition resources_of :: "int \<Rightarrow> int \<Rightarrow> int \<Rightarrow> Resources" where
  "resources_of cores memory swap =
     \<lparr>Cores = cores, CPULimit = 0, CPUUnits = 0, Memory = memory, Swap = swap,
      RootFS = 0, NetRate = 0\<rparr>"

definition stack_with_defaults :: "Resources \<Rightarrow> LXCStack" where
  "stack_with_defaults d =
     (stack_of [])\<lparr>stack_Settings := Some \<lparr>DefaultResources = Some d, Proxmox = None\<rparr>\<rparr>"

definition service_with :: "Resources \<Rightarrow> Service" where
  "service_with r = (template_service [])\<lparr>Resources := Some r\<rparr>"

subsection \<open>Example manifests, configurations and worlds\<close>

definition step_of :: "string \<Rightarrow> string \<Rightarrow> SetupStep" where
  "step_of run workdir = \<lparr>Run = run, Copy = None, Env = None, WorkDir = workdir\<rparr>"

definition lxcfile_of :: "SetupStep list \<Rightarrow> SetupStep list \<Rightarrow> LXCfile" where
  "lxcfile_of setup cleanup =
     \<lparr>From = ''ubuntu:22.04'', lxcfile_Metadata = None, lxcfile_Features = None,
      lxcfile_Resources = None, Setup = setup, Mounts = [], Ports = [],
      lxcfile_Health = None, Cleanup = cleanup\<rparr>"

definition ex_workdir :: LXCfile where
  "ex_workdir = lxcfile_of [step_of [] ''/opt/app''] []"

definition ex_orchestrator :: Orchestrator where
  "ex_orchestrator = runner_New None"

text \<open>
  A world in which the files exist, the clock counts the events, the loader returns the
  given stack, and the answer to a \<open>pct\<close> command is the given function.
\<close>

definition ascii_runes :: "string \<Rightarrow> int list" where
  "ascii_runes s = map (\<lambda>c. int (of_char c)) s"

definition is_number :: "string \<Rightarrow> bool" where
  "is_number s = (s \<noteq> [] \<and> list_all (\<lambda>c. c \<in> set ''0123456789'') s)"

definition env_of :: "(event list \<Rightarrow> string list \<Rightarrow> string option) \<Rightarrow> LXCStack \<Rightarrow> env" where
  "env_of answer stack =
     \<lparr>pct_result = answer, not_exist = (\<lambda>tr path. False), clock = (\<lambda>tr. int (length tr)),
      LoadLXCStack = (\<lambda>tr file. Inr stack), LoadLXCfile = (\<lambda>tr file. Inl ''no such file''),
      filepath_Dir = (\<lambda>path. ''/''), filepath_Join = (\<lambda>dir file. dir @ ''/'' @ file),
      Atoi_ok = is_number, runes = ascii_runes\<rparr>"

text \<open>The commands that hold the given word fail; every other command succeeds.\<close>

definition fails_for :: "string \<Rightarrow> event list \<Rightarrow> string list \<Rightarrow> string option" where
  "fails_for word tr args = (if word \<in> set args then Some ''exit status 1'' else None)"

definition all_succeed :: "event list \<Rightarrow> string list \<Rightarrow> string option" where
  "all_succeed tr args = None"

text \<open>
  Three setup steps, the second of which runs \<open>false\<close>; a manifest with two cleanup
  steps, the first of which runs \<open>false\<close>; and a manifest whose only step has no action.
\<close>

definition ex_three_steps :: LXCfile where
  "ex_three_steps =
     lxcfile_of [step_of ''apt-get update'' [], step_of ''false'' [], step_of ''echo done'' []] []"

definition ex_cleanup_fails :: LXCfile where
  "ex_cleanup_fails =
     lxcfile_of [step_of ''apt-get update'' []] [step_of ''false'' [], step_of ''apt-get clean'' []]"

definition ex_no_action :: LXCfile where
  "ex_no_action = lxcfile_of [step_of [] []] []"

definition ex_builder :: Config where
  "ex_builder = New None"

definition ex_dry_builder :: Config where
  "ex_dry_builder = (New None)\<lparr>DryRun := True\<rparr>"

definition ex_env_false_fails :: env where
  "ex_env_false_fails = env_of (fails_for ''false'') ex_web_db"

definition ex_env_create_fails :: env where
  "ex_env_create_fails = env_of (fails_for ''create'') ex_web_db"

definition ex_env_export_fails :: env where
  "ex_env_export_fails = env_of (fails_for ''template'') ex_web_db"

definition ex_created :: "event list" where
  "ex_created =
     [Now, Now,
      Log Info ''Creating temporary container %d from template: %s'' [D 10000, S ''ubuntu:22.04''],
      Exec [''create'', ''10000'', ''ubuntu:22.04'', ''--hostname'', ''pxc-build-10000'',
            ''--memory'', ''512'', ''--cores'', ''1'', ''--unprivileged'', ''1'',
            ''--storage'', ''local-lvm'']]"

definition ex_started :: "event list" where
  "ex_started =
     ex_created @
     [Log Info ''Starting container %d'' [D 10000],
      Exec [''start'', ''10000''],
      Log Info ''Waiting for container %d to be ready...'' [D 10000],
      Exec [''exec'', ''10000'', ''--'', ''echo'', ''ready'']]"

definition run_events :: "string \<Rightarrow> string \<Rightarrow> event list" where
  "run_events stepName command =
     [Log Info ''%s: Running command'' [S stepName],
      Exec [''exec'', ''10000'', ''--'', ''sh'', ''-c'', command]]"

definition ex_result :: "string list \<Rightarrow> BuildResult" where
  "ex_result steps = (initial_result ''web:latest'' 10000)\<lparr>ExecutedSteps := steps\<rparr>"

text \<open>
  The traces of the example builds: the start of a dry run, the failure of the second
  setup step, what the finalizer appends, the way to the cleanup steps and through them,
  three setup steps that succeed, and the stop and export phases.
\<close>

definition ex_dry_started :: "event list" where
  "ex_dry_started =
     [Now, Now,
      Log Info ''Creating temporary container %d from template: %s'' [D 10000, S ''ubuntu:22.04''],
      Log Info ''DRY RUN: Would create container %d'' [D 10000],
      Log Info ''Starting container %d'' [D 10000]]"

definition ex_step2_failed :: "event list" where
  "ex_step2_failed =
     ex_started @ run_events ''Step 1'' ''apt-get update'' @ run_events ''Step 2'' ''false''"

definition ex_finalizer :: "event list" where
  "ex_finalizer =
     [Log Info ''Cleaning up temporary container %d'' [D 10000],
      Exec [''stop'', ''10000''], Exec [''destroy'', ''10000'']]"

definition ex_configured :: "event list" where
  "ex_configured =
     ex_started @ run_events ''Step 1'' ''apt-get update'' @
     [Log Info ''Applying container configuration'' []]"

definition ex_cleanup_warning :: event where
  "ex_cleanup_warning =
     Log Warning ''Cleanup step failed (continuing): %v'' [BE (ExecError ''exit status 1'')]"

definition ex_cleaned :: "event list" where
  "ex_cleaned =
     ex_configured @ run_events ''Cleanup 1'' ''false'' @ [ex_cleanup_warning] @
     run_events ''Cleanup 2'' ''apt-get clean''"

definition ex_three_done :: "event list" where
  "ex_three_done =
     ex_started @ run_events ''Step 1'' ''apt-get update'' @ run_events ''Step 2'' ''false'' @
     run_events ''Step 3'' ''echo done'' @
     [Log Info ''Applying container configuration'' []]"

definition stop_events :: "event list" where
  "stop_events = [Log Info ''Stopping container %d'' [D 10000], Exec [''stop'', ''10000'']]"

definition export_events :: "event list" where
  "export_events =
     [Log Info ''Converting container to template: %s'' [S ''web:latest''],
      Exec [''template'', ''10000'']]"

text \<open>A service that is built from a directory, and a stack that holds one.\<close>

definition build_service :: "string \<Rightarrow> string list \<Rightarrow> Service" where
  "build_service context' deps = zero_Service\<lparr>Build := Some (YString context'), DependsOn := deps\<rparr>"

definition ex_abc_build :: LXCStack where
  "ex_abc_build = stack_of [(''c'', template_service [''a'', ''b'']),
                      (''a'', template_service []), (''b'', build_service ''./b'' [])]"

text \<open>The given command fails; every other command succeeds.\<close>

definition fails_exactly :: "string list \<Rightarrow> event list \<Rightarrow> string list \<Rightarrow> string option" where
  "fails_exactly command tr args = (if args = command then Some ''exit status 1'' else None)"

definition ex_env_a_fails :: env where
  "ex_env_a_fails = env_of (fails_for ''pxc-project-a'') ex_abc"

definition ex_env_b_start_fails :: env where
  "ex_env_b_start_fails = env_of (fails_exactly [''start'', ''443'']) ex_abc"

definition ex_env_b_create_fails :: env where
  "ex_env_b_create_fails = env_of (fails_for ''pxc-project-b'') ex_abc"

definition ex_env_b_build_fails :: env where
  "ex_env_b_build_fails =
     (env_of (fails_for ''false'') ex_abc_build)\<lparr>LoadLXCfile := (\<lambda>tr file. Inr ex_three_steps)\<rparr>"

text \<open>
  The traces and the result of the runs of \<open>Up\<close> on the stack of \<open>a\<close>, \<open>b\<close> and \<open>c\<close>
  in which the service \<open>b\<close> fails.
\<close>

definition ex_deploy_start :: "event list" where
  "ex_deploy_start =
     [Now, Log Info ''Loading stack configuration: %s'' [S ''lxc-stack.yml''],
      Load ''lxc-stack.yml'',
      Log Info ''Deploying stack: %s'' [S ''pxc-project''],
      Log Info ''Service startup order: %s'' [S ''a -> b -> c'']]"

definition ex_a_deployed :: "event list" where
  "ex_a_deployed =
     ex_deploy_start @
     [Log Info ''Deploying service: %s'' [S ''a''],
      Exec [''create'', ''442'', ''ubuntu-22.04'', ''--hostname'', ''pxc-project-a'',
            ''--net0'', ''name=eth0,bridge=vmbr0,ip=dhcp,type=veth''],
      Now, Exec [''start'', ''442''], Now,
      Log Success ''Service %s deployed successfully (container %d)'' [S ''a'', D 442]]"

definition ex_a_running :: DeploymentResult where
  "ex_a_running =
     empty_result\<lparr>dr_Services :=
       [\<lparr>Name = ''a'', sr_ContainerID = 442, Status = ''running'', BuildTime = 0,
         StartTime = 2, Error = None\<rparr>]\<rparr>"

definition ex_b_begun :: "event list" where
  "ex_b_begun = ex_a_deployed @ [Log Info ''Deploying service: %s'' [S ''b'']]"

definition ex_b_created :: "event list" where
  "ex_b_created =
     ex_b_begun @
     [Exec [''create'', ''443'', ''ubuntu-22.04'', ''--hostname'', ''pxc-project-b'',
            ''--net0'', ''name=eth0,bridge=vmbr0,ip=dhcp,type=veth'']]"

definition ex_b_build :: "event list" where
  "ex_b_build =
     ex_b_begun @
     [Load ''./b/LXCfile.yml'', Log Info ''Building template for service %s'' [S ''b''],
      Now, Now, Now,
      Log Info ''Creating temporary container %d from template: %s''
        [D 10000, S ''ubuntu:22.04''],
      Exec [''create'', ''10000'', ''ubuntu:22.04'', ''--hostname'', ''pxc-build-10000'',
            ''--memory'', ''512'', ''--cores'', ''1'', ''--unprivileged'', ''1'',
            ''--storage'', ''local-lvm''],
      Log Info ''Starting container %d'' [D 10000],
      Exec [''start'', ''10000''],
      Log Info ''Waiting for container %d to be ready...'' [D 10000],
      Exec [''exec'', ''10000'', ''--'', ''echo'', ''ready''],
      Log Info ''%s: Running command'' [S ''Step 1''],
      Exec [''exec'', ''10000'', ''--'', ''sh'', ''-c'', ''apt-get update''],
      Log Info ''%s: Running command'' [S ''Step 2''],
      Exec [''exec'', ''10000'', ''--'', ''sh'', ''-c'', ''false''],
      Log Info ''Cleaning up temporary container %d'' [D 10000],
      Exec [''stop'', ''10000''], Exec [''destroy'', ''10000'']]"

section \<open>The dependency resolver\<close>

lemma dep_edges_lookup:
  "(a, b) \<in> dep_edges svcs \<longleftrightarrow> b \<in> set (DependsOn (lookup_service svcs a))"
  by (auto simp: dep_edges_def lookup_service_def zero_Service_def split: option.splits)

lemma appears_before_append:
  "appears_before b a xs \<Longrightarrow> appears_before b a (xs @ ys)"
  by (auto simp: appears_before_def takeWhile_append1)

lemma appears_before_last:
  "b \<in> set xs \<Longrightarrow> a \<notin> set xs \<Longrightarrow> appears_before b a (xs @ [a])"
proof -
  assume b: "b \<in> set xs" and a: "a \<notin> set xs"
  have "takeWhile (\<lambda>x. x \<noteq> a) (xs @ [a]) = xs @ takeWhile (\<lambda>x. x \<noteq> a) [a]"
    using a by (intro takeWhile_append2) auto
  then show ?thesis using b by (simp add: appears_before_def)
qed

lemma length_takeWhile_less:
  "\<exists>x\<in>set xs. \<not> P x \<Longrightarrow> length (takeWhile P xs) < length xs"
  by (induction xs) auto

lemma appears_before_pos:
  assumes "appears_before b a xs"
  shows "length (takeWhile (\<lambda>x. x \<noteq> b) xs) < length (takeWhile (\<lambda>x. x \<noteq> a) xs)"
proof -
  let ?p = "takeWhile (\<lambda>x. x \<noteq> a) xs"
  have b: "b \<in> set ?p" using assms by (simp add: appears_before_def)
  have "xs = ?p @ dropWhile (\<lambda>x. x \<noteq> a) xs" by simp
  then have "takeWhile (\<lambda>x. x \<noteq> b) xs = takeWhile (\<lambda>x. x \<noteq> b) (?p @ dropWhile (\<lambda>x. x \<noteq> a) xs)"
    by simp
  also have "\<dots> = takeWhile (\<lambda>x. x \<noteq> b) ?p"
    using b by (intro takeWhile_append1) auto
  finally have "length (takeWhile (\<lambda>x. x \<noteq> b) xs) = length (takeWhile (\<lambda>x. x \<noteq> b) ?p)"
    by simp
  also have "\<dots> < length ?p"
    using b by (intro length_takeWhile_less) auto
  finally show ?thesis .
qed

lemma extends_refl: "extends st st"
  by (simp add: extends_def)

lemma extends_trans: "extends st st1 \<Longrightarrow> extends st1 st2 \<Longrightarrow> extends st st2"
  by (auto simp: extends_def)

lemma visit_step:
  assumes nv: "\<not> visiting st n" and nd: "\<not> visited st n"
    and inv: "order_inv svcs st"
    and inv2: "order_inv svcs st2"
    and ext: "extends (st\<lparr>visiting := (visiting st)(n := True)\<rparr>) st2"
    and deps: "\<forall>d\<in>set (DependsOn (lookup_service svcs n)). visited st2 d"
  defines "st' \<equiv> st2\<lparr>visiting := (visiting st2)(n := False),
                      visited := (visited st2)(n := True),
                      order := order st2 @ [n]\<rparr>"
  shows "order_inv svcs st' \<and> visited st' n \<and> extends st st'"
proof -
  from ext obtain new where
    vis: "visiting st2 = (visiting st)(n := True)"
    and ord: "order st2 = order st @ new"
    and new: "\<forall>x\<in>set new. x \<noteq> n \<and> \<not> visiting st x"
    by (auto simp: extends_def split: if_splits)
  have n_old: "n \<notin> set (order st)" using inv nd by (simp add: order_inv_def)
  have n_new: "n \<notin> set new" using new by auto
  have n2: "n \<notin> set (order st2)" using n_old n_new ord by simp
  have "visiting st' = visiting st"
    using vis nv by (simp add: st'_def fun_eq_iff)
  moreover have "order st' = order st @ (new @ [n])" by (simp add: st'_def ord)
  moreover have "\<forall>x\<in>set (new @ [n]). \<not> visiting st x" using new nv by auto
  ultimately have e: "extends st st'" unfolding extends_def by blast
  have i1: "\<forall>m. visited st' m = (m \<in> set (order st'))"
    using inv2 by (auto simp: st'_def order_inv_def)
  have i2: "distinct (order st')"
    using inv2 n2 by (simp add: st'_def order_inv_def)
  have i3: "appears_before b a (order st')"
    if a: "a \<in> set (order st')" and b: "b \<in> set (DependsOn (lookup_service svcs a))" for a b
  proof (cases "a = n")
    case True
    then have "visited st2 b" using deps b by simp
    then have "b \<in> set (order st2)" using inv2 by (simp add: order_inv_def)
    then show ?thesis using n2 True by (simp add: st'_def appears_before_last)
  next
    case False
    then have "a \<in> set (order st2)" using a by (simp add: st'_def)
    then have "appears_before b a (order st2)" using inv2 b by (simp add: order_inv_def)
    then show ?thesis by (simp add: st'_def appears_before_append)
  qed
  have "order_inv svcs st'" unfolding order_inv_def using i1 i2 i3 by blast
  moreover have "visited st' n" by (simp add: st'_def)
  ultimately show ?thesis using e by simp
qed

lemma visit_order_inv:
  "visit svcs n st = Inr st' \<Longrightarrow> order_inv svcs st
     \<Longrightarrow> order_inv svcs st' \<and> visited st' n \<and> extends st st'"
  "visit_deps svcs ds st = Inr st' \<Longrightarrow> order_inv svcs st
     \<Longrightarrow> order_inv svcs st' \<and> (\<forall>d\<in>set ds. visited st' d) \<and> extends st st'"
proof (induction svcs n st and svcs ds st arbitrary: st' and st' rule: visit_visit_deps.induct)
  case (1 svcs serviceName st)
  note eq = visit.simps[of svcs serviceName st]
  let ?st1 = "st\<lparr>visiting := (visiting st)(serviceName := True)\<rparr>"
  have nv: "\<not> visiting st serviceName" using 1(2) eq by (auto split: if_splits)
  show ?case
  proof (cases "visited st serviceName")
    case True
    then have "st' = st" using 1(2) eq nv by simp
    then show ?thesis using True 1(3) by (simp add: extends_refl)
  next
    case nd: False
    show ?thesis
    proof (cases "visit_deps svcs (DependsOn (lookup_service svcs serviceName)) ?st1")
      case (Inl e)
      with 1(2) eq nv nd show ?thesis by simp
    next
      case (Inr st2)
      have inv1: "order_inv svcs ?st1" using 1(3) by (simp add: order_inv_def)
      have ih: "order_inv svcs st2 \<and>
                (\<forall>d\<in>set (DependsOn (lookup_service svcs serviceName)). visited st2 d) \<and>
                extends ?st1 st2"
        by (rule 1(1)[OF nv nd Inr inv1])
      have st': "st' = st2\<lparr>visiting := (visiting st2)(serviceName := False),
                      visited := (visited st2)(serviceName := True),
                      order := order st2 @ [serviceName]\<rparr>"
        using 1(2) eq nv nd Inr by simp
      show ?thesis unfolding st'
        using visit_step[OF nv nd 1(3)] ih by blast
    qed
  qed
next
  case (2 svcs st)
  then show ?case by (simp add: extends_refl)
next
  case (3 svcs dep deps st)
  show ?case
  proof (cases "visit svcs dep st")
    case (Inl e)
    with 3(3) show ?thesis by simp
  next
    case (Inr st1)
    then have r: "visit_deps svcs deps st1 = Inr st'" using 3(3) by simp
    have a: "order_inv svcs st1 \<and> visited st1 dep \<and> extends st st1"
      by (rule 3(1)[OF Inr 3(4)])
    then have inv1: "order_inv svcs st1" by simp
    have b: "order_inv svcs st' \<and> (\<forall>d\<in>set deps. visited st' d) \<and> extends st1 st'"
      by (rule 3(2)[OF Inr r inv1])
    have "dep \<in> set (order st1)" using a by (auto simp: order_inv_def)
    then have "dep \<in> set (order st')" using b by (auto simp: extends_def)
    then have "visited st' dep" using b by (auto simp: order_inv_def)
    then show ?thesis using a b extends_trans by auto
  qed
qed


lemma visit_visiting:
  "visit svcs n st = Inr st' \<Longrightarrow> visiting st' = visiting st"
  "visit_deps svcs ds st = Inr st' \<Longrightarrow> visiting st' = visiting st"
proof (induction svcs n st and svcs ds st arbitrary: st' and st' rule: visit_visit_deps.induct)
  case (1 svcs serviceName st)
  note eq = visit.simps[of svcs serviceName st]
  let ?st1 = "st\<lparr>visiting := (visiting st)(serviceName := True)\<rparr>"
  have nv: "\<not> visiting st serviceName" using 1(2) eq by (auto split: if_splits)
  show ?case
  proof (cases "visited st serviceName")
    case True
    then show ?thesis using 1(2) eq nv by simp
  next
    case nd: False
    show ?thesis
    proof (cases "visit_deps svcs (DependsOn (lookup_service svcs serviceName)) ?st1")
      case (Inl e)
      with 1(2) eq nv nd show ?thesis by simp
    next
      case (Inr st2)
      have "visiting st2 = visiting ?st1" by (rule 1(1)[OF nv nd Inr])
      then have a: "visiting st2 = (visiting st)(serviceName := True)" by simp
      have b: "visiting st' = (visiting st2)(serviceName := False)"
        using 1(2) eq nv nd Inr by auto
      have "(visiting st)(serviceName := False) = visiting st"
        using nv by (simp add: fun_eq_iff)
      then show ?thesis by (simp add: a b)
    qed
  qed
next
  case (2 svcs st)
  then show ?case by simp
next
  case (3 svcs dep deps st)
  show ?case
  proof (cases "visit svcs dep st")
    case (Inl e)
    with 3(3) show ?thesis by simp
  next
    case (Inr st1)
    then have r: "visit_deps svcs deps st1 = Inr st'" using 3(3) by simp
    have "visiting st1 = visiting st" by (rule 3(1)[OF Inr])
    moreover have "visiting st' = visiting st1" by (rule 3(2)[OF Inr r])
    ultimately show ?thesis by simp
  qed
qed

text \<open>An error of the traversal names a service that lies on a cycle.\<close>

lemma visit_error_cycle:
  "visit svcs n st = Inl e \<Longrightarrow> \<forall>v. visiting st v \<longrightarrow> (v, n) \<in> (dep_edges svcs)\<^sup>+
     \<Longrightarrow> \<exists>x. e = CircularDependency x \<and> (x, x) \<in> (dep_edges svcs)\<^sup>+"
  "visit_deps svcs ds st = Inl e
     \<Longrightarrow> \<forall>d\<in>set ds. \<forall>v. visiting st v \<longrightarrow> (v, d) \<in> (dep_edges svcs)\<^sup>+
     \<Longrightarrow> \<exists>x. e = CircularDependency x \<and> (x, x) \<in> (dep_edges svcs)\<^sup>+"
proof (induction svcs n st and svcs ds st arbitrary: e and e rule: visit_visit_deps.induct)
  case (1 svcs serviceName st)
  note eq = visit.simps[of svcs serviceName st]
  let ?st1 = "st\<lparr>visiting := (visiting st)(serviceName := True)\<rparr>"
  show ?case
  proof (cases "visiting st serviceName")
    case True
    then have "e = CircularDependency serviceName" using 1(2) eq by simp
    moreover have "(serviceName, serviceName) \<in> (dep_edges svcs)\<^sup>+" using True 1(3) by simp
    ultimately show ?thesis by blast
  next
    case nv: False
    have nd: "\<not> visited st serviceName" using 1(2) eq nv by (auto split: if_splits)
    have r: "visit_deps svcs (DependsOn (lookup_service svcs serviceName)) ?st1 = Inl e"
      using 1(2) eq nv nd by (simp split: sum.splits)
    have pre: "\<forall>d\<in>set (DependsOn (lookup_service svcs serviceName)).
                 \<forall>v. visiting ?st1 v \<longrightarrow> (v, d) \<in> (dep_edges svcs)\<^sup>+"
    proof (intro ballI allI impI)
      fix d v
      assume d: "d \<in> set (DependsOn (lookup_service svcs serviceName))"
        and v: "visiting ?st1 v"
      have edge: "(serviceName, d) \<in> dep_edges svcs" using d by (simp add: dep_edges_lookup)
      show "(v, d) \<in> (dep_edges svcs)\<^sup>+"
      proof (cases "v = serviceName")
        case True
        then show ?thesis using edge by blast
      next
        case False
        then have "visiting st v" using v by simp
        then have "(v, serviceName) \<in> (dep_edges svcs)\<^sup>+" using 1(3) by simp
        then show ?thesis using edge by (rule trancl_into_trancl)
      qed
    qed
    show ?thesis by (rule 1(1)[OF nv nd r pre])
  qed
next
  case (2 svcs st)
  then show ?case by simp
next
  case (3 svcs dep deps st)
  show ?case
  proof (cases "visit svcs dep st")
    case (Inl e1)
    then have "e1 = e" using 3(3) by simp
    then have r: "visit svcs dep st = Inl e" using Inl by simp
    have "\<forall>v. visiting st v \<longrightarrow> (v, dep) \<in> (dep_edges svcs)\<^sup>+" using 3(4) by simp
    then show ?thesis by (rule 3(1)[OF r])
  next
    case (Inr st1)
    then have r: "visit_deps svcs deps st1 = Inl e" using 3(3) by simp
    have "visiting st1 = visiting st"
      by (rule visit_visiting(1)[OF Inr])
    then have "\<forall>d\<in>set deps. \<forall>v. visiting st1 v \<longrightarrow> (v, d) \<in> (dep_edges svcs)\<^sup>+"
      using 3(4) by simp
    then show ?thesis by (rule 3(2)[OF Inr r])
  qed
qed


lemma visit_names:
  "visit svcs n st = Inr st'
     \<Longrightarrow> set (order st') \<subseteq> set (order st) \<union> insert n (Range (dep_edges svcs))"
  "visit_deps svcs ds st = Inr st'
     \<Longrightarrow> set (order st') \<subseteq> set (order st) \<union> set ds \<union> Range (dep_edges svcs)"
proof (induction svcs n st and svcs ds st arbitrary: st' and st' rule: visit_visit_deps.induct)
  case (1 svcs serviceName st)
  note eq = visit.simps[of svcs serviceName st]
  let ?st1 = "st\<lparr>visiting := (visiting st)(serviceName := True)\<rparr>"
  have nv: "\<not> visiting st serviceName" using 1(2) eq by (auto split: if_splits)
  show ?case
  proof (cases "visited st serviceName")
    case True
    then have "st' = st" using 1(2) eq nv by simp
    then show ?thesis by auto
  next
    case nd: False
    show ?thesis
    proof (cases "visit_deps svcs (DependsOn (lookup_service svcs serviceName)) ?st1")
      case (Inl e)
      with 1(2) eq nv nd show ?thesis by simp
    next
      case (Inr st2)
      have ih: "set (order st2) \<subseteq> set (order ?st1)
                  \<union> set (DependsOn (lookup_service svcs serviceName)) \<union> Range (dep_edges svcs)"
        by (rule 1(1)[OF nv nd Inr])
      have "set (DependsOn (lookup_service svcs serviceName)) \<subseteq> Range (dep_edges svcs)"
        using dep_edges_lookup[of serviceName _ svcs] by blast
      then have a: "set (order st2) \<subseteq> set (order st) \<union> Range (dep_edges svcs)"
        using ih by auto
      have "order st' = order st2 @ [serviceName]"
        using 1(2) eq nv nd Inr by auto
      then show ?thesis using a by auto
    qed
  qed
next
  case (2 svcs st)
  then show ?case by auto
next
  case (3 svcs dep deps st)
  show ?case
  proof (cases "visit svcs dep st")
    case (Inl e)
    with 3(3) show ?thesis by simp
  next
    case (Inr st1)
    then have r: "visit_deps svcs deps st1 = Inr st'" using 3(3) by simp
    have a: "set (order st1) \<subseteq> set (order st) \<union> insert dep (Range (dep_edges svcs))"
      by (rule 3(1)[OF Inr])
    have b: "set (order st') \<subseteq> set (order st1) \<union> set deps \<union> Range (dep_edges svcs)"
      by (rule 3(2)[OF Inr r])
    show ?thesis using a b by auto
  qed
qed

lemma visit_services_eq: "visit_services svcs ns st = visit_deps svcs ns st"
  by (induction ns arbitrary: st) (simp_all split: sum.splits)

lemma order_inv_initial: "order_inv svcs initial_visit_state"
  by (simp add: order_inv_def initial_visit_state_def)

text \<open>In a closed, sorted sequence the position falls along every path of the graph.\<close>

lemma path_positions:
  assumes closed: "\<forall>a\<in>set ord. \<forall>b. (a, b) \<in> E \<longrightarrow> appears_before b a ord"
    and path: "(a, b) \<in> E\<^sup>+" and a: "a \<in> set ord"
  shows "b \<in> set ord \<and> length (takeWhile (\<lambda>x. x \<noteq> b) ord) < length (takeWhile (\<lambda>x. x \<noteq> a) ord)"
  using path
proof (induction rule: trancl_induct)
  case (base y)
  then have ab: "appears_before y a ord" using closed a by blast
  then have "y \<in> set ord" by (auto simp: appears_before_def dest: set_takeWhileD)
  then show ?case using appears_before_pos[OF ab] by simp
next
  case (step y z)
  then have ab: "appears_before z y ord" using closed by blast
  then have "z \<in> set ord" by (auto simp: appears_before_def dest: set_takeWhileD)
  then show ?case using appears_before_pos[OF ab] step.IH by simp
qed

lemma resolver_success:
  assumes "GetServiceDependencyOrder s = Inr ord"
  shows "distinct ord \<and> fst ` set (Services s) \<subseteq> set ord \<and>
         set ord \<subseteq> fst ` set (Services s) \<union> Range (dep_edges (Services s)) \<and>
         (\<forall>a\<in>set ord. \<forall>b. (a, b) \<in> dep_edges (Services s) \<longrightarrow> appears_before b a ord)"
proof -
  let ?svcs = "Services s"
  from assms obtain st where
    run: "visit_deps ?svcs (map fst ?svcs) initial_visit_state = Inr st"
    and ord: "ord = order st"
    by (auto simp: GetServiceDependencyOrder_def visit_services_eq split: sum.splits)
  have inv: "order_inv ?svcs st \<and> (\<forall>d\<in>set (map fst ?svcs). visited st d)
               \<and> extends initial_visit_state st"
    by (rule visit_order_inv(2)[OF run order_inv_initial])
  have names: "set (order st) \<subseteq> set (order initial_visit_state) \<union> set (map fst ?svcs)
                 \<union> Range (dep_edges ?svcs)"
    by (rule visit_names(2)[OF run])
  have "distinct ord" using inv ord by (simp add: order_inv_def)
  moreover have "fst ` set ?svcs \<subseteq> set ord" using inv ord by (auto simp: order_inv_def)
  moreover have "set ord \<subseteq> fst ` set ?svcs \<union> Range (dep_edges ?svcs)"
    using names ord by (simp add: initial_visit_state_def)
  moreover have "\<forall>a\<in>set ord. \<forall>b. (a, b) \<in> dep_edges ?svcs \<longrightarrow> appears_before b a ord"
    using inv ord by (simp add: order_inv_def dep_edges_lookup)
  ultimately show ?thesis by blast
qed

lemma resolver_error:
  assumes "GetServiceDependencyOrder s = Inl e"
  shows "\<exists>x. e = CircularDependency x \<and> (x, x) \<in> (dep_edges (Services s))\<^sup>+"
proof -
  let ?svcs = "Services s"
  from assms have run: "visit_deps ?svcs (map fst ?svcs) initial_visit_state = Inl e"
    by (auto simp: GetServiceDependencyOrder_def visit_services_eq split: sum.splits)
  have "\<forall>d\<in>set (map fst ?svcs). \<forall>v. visiting initial_visit_state v
          \<longrightarrow> (v, d) \<in> (dep_edges ?svcs)\<^sup>+"
    by (simp add: initial_visit_state_def)
  then show ?thesis by (rule visit_error_cycle(2)[OF run])
qed

lemma dep_edges_source: "(a, b) \<in> dep_edges svcs \<Longrightarrow> a \<in> fst ` set svcs"
  by (auto simp: dep_edges_def dest!: map_of_SomeD intro: rev_image_eqI)

lemmas eval_stack_defs =
  GetServiceDependencyOrder_def initial_visit_state_def visit.simps lookup_service_def
  zero_Service_def template_service_def stack_of_def

text \<open>
  C1. When every \<open>DependsOn\<close> entry names a service of the map and the dependency graph
  has no cycle, \<open>GetServiceDependencyOrder\<close> succeeds; the order holds every service name
  exactly once, and each dependency in front of the service that depends on it.
\<close>

theorem dependency_order_correct:
  assumes defined: "Range (dep_edges (Services s)) \<subseteq> fst ` set (Services s)"
    and acyclic: "acyclic (dep_edges (Services s))"
  shows "\<exists>ord. GetServiceDependencyOrder s = Inr ord \<and> distinct ord \<and>
           set ord = fst ` set (Services s) \<and>
           (\<forall>a b. (a, b) \<in> dep_edges (Services s) \<longrightarrow> appears_before b a ord)"
proof (cases "GetServiceDependencyOrder s")
  case (Inl e)
  then have "\<exists>x. (x, x) \<in> (dep_edges (Services s))\<^sup>+" using resolver_error by blast
  then show ?thesis using acyclic by (simp add: acyclic_def)
next
  case (Inr ord)
  note r = resolver_success[OF Inr]
  have "set ord = fst ` set (Services s)" using r defined by blast
  moreover have "appears_before b a ord" if "(a, b) \<in> dep_edges (Services s)" for a b
    using that r dep_edges_source[OF that] by blast
  ultimately show ?thesis using Inr r by blast
qed

lemma ex_web_db_edges: "dep_edges (Services ex_web_db) = {(''web'', ''db'')}"
  by (auto simp: dep_edges_def ex_web_db_def template_service_def stack_of_def zero_Service_def
      split: if_splits)

theorem dependency_order_correct_witness:
  "Range (dep_edges (Services ex_web_db)) \<subseteq> fst ` set (Services ex_web_db) \<and>
   acyclic (dep_edges (Services ex_web_db)) \<and>
   GetServiceDependencyOrder ex_web_db = Inr [''db'', ''web''] \<and>
   distinct [''db'', ''web''] \<and>
   set [''db'', ''web''] = fst ` set (Services ex_web_db) \<and>
   appears_before ''db'' ''web'' [''db'', ''web'']"
proof -
  have h1: "Range (dep_edges (Services ex_web_db)) \<subseteq> fst ` set (Services ex_web_db)"
    by (simp add: ex_web_db_edges) (simp add: ex_web_db_def stack_of_def)
  have "acyclic ({} :: (string \<times> string) set)"
    by (simp add: acyclic_def)
  then have h2: "acyclic (dep_edges (Services ex_web_db))"
    by (simp add: ex_web_db_edges acyclic_insert)
  have h3: "GetServiceDependencyOrder ex_web_db = Inr [''db'', ''web'']"
    by (simp add: ex_web_db_def eval_stack_defs)
  from dependency_order_correct[OF h1 h2] obtain ord where
    ord: "GetServiceDependencyOrder ex_web_db = Inr ord" and d: "distinct ord"
    and k: "set ord = fst ` set (Services ex_web_db)"
    and e: "\<forall>a b. (a, b) \<in> dep_edges (Services ex_web_db) \<longrightarrow> appears_before b a ord"
    by blast
  have o: "ord = [''db'', ''web'']" using ord h3 by simp
  have "appears_before ''db'' ''web'' ord" using e by (simp add: ex_web_db_edges)
  then show ?thesis using h1 h2 h3 d k unfolding o by blast
qed

text \<open>
  C2. When the dependency graph has a cycle (a self-dependency is a cycle of length one),
  \<open>GetServiceDependencyOrder\<close> returns the circular-dependency error and no order; the
  service the error names lies on a cycle.
\<close>

theorem cycle_detected:
  assumes cyc: "\<not> acyclic (dep_edges (Services s))"
  shows "\<exists>x. GetServiceDependencyOrder s = Inl (CircularDependency x) \<and>
           (x, x) \<in> (dep_edges (Services s))\<^sup>+"
proof (cases "GetServiceDependencyOrder s")
  case (Inl e)
  then show ?thesis using resolver_error by blast
next
  case (Inr ord)
  note r = resolver_success[OF Inr]
  from cyc obtain x where x: "(x, x) \<in> (dep_edges (Services s))\<^sup>+"
    unfolding acyclic_def by blast
  from tranclD[OF x] obtain y where "(x, y) \<in> dep_edges (Services s)" by blast
  then have "x \<in> fst ` set (Services s)" by (rule dep_edges_source)
  then have xin: "x \<in> set ord" using r by blast
  have closed: "\<forall>a\<in>set ord. \<forall>b. (a, b) \<in> dep_edges (Services s) \<longrightarrow> appears_before b a ord"
    using r by blast
  have "x \<in> set ord \<and>
        length (takeWhile (\<lambda>z. z \<noteq> x) ord) < length (takeWhile (\<lambda>z. z \<noteq> x) ord)"
    by (rule path_positions[OF closed x xin])
  then show ?thesis by simp
qed

theorem cycle_detected_witness:
  "\<not> acyclic (dep_edges (Services ex_cycle)) \<and>
   GetServiceDependencyOrder ex_cycle = Inl (CircularDependency ''web'') \<and>
   (''web'', ''web'') \<in> (dep_edges (Services ex_cycle))\<^sup>+"
proof -
  have e1: "(''web'', ''api'') \<in> dep_edges (Services ex_cycle)"
    by (simp add: dep_edges_def ex_cycle_def template_service_def stack_of_def)
  have e2: "(''api'', ''web'') \<in> dep_edges (Services ex_cycle)"
    by (simp add: dep_edges_def ex_cycle_def template_service_def stack_of_def)
  have "(''web'', ''web'') \<in> (dep_edges (Services ex_cycle))\<^sup>+"
    using e1 e2 by (rule trancl_into_trancl[OF r_into_trancl])
  then have h: "\<not> acyclic (dep_edges (Services ex_cycle))"
    unfolding acyclic_def by blast
  have r: "GetServiceDependencyOrder ex_cycle = Inl (CircularDependency ''web'')"
    by (simp add: ex_cycle_def eval_stack_defs)
  from cycle_detected[OF h] obtain x where
    "GetServiceDependencyOrder ex_cycle = Inl (CircularDependency x)"
    and c: "(x, x) \<in> (dep_edges (Services ex_cycle))\<^sup>+" by blast
  then have "x = ''web''" using r by simp
  then show ?thesis using h r c by blast
qed

text \<open>
  C10. \<open>GetServiceDependencyOrder\<close> does not check that a dependency is defined: for the
  stack whose only service \<open>a\<close> depends on \<open>missing\<close>, it succeeds and puts the undefined
  name in front of \<open>a\<close>.  \<open>Validate\<close> is what rejects that stack.
\<close>

theorem undefined_dependency_reaches_order:
  "map_of (Services ex_missing) ''missing'' = None \<and>
   (''a'', ''missing'') \<in> dep_edges (Services ex_missing) \<and>
   GetServiceDependencyOrder ex_missing = Inr [''missing'', ''a''] \<and>
   appears_before ''missing'' ''a'' [''missing'', ''a''] \<and>
   Validate ex_missing = Some (ServiceInvalid ''a'' (UndefinedService ''missing''))"
proof -
  have "GetServiceDependencyOrder ex_missing = Inr [''missing'', ''a'']"
    by (simp add: ex_missing_def eval_stack_defs)
  moreover have "Validate ex_missing = Some (ServiceInvalid ''a'' (UndefinedService ''missing''))"
    by (simp add: Validate_def validateService_def HasBuild_def ex_missing_def
        template_service_def stack_of_def zero_Service_def)
  moreover have "(''a'', ''missing'') \<in> dep_edges (Services ex_missing)"
    by (simp add: dep_edges_def ex_missing_def template_service_def stack_of_def)
  ultimately show ?thesis
    by (simp add: appears_before_def ex_missing_def stack_of_def)
qed


section \<open>The build manifest and its steps\<close>

text \<open>
  C3. The claim is that a manifest accepted by \<open>LXCfile.Validate\<close> has no setup step
  that ends in the run-time error "setup step has no actions".  The manifest whose only
  setup step sets \<open>workdir\<close> is accepted by \<open>Validate\<close>, which counts \<open>workdir\<close> as an
  action, and \<open>executeSetupStep\<close>, which has no case for \<open>workdir\<close>, returns that very
  error for the step, in every configuration and world.
\<close>

theorem workdir_step_fails_at_run_time:
  "LXCfile_Validate ex_workdir = None \<and>
   Setup ex_workdir = [step_of [] ''/opt/app''] \<and>
   executeSetupStep b w containerID (step_of [] ''/opt/app'') stepName buildArgs tr
     = (Some NoActions, tr)"
  by (simp add: LXCfile_Validate_def ex_workdir_def lxcfile_of_def step_of_def
      executeSetupStep_def)

section \<open>The build pipeline\<close>

lemmas world_defs = env_of_def fails_for_def all_succeed_def ex_env_false_fails_def
  ex_env_create_fails_def ex_env_export_fails_def
lemmas config_defs = ex_builder_def ex_dry_builder_def New_def zero_Config_def
lemmas manifest_defs = ex_three_steps_def ex_cleanup_fails_def ex_workdir_def ex_no_action_def
  lxcfile_of_def step_of_def
lemmas trace_defs = ex_created_def ex_started_def run_events_def ex_result_def
  initial_result_def
lemmas builder_defs = createTempContainer_def startContainer_def stopContainer_def
  waitForContainer_def wait_loop.simps executeSetupStep_def executeRunStep_def
  executeCopyStep_def executeEnvStep_def applyContainerConfig_def exportTemplate_def
  cleanupTempContainer_def runPCTCommand_def pct_def log_def logWarning_def logError_def
  emit_def time_Now_def time_Since_def generateContainerID_def go_rem_def
  Itoa_def nat_digits.simps Let_def
lemmas phase_defs = enters_body_def enters_setup_def enters_cleanup_def enters_export_def
  allocated_id_def finalizer_events_def

subsection \<open>The finalizer and the loops\<close>

lemma deferred_cleanup_events:
  "deferred_cleanup b w containerID True tr = tr @ finalizer_events b w containerID tr"
  by (simp add: deferred_cleanup_def cleanupTempContainer_def runPCTCommand_def pct_def
      log_def logError_def emit_def finalizer_events_def Let_def split: option.splits)

lemma deferred_cleanup_off: "deferred_cleanup b w containerID False tr = tr"
  by (simp add: deferred_cleanup_def)

lemma generateContainerID_allocated:
  "generateContainerID b w (emit Now tr) = (Inr (allocated_id w tr), emit Now (emit Now tr))"
  by (simp add: generateContainerID_def time_Now_def allocated_id_def)

lemma BuildTemplate_body:
  assumes "enters_body b w lxcfile tr = Some tr4"
    and "build_body b w lxcfile templateName buildArgs (clock w tr) (allocated_id w tr)
           (initial_result templateName (allocated_id w tr)) tr4 = (ret, flag, tr5)"
  shows "BuildTemplate b w lxcfile templateName buildArgs tr
           = (ret, deferred_cleanup b w (allocated_id w tr) flag tr5)"
proof (cases "Verbose b")
  case True
  then show ?thesis using assms
    by (simp add: BuildTemplate_def enters_body_def time_Now_def generateContainerID_allocated
        initial_result_def Let_def split: prod.splits option.splits)
next
  case False
  then show ?thesis using assms
    by (simp add: BuildTemplate_def enters_body_def time_Now_def generateContainerID_allocated
        initial_result_def Let_def split: prod.splits option.splits)
qed

lemma BuildTemplate_not_created:
  assumes "enters_body b w lxcfile tr = None"
  shows "\<exists>err tr4. BuildTemplate b w lxcfile templateName buildArgs tr
           = (Inl (CreateTempFailed err), tr4) \<and>
         createTempContainer b w (allocated_id w tr) (From lxcfile)
             (if Verbose b
                then log ''Using temporary container ID: %d'' [D (allocated_id w tr)]
                       (emit Now (emit Now tr))
              else emit Now (emit Now tr)) = (Some err, tr4)"
proof (cases "Verbose b")
  case True
  then show ?thesis using assms
    by (auto simp: BuildTemplate_def enters_body_def time_Now_def generateContainerID_allocated
        Let_def split: prod.splits option.splits)
next
  case False
  then show ?thesis using assms
    by (auto simp: BuildTemplate_def enters_body_def time_Now_def generateContainerID_allocated
        Let_def split: prod.splits option.splits)
qed

lemma finalizer_events_content:
  "(DryRun b \<longrightarrow> finalizer_events b w containerID tr = []) \<and>
   (\<not> DryRun b \<longrightarrow>
      Exec [''stop'', Itoa containerID] \<in> set (finalizer_events b w containerID tr) \<and>
      Exec [''destroy'', Itoa containerID] \<in> set (finalizer_events b w containerID tr)) \<and>
   Exec [''template'', Itoa containerID] \<notin> set (finalizer_events b w containerID tr)"
  by (simp add: finalizer_events_def Let_def split: option.splits)


lemma build_body_flag:
  "build_body b w lxcfile templateName buildArgs startTime containerID result tr = (ret, flag, tr')
   \<Longrightarrow> flag = isl ret"
  by (auto simp: build_body_def time_Since_def split: prod.splits option.splits sum.splits)




lemma build_body_export:
  assumes "enters_export b w lxcfile templateName buildArgs tr = Some (result2, tr6)"
    and "exportTemplate b w (allocated_id w tr) templateName tr6 = (Inr templatePath, tr7)"
  shows "enters_body b w lxcfile tr \<noteq> None \<and>
         build_body b w lxcfile templateName buildArgs (clock w tr) (allocated_id w tr)
           (initial_result templateName (allocated_id w tr)) (the (enters_body b w lxcfile tr))
         = (Inr (result2\<lparr>TemplatePath := templatePath,
                          BuildDuration := clock w tr7 - clock w tr\<rparr>), False, emit Now tr7)"
  using assms
  by (auto simp: enters_export_def enters_cleanup_def enters_setup_def build_body_def
      time_Since_def split: option.splits prod.splits sum.splits)

lemma finalizer_cases:
  "(enters_export b w lxcfile templateName buildArgs tr = Some (result2, tr6) \<and>
    exportTemplate b w (allocated_id w tr) templateName tr6 = (Inr templatePath, tr7) \<longrightarrow>
      BuildTemplate b w lxcfile templateName buildArgs tr
        = (Inr (result2\<lparr>TemplatePath := templatePath,
                         BuildDuration := clock w tr7 - clock w tr\<rparr>), emit Now tr7)) \<and>
   (enters_body b w lxcfile tr = Some tr4 \<and>
    build_body b w lxcfile templateName buildArgs (clock w tr) (allocated_id w tr)
      (initial_result templateName (allocated_id w tr)) tr4 = (Inl err, flag, tr5) \<longrightarrow>
      BuildTemplate b w lxcfile templateName buildArgs tr
        = (Inl err, tr5 @ finalizer_events b w (allocated_id w tr) tr5)) \<and>
   (enters_body b w lxcfile tr = None \<longrightarrow>
      (\<exists>createErr tr3. BuildTemplate b w lxcfile templateName buildArgs tr
          = (Inl (CreateTempFailed createErr), tr3) \<and>
        createTempContainer b w (allocated_id w tr) (From lxcfile)
             (if Verbose b
                then log ''Using temporary container ID: %d'' [D (allocated_id w tr)]
                       (emit Now (emit Now tr))
              else emit Now (emit Now tr)) = (Some createErr, tr3)))"
proof (intro conjI impI)
  assume a: "enters_export b w lxcfile templateName buildArgs tr = Some (result2, tr6) \<and>
    exportTemplate b w (allocated_id w tr) templateName tr6 = (Inr templatePath, tr7)"
  then have e: "enters_export b w lxcfile templateName buildArgs tr = Some (result2, tr6)"
    and x: "exportTemplate b w (allocated_id w tr) templateName tr6 = (Inr templatePath, tr7)"
    by simp_all
  from build_body_export[OF e x] obtain tr4 where
    body: "enters_body b w lxcfile tr = Some tr4"
    and bb: "build_body b w lxcfile templateName buildArgs (clock w tr) (allocated_id w tr)
           (initial_result templateName (allocated_id w tr)) tr4
         = (Inr (result2\<lparr>TemplatePath := templatePath,
                          BuildDuration := clock w tr7 - clock w tr\<rparr>), False, emit Now tr7)"
    by auto
  from BuildTemplate_body[OF body bb]
  show "BuildTemplate b w lxcfile templateName buildArgs tr
        = (Inr (result2\<lparr>TemplatePath := templatePath,
                         BuildDuration := clock w tr7 - clock w tr\<rparr>), emit Now tr7)"
    by (simp add: deferred_cleanup_off)
next
  assume a: "enters_body b w lxcfile tr = Some tr4 \<and>
    build_body b w lxcfile templateName buildArgs (clock w tr) (allocated_id w tr)
      (initial_result templateName (allocated_id w tr)) tr4 = (Inl err, flag, tr5)"
  then have body: "enters_body b w lxcfile tr = Some tr4"
    and bb: "build_body b w lxcfile templateName buildArgs (clock w tr) (allocated_id w tr)
      (initial_result templateName (allocated_id w tr)) tr4 = (Inl err, flag, tr5)"
    by simp_all
  have "flag = True" using build_body_flag[OF bb] by simp
  with BuildTemplate_body[OF body bb]
  show "BuildTemplate b w lxcfile templateName buildArgs tr
        = (Inl err, tr5 @ finalizer_events b w (allocated_id w tr) tr5)"
    by (simp add: deferred_cleanup_events)
next
  assume "enters_body b w lxcfile tr = None"
  then show "\<exists>createErr tr3. BuildTemplate b w lxcfile templateName buildArgs tr
          = (Inl (CreateTempFailed createErr), tr3) \<and>
        createTempContainer b w (allocated_id w tr) (From lxcfile)
             (if Verbose b
                then log ''Using temporary container ID: %d'' [D (allocated_id w tr)]
                       (emit Now (emit Now tr))
              else emit Now (emit Now tr)) = (Some createErr, tr3)"
    by (rule BuildTemplate_not_created)
qed

lemma body_failure:
  assumes body: "enters_body b w lxcfile tr = Some tr4"
    and bb: "build_body b w lxcfile templateName buildArgs (clock w tr) (allocated_id w tr)
               (initial_result templateName (allocated_id w tr)) tr4 = (Inl err, True, tr5)"
  shows "BuildTemplate b w lxcfile templateName buildArgs tr
           = (Inl err, tr5 @ finalizer_events b w (allocated_id w tr) tr5)"
  using BuildTemplate_body[OF body bb] by (simp add: deferred_cleanup_events)

lemma enters_setup_cases:
  assumes "enters_setup b w lxcfile tr = Some tr1"
  obtains tr4 tr5 where "enters_body b w lxcfile tr = Some tr4"
    and "startContainer b w (allocated_id w tr) tr4 = (None, tr5)"
    and "waitForContainer b w (allocated_id w tr) tr5 = (None, tr1)"
  using assms by (auto simp: enters_setup_def split: option.splits prod.splits)

lemma enters_cleanup_cases:
  assumes "enters_cleanup b w lxcfile templateName buildArgs tr = Some (result1, tr4)"
  obtains tr1 tr3 where "enters_setup b w lxcfile tr = Some tr1"
    and "setup_loop b w (allocated_id w tr) buildArgs 0 (Setup lxcfile)
           (initial_result templateName (allocated_id w tr)) tr1 = (Inr result1, tr3)"
    and "applyContainerConfig b w (allocated_id w tr) lxcfile tr3 = (None, tr4)"
  using assms
  by (auto simp: enters_cleanup_def split: option.splits prod.splits sum.splits)

lemma enters_export_cases:
  assumes "enters_export b w lxcfile templateName buildArgs tr = Some (result2, tr6)"
  obtains result1 tr4 tr5 where
    "enters_cleanup b w lxcfile templateName buildArgs tr = Some (result1, tr4)"
    and "cleanup_loop b w (allocated_id w tr) buildArgs 0 (Cleanup lxcfile) result1 tr4
           = (result2, tr5)"
    and "stopContainer b w (allocated_id w tr) tr5 = (None, tr6)"
  using assms
  by (auto simp: enters_export_def split: option.splits prod.splits)

lemma start_failure:
  assumes body: "enters_body b w lxcfile tr = Some tr4"
    and start: "startContainer b w (allocated_id w tr) tr4 = (Some err, tr5)"
  shows "BuildTemplate b w lxcfile templateName buildArgs tr
           = (Inl (StartTempFailed err), tr5 @ finalizer_events b w (allocated_id w tr) tr5)"
  by (rule body_failure[OF body]) (simp add: build_body_def start)

lemma wait_failure:
  assumes body: "enters_body b w lxcfile tr = Some tr4"
    and start: "startContainer b w (allocated_id w tr) tr4 = (None, tr5)"
    and wait: "waitForContainer b w (allocated_id w tr) tr5 = (Some err, tr6)"
  shows "BuildTemplate b w lxcfile templateName buildArgs tr
           = (Inl (ContainerNotReady err), tr6 @ finalizer_events b w (allocated_id w tr) tr6)"
  by (rule body_failure[OF body]) (simp add: build_body_def start wait)

lemma steps_failure:
  assumes reach: "enters_setup b w lxcfile tr = Some tr1"
    and loop: "setup_loop b w (allocated_id w tr) buildArgs 0 (Setup lxcfile)
                 (initial_result templateName (allocated_id w tr)) tr1 = (Inl err, tr3)"
  shows "BuildTemplate b w lxcfile templateName buildArgs tr
           = (Inl err, tr3 @ finalizer_events b w (allocated_id w tr) tr3)"
proof -
  from reach obtain tr4 tr5 where body: "enters_body b w lxcfile tr = Some tr4"
    and start: "startContainer b w (allocated_id w tr) tr4 = (None, tr5)"
    and wait: "waitForContainer b w (allocated_id w tr) tr5 = (None, tr1)"
    by (rule enters_setup_cases)
  show ?thesis
    by (rule body_failure[OF body]) (simp add: build_body_def start wait loop)
qed

lemma config_failure:
  assumes reach: "enters_setup b w lxcfile tr = Some tr1"
    and loop: "setup_loop b w (allocated_id w tr) buildArgs 0 (Setup lxcfile)
                 (initial_result templateName (allocated_id w tr)) tr1 = (Inr result1, tr3)"
    and conf: "applyContainerConfig b w (allocated_id w tr) lxcfile tr3 = (Some err, tr4)"
  shows "BuildTemplate b w lxcfile templateName buildArgs tr
           = (Inl (ApplyConfigFailed err), tr4 @ finalizer_events b w (allocated_id w tr) tr4)"
proof -
  from reach obtain t4 t5 where body: "enters_body b w lxcfile tr = Some t4"
    and start: "startContainer b w (allocated_id w tr) t4 = (None, t5)"
    and wait: "waitForContainer b w (allocated_id w tr) t5 = (None, tr1)"
    by (rule enters_setup_cases)
  show ?thesis
    by (rule body_failure[OF body]) (simp add: build_body_def start wait loop conf)
qed

lemma stop_failure:
  assumes reach: "enters_cleanup b w lxcfile templateName buildArgs tr = Some (result1, tr4)"
    and loop: "cleanup_loop b w (allocated_id w tr) buildArgs 0 (Cleanup lxcfile) result1 tr4
                 = (result2, tr5)"
    and stop: "stopContainer b w (allocated_id w tr) tr5 = (Some err, tr6)"
  shows "BuildTemplate b w lxcfile templateName buildArgs tr
           = (Inl (StopFailed err), tr6 @ finalizer_events b w (allocated_id w tr) tr6)"
proof -
  from reach obtain t1 t3 where s: "enters_setup b w lxcfile tr = Some t1"
    and steps_ok: "setup_loop b w (allocated_id w tr) buildArgs 0 (Setup lxcfile)
           (initial_result templateName (allocated_id w tr)) t1 = (Inr result1, t3)"
    and conf: "applyContainerConfig b w (allocated_id w tr) lxcfile t3 = (None, tr4)"
    by (rule enters_cleanup_cases)
  from s obtain t4 t5 where body: "enters_body b w lxcfile tr = Some t4"
    and start: "startContainer b w (allocated_id w tr) t4 = (None, t5)"
    and wait: "waitForContainer b w (allocated_id w tr) t5 = (None, t1)"
    by (rule enters_setup_cases)
  show ?thesis
    by (rule body_failure[OF body])
       (simp add: build_body_def start wait steps_ok conf loop stop)
qed

lemma export_failure:
  assumes reach: "enters_export b w lxcfile templateName buildArgs tr = Some (result2, tr6)"
    and export: "exportTemplate b w (allocated_id w tr) templateName tr6 = (Inl err, tr7)"
  shows "BuildTemplate b w lxcfile templateName buildArgs tr
           = (Inl (ExportFailed err), tr7 @ finalizer_events b w (allocated_id w tr) tr7)"
proof -
  from reach obtain result1 c4 c5 where
    c: "enters_cleanup b w lxcfile templateName buildArgs tr = Some (result1, c4)"
    and loop: "cleanup_loop b w (allocated_id w tr) buildArgs 0 (Cleanup lxcfile) result1 c4
           = (result2, c5)"
    and stop: "stopContainer b w (allocated_id w tr) c5 = (None, tr6)"
    by (rule enters_export_cases)
  from c obtain t1 t3 where s: "enters_setup b w lxcfile tr = Some t1"
    and steps_ok: "setup_loop b w (allocated_id w tr) buildArgs 0 (Setup lxcfile)
           (initial_result templateName (allocated_id w tr)) t1 = (Inr result1, t3)"
    and conf: "applyContainerConfig b w (allocated_id w tr) lxcfile t3 = (None, c4)"
    by (rule enters_cleanup_cases)
  from s obtain t4 t5 where body: "enters_body b w lxcfile tr = Some t4"
    and start: "startContainer b w (allocated_id w tr) t4 = (None, t5)"
    and wait: "waitForContainer b w (allocated_id w tr) t5 = (None, t1)"
    by (rule enters_setup_cases)
  show ?thesis
    by (rule body_failure[OF body])
       (simp add: build_body_def start wait steps_ok conf loop stop export)
qed

lemma export_success:
  assumes e: "enters_export b w lxcfile templateName buildArgs tr = Some (result2, tr6)"
    and x: "exportTemplate b w (allocated_id w tr) templateName tr6 = (Inr templatePath, tr7)"
  shows "BuildTemplate b w lxcfile templateName buildArgs tr
        = (Inr (result2\<lparr>TemplatePath := templatePath,
                         BuildDuration := clock w tr7 - clock w tr\<rparr>), emit Now tr7)"
  by (rule finalizer_cases[THEN conjunct1, THEN mp, OF conjI[OF e x]])

lemma pct_extends: "pct w args tr = (r, tr') \<Longrightarrow> tr' = tr @ [Exec args]"
  by (auto simp: pct_def emit_def)

lemma env_loop_extends: "env_loop w cid vars tr = (r, tr') \<Longrightarrow> \<exists>new. tr' = tr @ new"
proof (induction vars arbitrary: tr)
  case Nil
  then show ?case by simp
next
  case (Cons kv vars)
  obtain key val where kv: "kv = (key, val)" by (cases kv)
  let ?args = "[''exec'', Itoa cid, ''--'', ''sh'', ''-c'',
                  ''echo '' @ [CHR 0x27] @ key @ ''='' @ val @ [CHR 0x27] @ '' >> /etc/environment'']"
  obtain r1 t1 where p: "pct w ?args tr = (r1, t1)" by (cases "pct w ?args tr")
  then have t1: "t1 = tr @ [Exec ?args]" by (rule pct_extends)
  show ?case
  proof (cases r1)
    case None
    then have "env_loop w cid vars t1 = (r, tr')" using Cons.prems kv p by simp
    from Cons.IH[OF this] t1 show ?thesis by auto
  next
    case (Some err)
    then have "tr' = t1" using Cons.prems kv p by simp
    then show ?thesis using t1 by simp
  qed
qed

lemma executeSetupStep_extends:
  "executeSetupStep b w cid step name args tr = (r, tr') \<Longrightarrow> \<exists>new. tr' = tr @ new"
proof (cases "Run step \<noteq> []")
  case True
  assume "executeSetupStep b w cid step name args tr = (r, tr')"
  with True show ?thesis
    by (auto simp: executeSetupStep_def executeRunStep_def pct_def emit_def log_def Let_def
        split: if_splits)
next
  case False
  assume ex: "executeSetupStep b w cid step name args tr = (r, tr')"
  show ?thesis
  proof (cases "Copy step")
    case (Some c)
    with ex False show ?thesis
      by (auto simp: executeSetupStep_def executeCopyStep_def pct_def emit_def log_def
          logWarning_def Let_def split: if_splits option.splits prod.splits)
  next
    case None
    show ?thesis
    proof (cases "Env step")
      case (Some vars)
      with ex False None show ?thesis
        by (auto simp: executeSetupStep_def executeEnvStep_def log_def emit_def Let_def
            split: if_splits dest!: env_loop_extends)
    next
      case n: None
      with ex False None show ?thesis by (simp add: executeSetupStep_def)
    qed
  qed
qed

lemma cleanup_loop_extends:
  "cleanup_loop b w cid args i steps r tr = (r', tr') \<Longrightarrow> \<exists>new. tr' = tr @ new"
proof (induction steps arbitrary: i r tr)
  case Nil
  then show ?case by simp
next
  case (Cons s steps)
  let ?name = "''Cleanup '' @ Itoa (int (i + 1))"
  obtain r1 t1 where ex: "executeSetupStep b w cid s ?name args tr = (r1, t1)"
    by (cases "executeSetupStep b w cid s ?name args tr")
  from executeSetupStep_extends[OF ex] obtain new1 where t1: "t1 = tr @ new1" by blast
  show ?case
  proof (cases r1)
    case None
    then have "cleanup_loop b w cid args (i + 1) steps
                 (r\<lparr>ExecutedSteps := ExecutedSteps r @ [?name]\<rparr>) t1 = (r', tr')"
      using Cons.prems ex by (simp add: Let_def)
    from Cons.IH[OF this] t1 show ?thesis by auto
  next
    case (Some err)
    then have "cleanup_loop b w cid args (i + 1) steps r
                 (logWarning ''Cleanup step failed (continuing): %v'' [BE err] t1) = (r', tr')"
      using Cons.prems ex by (simp add: Let_def)
    from Cons.IH[OF this] t1 show ?thesis by (auto simp: logWarning_def emit_def)
  qed
qed

lemma cleanup_loop_at:
  "cleanup_loop b w cid args i (take k steps) r tr = (rk, trk) \<Longrightarrow> k < length steps \<Longrightarrow>
   executeSetupStep b w cid (steps ! k) (''Cleanup '' @ Itoa (int (i + k + 1))) args trk
     = (Some e, trk') \<Longrightarrow>
   cleanup_loop b w cid args i steps r tr
     = cleanup_loop b w cid args (i + k + 1) (drop (k + 1) steps) rk
         (trk' @ [Log Warning ''Cleanup step failed (continuing): %v'' [BE e]])"
proof (induction k arbitrary: i steps r tr)
  case 0
  then obtain s rest where steps: "steps = s # rest" by (cases steps) auto
  with 0 show ?case by (simp add: Let_def logWarning_def emit_def)
next
  case (Suc k)
  then obtain s rest where steps: "steps = s # rest" by (cases steps) auto
  let ?name = "''Cleanup '' @ Itoa (int (i + 1))"
  obtain r1 t1 where ex: "executeSetupStep b w cid s ?name args tr = (r1, t1)"
    by (cases "executeSetupStep b w cid s ?name args tr")
  let ?r = "case r1 of None \<Rightarrow> r\<lparr>ExecutedSteps := ExecutedSteps r @ [?name]\<rparr> | Some err \<Rightarrow> r"
  let ?t = "case r1 of None \<Rightarrow> t1
            | Some err \<Rightarrow> logWarning ''Cleanup step failed (continuing): %v'' [BE err] t1"
  have unfold: "cleanup_loop b w cid args i (s # xs) r tr
                  = cleanup_loop b w cid args (i + 1) xs ?r ?t" for xs
    using ex by (simp add: Let_def split: option.splits)
  have a: "cleanup_loop b w cid args (i + 1) (take k rest) ?r ?t = (rk, trk)"
    using Suc.prems(1) steps unfold by simp
  have b: "k < length rest" using Suc.prems(2) steps by simp
  have c: "executeSetupStep b w cid (rest ! k) (''Cleanup '' @ Itoa (int (i + 1 + k + 1))) args trk
               = (Some e, trk')"
    using Suc.prems(3) steps by simp
  have "cleanup_loop b w cid args (i + 1) rest ?r ?t
          = cleanup_loop b w cid args (i + 1 + k + 1) (drop (k + 1) rest) rk
              (trk' @ [Log Warning ''Cleanup step failed (continuing): %v'' [BE e]])"
    by (rule Suc.IH[OF a b c])
  then show ?case using steps unfold by simp
qed

subsection \<open>Example builds\<close>

lemmas run_defs = ex_dry_started_def ex_step2_failed_def ex_finalizer_def ex_configured_def
  ex_cleanup_warning_def ex_cleaned_def ex_three_done_def stop_events_def export_events_def
  trace_defs

lemmas eval_defs = phase_defs world_defs config_defs manifest_defs run_defs builder_defs

lemmas build_defs = BuildTemplate_def build_body_def deferred_cleanup_def

lemma ex_false_id: "allocated_id ex_env_false_fails [] = 10000"
  by (simp add: eval_defs)
lemma ex_all_id: "allocated_id (env_of all_succeed ex_web_db) [] = 10000"
  by (simp add: eval_defs)
lemma ex_export_id: "allocated_id ex_env_export_fails [] = 10000"
  by (simp add: eval_defs)
lemma ex_create_fails_id: "allocated_id ex_env_create_fails [] = 10000"
  by (simp add: eval_defs)
lemma ex_cleanup_label1: "''Cleanup '' @ Itoa (int (0 + 1)) = ''Cleanup 1''"
  by (simp add: eval_defs)


lemma ex_dry_mode: "DryRun ex_dry_builder"
  by (simp add: eval_defs)

lemma ex_cleanup_reach:
  "enters_cleanup ex_builder ex_env_false_fails ex_cleanup_fails ''web:latest'' [] []
     = Some (ex_result [''Step 1''], ex_configured)"
  by (simp add: eval_defs)
lemma ex_cleanup_before:
  "cleanup_loop ex_builder ex_env_false_fails 10000 [] 0 (take 0 (Cleanup ex_cleanup_fails))
       (ex_result [''Step 1'']) ex_configured
     = (ex_result [''Step 1''], ex_configured)"
  by (simp add: eval_defs)
lemma ex_cleanup_step_fails:
  "executeSetupStep ex_builder ex_env_false_fails 10000 (Cleanup ex_cleanup_fails ! 0)
       ''Cleanup 1'' [] ex_configured
     = (Some (ExecError ''exit status 1''), ex_configured @ run_events ''Cleanup 1'' ''false'')"
  by (simp add: eval_defs)
lemma ex_cleanup_rest:
  "cleanup_loop ex_builder ex_env_false_fails 10000 [] (0 + 1)
       (drop (0 + 1) (Cleanup ex_cleanup_fails)) (ex_result [''Step 1''])
       ((ex_configured @ run_events ''Cleanup 1'' ''false'') @
        [Log Warning ''Cleanup step failed (continuing): %v'' [BE (ExecError ''exit status 1'')]])
     = (ex_result [''Step 1'', ''Cleanup 2''], ex_cleaned)"
  by (simp add: eval_defs)
lemma ex_cleanup_stop:
  "stopContainer ex_builder ex_env_false_fails 10000 ex_cleaned = (None, ex_cleaned @ stop_events)"
  by (simp add: eval_defs)
lemma ex_cleanup_export:
  "exportTemplate ex_builder ex_env_false_fails 10000 ''web:latest'' (ex_cleaned @ stop_events)
     = (Inr ''10000'', ex_cleaned @ stop_events @ export_events)"
  by (simp add: eval_defs)
lemma ex_cleanup_clock:
  "clock ex_env_false_fails (ex_cleaned @ stop_events @ export_events) - clock ex_env_false_fails []
     = 20"
  by (simp add: eval_defs)

lemma ex_success_reach:
  "enters_export ex_builder (env_of all_succeed ex_web_db) ex_three_steps ''web:latest'' [] []
     = Some (ex_result [''Step 1'', ''Step 2'', ''Step 3''], ex_three_done @ stop_events)"
  by (simp add: eval_defs)
lemma ex_success_export:
  "exportTemplate ex_builder (env_of all_succeed ex_web_db) 10000 ''web:latest''
       (ex_three_done @ stop_events)
     = (Inr ''10000'', ex_three_done @ stop_events @ export_events)"
  by (simp add: eval_defs)
lemma ex_success_clock:
  "clock (env_of all_succeed ex_web_db) (ex_three_done @ stop_events @ export_events)
     - clock (env_of all_succeed ex_web_db) [] = 19"
  by (simp add: eval_defs)

lemma ex_export_reach:
  "enters_export ex_builder ex_env_export_fails ex_three_steps ''web:latest'' [] []
     = Some (ex_result [''Step 1'', ''Step 2'', ''Step 3''], ex_three_done @ stop_events)"
  by (simp add: eval_defs)
lemma ex_export_step_fails:
  "exportTemplate ex_builder ex_env_export_fails 10000 ''web:latest''
       (ex_three_done @ stop_events)
     = (Inl (ExecError ''exit status 1''), ex_three_done @ stop_events @ export_events)"
  by (simp add: eval_defs)
lemma ex_export_finalizer:
  "finalizer_events ex_builder ex_env_export_fails 10000
       (ex_three_done @ stop_events @ export_events) = ex_finalizer"
  by (simp add: eval_defs)

lemma ex_create_body:
  "enters_body ex_builder ex_env_create_fails ex_three_steps [] = None"
  by (simp add: eval_defs)
lemma ex_create_run:
  "createTempContainer ex_builder ex_env_create_fails 10000 (From ex_three_steps)
       (emit Now (emit Now []))
     = (Some (ExecError ''exit status 1''), ex_created)"
  by (simp add: eval_defs)
lemma ex_quiet: "\<not> Verbose ex_builder"
  by (simp add: eval_defs)

subsection \<open>A failing setup step\<close>




subsection \<open>The finalizer\<close>

text \<open>
  C5, as stated, fails when the temporary container cannot be created: that failure comes
  before the export, yet \<open>BuildTemplate\<close> returns before the finalizer is registered,
  and neither \<open>pct stop\<close> nor \<open>pct destroy\<close> is run.
\<close>

theorem creation_failure_counterexample:
  "BuildTemplate ex_builder ex_env_create_fails ex_three_steps ''web:latest'' [] []
     = (Inl (CreateTempFailed (ExecError ''exit status 1'')), ex_created) \<and>
   Exec [''stop'', ''10000''] \<notin> set ex_created \<and>
   Exec [''destroy'', ''10000''] \<notin> set ex_created"
proof -
  have "BuildTemplate ex_builder ex_env_create_fails ex_three_steps ''web:latest'' [] []
     = (Inl (CreateTempFailed (ExecError ''exit status 1'')), ex_created)"
    by (simp add: build_defs eval_defs)
  moreover have "Exec [''stop'', ''10000''] \<notin> set ex_created \<and>
                 Exec [''destroy'', ''10000''] \<notin> set ex_created"
    by (simp add: run_defs)
  ultimately show ?thesis by (rule conjI)
qed

text \<open>
  C5, amended.  When \<open>BuildTemplate\<close> gets to the export and the export succeeds, it
  returns the result with the template path, and its trace ends with the export and the
  last clock read: the finalizer appends nothing.  When the temporary container has been
  created and a later phase fails (the export, the stop, the configuration, a setup
  step, the wait for the container or its start), \<open>BuildTemplate\<close> returns the error of
  that phase and the finalizer runs: its events follow the trace of the failure.  When
  the creation of the container fails, \<open>BuildTemplate\<close> returns that error with the
  trace of the creation, and no finalizer runs.  Outside a dry run the finalizer runs
  \<open>pct stop\<close> and \<open>pct destroy\<close>; in a dry run it does nothing; it never runs
  \<open>pct template\<close>.
\<close>

theorem finalizer_runs_only_after_failure:
  "(enters_export b w lxcfile templateName buildArgs tr = Some (result2, tr6) \<and>
    exportTemplate b w (allocated_id w tr) templateName tr6 = (Inr templatePath, tr7) \<longrightarrow>
      BuildTemplate b w lxcfile templateName buildArgs tr
        = (Inr (result2\<lparr>TemplatePath := templatePath,
                         BuildDuration := clock w tr7 - clock w tr\<rparr>), emit Now tr7)) \<and>
   (enters_export b w lxcfile templateName buildArgs tr = Some (result2, tr6) \<and>
    exportTemplate b w (allocated_id w tr) templateName tr6 = (Inl err, tr7) \<longrightarrow>
      BuildTemplate b w lxcfile templateName buildArgs tr
        = (Inl (ExportFailed err), tr7 @ finalizer_events b w (allocated_id w tr) tr7)) \<and>
   (enters_cleanup b w lxcfile templateName buildArgs tr = Some (result1, tr4) \<and>
    cleanup_loop b w (allocated_id w tr) buildArgs 0 (Cleanup lxcfile) result1 tr4
      = (result2, tr5) \<and>
    stopContainer b w (allocated_id w tr) tr5 = (Some err, tr6) \<longrightarrow>
      BuildTemplate b w lxcfile templateName buildArgs tr
        = (Inl (StopFailed err), tr6 @ finalizer_events b w (allocated_id w tr) tr6)) \<and>
   (enters_setup b w lxcfile tr = Some tr1 \<and>
    setup_loop b w (allocated_id w tr) buildArgs 0 (Setup lxcfile)
      (initial_result templateName (allocated_id w tr)) tr1 = (Inr result1, tr3) \<and>
    applyContainerConfig b w (allocated_id w tr) lxcfile tr3 = (Some err, tr4) \<longrightarrow>
      BuildTemplate b w lxcfile templateName buildArgs tr
        = (Inl (ApplyConfigFailed err), tr4 @ finalizer_events b w (allocated_id w tr) tr4)) \<and>
   (enters_setup b w lxcfile tr = Some tr1 \<and>
    setup_loop b w (allocated_id w tr) buildArgs 0 (Setup lxcfile)
      (initial_result templateName (allocated_id w tr)) tr1 = (Inl err, tr3) \<longrightarrow>
      BuildTemplate b w lxcfile templateName buildArgs tr
        = (Inl err, tr3 @ finalizer_events b w (allocated_id w tr) tr3)) \<and>
   (enters_body b w lxcfile tr = Some tr0 \<and>
    startContainer b w (allocated_id w tr) tr0 = (None, tr1) \<and>
    waitForContainer b w (allocated_id w tr) tr1 = (Some err, tr2) \<longrightarrow>
      BuildTemplate b w lxcfile templateName buildArgs tr
        = (Inl (ContainerNotReady err), tr2 @ finalizer_events b w (allocated_id w tr) tr2)) \<and>
   (enters_body b w lxcfile tr = Some tr0 \<and>
    startContainer b w (allocated_id w tr) tr0 = (Some err, tr1) \<longrightarrow>
      BuildTemplate b w lxcfile templateName buildArgs tr
        = (Inl (StartTempFailed err), tr1 @ finalizer_events b w (allocated_id w tr) tr1)) \<and>
   (enters_body b w lxcfile tr = None \<longrightarrow>
      (\<exists>createErr tr3. BuildTemplate b w lxcfile templateName buildArgs tr
          = (Inl (CreateTempFailed createErr), tr3) \<and>
        createTempContainer b w (allocated_id w tr) (From lxcfile)
             (if Verbose b
                then log ''Using temporary container ID: %d'' [D (allocated_id w tr)]
                       (emit Now (emit Now tr))
              else emit Now (emit Now tr)) = (Some createErr, tr3))) \<and>
   (DryRun b \<longrightarrow> finalizer_events b w (allocated_id w tr) t = []) \<and>
   (\<not> DryRun b \<longrightarrow>
      Exec [''stop'', Itoa (allocated_id w tr)]
        \<in> set (finalizer_events b w (allocated_id w tr) t) \<and>
      Exec [''destroy'', Itoa (allocated_id w tr)]
        \<in> set (finalizer_events b w (allocated_id w tr) t)) \<and>
   Exec [''template'', Itoa (allocated_id w tr)]
     \<notin> set (finalizer_events b w (allocated_id w tr) t)"
proof -
  have success: "enters_export b w lxcfile templateName buildArgs tr = Some (result2, tr6) \<and>
    exportTemplate b w (allocated_id w tr) templateName tr6 = (Inr templatePath, tr7) \<longrightarrow>
      BuildTemplate b w lxcfile templateName buildArgs tr
        = (Inr (result2\<lparr>TemplatePath := templatePath,
                         BuildDuration := clock w tr7 - clock w tr\<rparr>), emit Now tr7)"
    by (rule impI) (rule export_success, erule conjunct1, erule conjunct2)
  have export: "enters_export b w lxcfile templateName buildArgs tr = Some (result2, tr6) \<and>
    exportTemplate b w (allocated_id w tr) templateName tr6 = (Inl err, tr7) \<longrightarrow>
      BuildTemplate b w lxcfile templateName buildArgs tr
        = (Inl (ExportFailed err), tr7 @ finalizer_events b w (allocated_id w tr) tr7)"
    by (rule impI) (rule export_failure, erule conjunct1, erule conjunct2)
  have stop: "enters_cleanup b w lxcfile templateName buildArgs tr = Some (result1, tr4) \<and>
    cleanup_loop b w (allocated_id w tr) buildArgs 0 (Cleanup lxcfile) result1 tr4
      = (result2, tr5) \<and>
    stopContainer b w (allocated_id w tr) tr5 = (Some err, tr6) \<longrightarrow>
      BuildTemplate b w lxcfile templateName buildArgs tr
        = (Inl (StopFailed err), tr6 @ finalizer_events b w (allocated_id w tr) tr6)"
  proof
    assume a: "enters_cleanup b w lxcfile templateName buildArgs tr = Some (result1, tr4) \<and>
      cleanup_loop b w (allocated_id w tr) buildArgs 0 (Cleanup lxcfile) result1 tr4
        = (result2, tr5) \<and>
      stopContainer b w (allocated_id w tr) tr5 = (Some err, tr6)"
    show "BuildTemplate b w lxcfile templateName buildArgs tr
        = (Inl (StopFailed err), tr6 @ finalizer_events b w (allocated_id w tr) tr6)"
      by (rule stop_failure[OF a[THEN conjunct1] a[THEN conjunct2, THEN conjunct1]
            a[THEN conjunct2, THEN conjunct2]])
  qed
  have conf: "enters_setup b w lxcfile tr = Some tr1 \<and>
    setup_loop b w (allocated_id w tr) buildArgs 0 (Setup lxcfile)
      (initial_result templateName (allocated_id w tr)) tr1 = (Inr result1, tr3) \<and>
    applyContainerConfig b w (allocated_id w tr) lxcfile tr3 = (Some err, tr4) \<longrightarrow>
      BuildTemplate b w lxcfile templateName buildArgs tr
        = (Inl (ApplyConfigFailed err), tr4 @ finalizer_events b w (allocated_id w tr) tr4)"
  proof
    assume a: "enters_setup b w lxcfile tr = Some tr1 \<and>
      setup_loop b w (allocated_id w tr) buildArgs 0 (Setup lxcfile)
        (initial_result templateName (allocated_id w tr)) tr1 = (Inr result1, tr3) \<and>
      applyContainerConfig b w (allocated_id w tr) lxcfile tr3 = (Some err, tr4)"
    show "BuildTemplate b w lxcfile templateName buildArgs tr
        = (Inl (ApplyConfigFailed err), tr4 @ finalizer_events b w (allocated_id w tr) tr4)"
      by (rule config_failure[OF a[THEN conjunct1] a[THEN conjunct2, THEN conjunct1]
            a[THEN conjunct2, THEN conjunct2]])
  qed
  have steps: "enters_setup b w lxcfile tr = Some tr1 \<and>
    setup_loop b w (allocated_id w tr) buildArgs 0 (Setup lxcfile)
      (initial_result templateName (allocated_id w tr)) tr1 = (Inl err, tr3) \<longrightarrow>
      BuildTemplate b w lxcfile templateName buildArgs tr
        = (Inl err, tr3 @ finalizer_events b w (allocated_id w tr) tr3)"
    by (rule impI) (rule steps_failure, erule conjunct1, erule conjunct2)
  have wait: "enters_body b w lxcfile tr = Some tr0 \<and>
    startContainer b w (allocated_id w tr) tr0 = (None, tr1) \<and>
    waitForContainer b w (allocated_id w tr) tr1 = (Some err, tr2) \<longrightarrow>
      BuildTemplate b w lxcfile templateName buildArgs tr
        = (Inl (ContainerNotReady err), tr2 @ finalizer_events b w (allocated_id w tr) tr2)"
  proof
    assume a: "enters_body b w lxcfile tr = Some tr0 \<and>
      startContainer b w (allocated_id w tr) tr0 = (None, tr1) \<and>
      waitForContainer b w (allocated_id w tr) tr1 = (Some err, tr2)"
    show "BuildTemplate b w lxcfile templateName buildArgs tr
        = (Inl (ContainerNotReady err), tr2 @ finalizer_events b w (allocated_id w tr) tr2)"
      by (rule wait_failure[OF a[THEN conjunct1] a[THEN conjunct2, THEN conjunct1]
            a[THEN conjunct2, THEN conjunct2]])
  qed
  have start: "enters_body b w lxcfile tr = Some tr0 \<and>
    startContainer b w (allocated_id w tr) tr0 = (Some err, tr1) \<longrightarrow>
      BuildTemplate b w lxcfile templateName buildArgs tr
        = (Inl (StartTempFailed err), tr1 @ finalizer_events b w (allocated_id w tr) tr1)"
    by (rule impI) (rule start_failure, erule conjunct1, erule conjunct2)
  have create: "enters_body b w lxcfile tr = None \<longrightarrow>
      (\<exists>createErr tr3. BuildTemplate b w lxcfile templateName buildArgs tr
          = (Inl (CreateTempFailed createErr), tr3) \<and>
        createTempContainer b w (allocated_id w tr) (From lxcfile)
             (if Verbose b
                then log ''Using temporary container ID: %d'' [D (allocated_id w tr)]
                       (emit Now (emit Now tr))
              else emit Now (emit Now tr)) = (Some createErr, tr3))"
    by (rule impI) (erule BuildTemplate_not_created)
  show ?thesis
    apply (rule conjI[OF success])
    apply (rule conjI[OF export])
    apply (rule conjI[OF stop])
    apply (rule conjI[OF conf])
    apply (rule conjI[OF steps])
    apply (rule conjI[OF wait])
    apply (rule conjI[OF start])
    apply (rule conjI[OF create])
    apply (rule finalizer_events_content)
    done
qed

theorem finalizer_runs_only_after_failure_witness:
  "enters_export ex_builder (env_of all_succeed ex_web_db) ex_three_steps ''web:latest'' [] []
     = Some (ex_result [''Step 1'', ''Step 2'', ''Step 3''], ex_three_done @ stop_events) \<and>
   exportTemplate ex_builder (env_of all_succeed ex_web_db) 10000 ''web:latest''
       (ex_three_done @ stop_events)
     = (Inr ''10000'', ex_three_done @ stop_events @ export_events) \<and>
   BuildTemplate ex_builder (env_of all_succeed ex_web_db) ex_three_steps ''web:latest'' [] []
     = (Inr ((ex_result [''Step 1'', ''Step 2'', ''Step 3''])
               \<lparr>TemplatePath := ''10000'', BuildDuration := 19\<rparr>),
        emit Now (ex_three_done @ stop_events @ export_events)) \<and>
   Exec [''destroy'', ''10000'']
     \<notin> set (emit Now (ex_three_done @ stop_events @ export_events)) \<and>
   enters_export ex_builder ex_env_export_fails ex_three_steps ''web:latest'' [] []
     = Some (ex_result [''Step 1'', ''Step 2'', ''Step 3''], ex_three_done @ stop_events) \<and>
   exportTemplate ex_builder ex_env_export_fails 10000 ''web:latest''
       (ex_three_done @ stop_events)
     = (Inl (ExecError ''exit status 1''), ex_three_done @ stop_events @ export_events) \<and>
   BuildTemplate ex_builder ex_env_export_fails ex_three_steps ''web:latest'' [] []
     = (Inl (ExportFailed (ExecError ''exit status 1'')),
        (ex_three_done @ stop_events @ export_events) @ ex_finalizer) \<and>
   enters_body ex_builder ex_env_create_fails ex_three_steps [] = None \<and>
   BuildTemplate ex_builder ex_env_create_fails ex_three_steps ''web:latest'' [] []
     = (Inl (CreateTempFailed (ExecError ''exit status 1'')), ex_created) \<and>
   DryRun ex_dry_builder \<and>
   finalizer_events ex_dry_builder ex_env_export_fails 10000
       (ex_three_done @ stop_events @ export_events) = []"
proof -
  note ok = finalizer_runs_only_after_failure[where b = ex_builder
      and w = "env_of all_succeed ex_web_db" and lxcfile = ex_three_steps and tr = "[]"
      and templateName = "''web:latest''" and buildArgs = "[]",
      unfolded ex_all_id, THEN conjunct1, THEN mp,
      OF conjI[OF ex_success_reach ex_success_export], unfolded ex_success_clock]
  note bad = finalizer_runs_only_after_failure[where b = ex_builder
      and w = ex_env_export_fails and lxcfile = ex_three_steps and tr = "[]"
      and templateName = "''web:latest''" and buildArgs = "[]",
      unfolded ex_export_id, THEN conjunct2, THEN conjunct1, THEN mp,
      OF conjI[OF ex_export_reach ex_export_step_fails], unfolded ex_export_finalizer]
  note none = finalizer_runs_only_after_failure[where b = ex_builder
      and w = ex_env_create_fails and lxcfile = ex_three_steps and tr = "[]"
      and templateName = "''web:latest''" and buildArgs = "[]",
      unfolded ex_create_fails_id, THEN conjunct2, THEN conjunct2, THEN conjunct2,
      THEN conjunct2, THEN conjunct2, THEN conjunct2, THEN conjunct2, THEN conjunct1, THEN mp,
      OF ex_create_body]
  note dry = finalizer_runs_only_after_failure[where b = ex_dry_builder
      and w = ex_env_export_fails and tr = "[]"
      and t = "ex_three_done @ stop_events @ export_events",
      unfolded ex_export_id, THEN conjunct2, THEN conjunct2, THEN conjunct2,
      THEN conjunct2, THEN conjunct2, THEN conjunct2, THEN conjunct2, THEN conjunct2,
      THEN conjunct1, THEN mp, OF ex_dry_mode]
  have kept: "Exec [''destroy'', ''10000'']
     \<notin> set (emit Now (ex_three_done @ stop_events @ export_events))"
    by (simp add: run_defs emit_def)
  from none obtain createErr tr3 where
    n: "BuildTemplate ex_builder ex_env_create_fails ex_three_steps ''web:latest'' [] []
          = (Inl (CreateTempFailed createErr), tr3) \<and>
        createTempContainer ex_builder ex_env_create_fails 10000 (From ex_three_steps)
           (if Verbose ex_builder
              then log ''Using temporary container ID: %d'' [D 10000] (emit Now (emit Now []))
            else emit Now (emit Now [])) = (Some createErr, tr3)"
    by (elim exE)
  have "createTempContainer ex_builder ex_env_create_fails 10000 (From ex_three_steps)
          (emit Now (emit Now [])) = (Some createErr, tr3)"
    using n[THEN conjunct2] ex_quiet by simp
  then have "createErr = ExecError ''exit status 1''" "tr3 = ex_created"
    unfolding ex_create_run by simp_all
  then have created: "BuildTemplate ex_builder ex_env_create_fails ex_three_steps
       ''web:latest'' [] []
     = (Inl (CreateTempFailed (ExecError ''exit status 1'')), ex_created)"
    using n[THEN conjunct1] by simp
  show ?thesis
    apply (rule conjI[OF ex_success_reach])
    apply (rule conjI[OF ex_success_export])
    apply (rule conjI[OF ok])
    apply (rule conjI[OF kept])
    apply (rule conjI[OF ex_export_reach])
    apply (rule conjI[OF ex_export_step_fails])
    apply (rule conjI[OF bad])
    apply (rule conjI[OF ex_create_body])
    apply (rule conjI[OF created])
    apply (rule conjI[OF ex_dry_mode])
    apply (rule dry)
    done
qed

subsection \<open>A failing cleanup step\<close>

text \<open>
  C6.  Let \<open>BuildTemplate\<close> get to its loop over the cleanup steps, and let the cleanup
  step \<open>k + 1\<close> fail after the first \<open>k\<close> have been run.  Then the warning is logged
  right after the failure, the loop goes on with the remaining cleanup steps, and
  \<open>BuildTemplate\<close> goes on to stop the container and to export it on the trace the loop
  leaves: when both succeed, it returns the result, with the template path and no error.
\<close>

theorem cleanup_failure_is_not_fatal:
  assumes reach: "enters_cleanup b w lxcfile templateName buildArgs tr = Some (result1, tr4)"
    and k: "k < length (Cleanup lxcfile)"
    and before: "cleanup_loop b w (allocated_id w tr) buildArgs 0 (take k (Cleanup lxcfile))
                   result1 tr4 = (resultk, trk)"
    and fails: "executeSetupStep b w (allocated_id w tr) (Cleanup lxcfile ! k)
                   (''Cleanup '' @ Itoa (int (k + 1))) buildArgs trk = (Some e, trk')"
    and rest: "cleanup_loop b w (allocated_id w tr) buildArgs (k + 1)
                   (drop (k + 1) (Cleanup lxcfile)) resultk
                   (trk' @ [Log Warning ''Cleanup step failed (continuing): %v'' [BE e]])
                 = (result2, tr5)"
  shows "(\<exists>more. tr5 = trk' @ [Log Warning ''Cleanup step failed (continuing): %v'' [BE e]] @ more) \<and>
     BuildTemplate b w lxcfile templateName buildArgs tr =
       (case stopContainer b w (allocated_id w tr) tr5 of
          (Some err, tr6) \<Rightarrow>
            (Inl (StopFailed err), tr6 @ finalizer_events b w (allocated_id w tr) tr6)
        | (None, tr6) \<Rightarrow>
            (case exportTemplate b w (allocated_id w tr) templateName tr6 of
               (Inl err, tr7) \<Rightarrow>
                 (Inl (ExportFailed err), tr7 @ finalizer_events b w (allocated_id w tr) tr7)
             | (Inr templatePath, tr7) \<Rightarrow>
                 (Inr (result2\<lparr>TemplatePath := templatePath,
                                 BuildDuration := clock w tr7 - clock w tr\<rparr>),
                  emit Now tr7)))"
proof -
  let ?cid = "allocated_id w tr"
  from cleanup_loop_extends[OF rest] have more:
    "\<exists>more. tr5 = trk' @ [Log Warning ''Cleanup step failed (continuing): %v'' [BE e]] @ more"
    by auto
  have loop: "cleanup_loop b w ?cid buildArgs 0 (Cleanup lxcfile) result1 tr4 = (result2, tr5)"
    using cleanup_loop_at[OF before k] fails rest by simp
  from reach obtain tr0 tr1 tr2 tr3 where
    body: "enters_body b w lxcfile tr = Some tr0"
    and start: "startContainer b w ?cid tr0 = (None, tr1)"
    and wait: "waitForContainer b w ?cid tr1 = (None, tr2)"
    and steps_ok: "setup_loop b w ?cid buildArgs 0 (Setup lxcfile)
                  (initial_result templateName ?cid) tr2 = (Inr result1, tr3)"
    and conf: "applyContainerConfig b w ?cid lxcfile tr3 = (None, tr4)"
    by (auto simp: enters_cleanup_def enters_setup_def
        split: option.splits prod.splits sum.splits)
  obtain ret flag trb where bb: "build_body b w lxcfile templateName buildArgs (clock w tr) ?cid
          (initial_result templateName ?cid) tr0 = (ret, flag, trb)"
    by (metis prod_cases3)
  have eq: "(ret, flag, trb) =
      (case stopContainer b w ?cid tr5 of
         (Some err, tr6) \<Rightarrow> (Inl (StopFailed err), True, tr6)
       | (None, tr6) \<Rightarrow>
           (case exportTemplate b w ?cid templateName tr6 of
              (Inl err, tr7) \<Rightarrow> (Inl (ExportFailed err), True, tr7)
            | (Inr templatePath, tr7) \<Rightarrow>
                (Inr (result2\<lparr>TemplatePath := templatePath,
                                BuildDuration := clock w tr7 - clock w tr\<rparr>),
                 False, emit Now tr7)))"
    using bb start wait steps_ok conf loop
    by (simp add: build_body_def time_Since_def split: prod.splits option.splits sum.splits)
  have "BuildTemplate b w lxcfile templateName buildArgs tr
          = (ret, deferred_cleanup b w ?cid flag trb)"
    by (rule BuildTemplate_body[OF body bb])
  then have "BuildTemplate b w lxcfile templateName buildArgs tr =
       (case stopContainer b w ?cid tr5 of
          (Some err, tr6) \<Rightarrow> (Inl (StopFailed err), tr6 @ finalizer_events b w ?cid tr6)
        | (None, tr6) \<Rightarrow>
            (case exportTemplate b w ?cid templateName tr6 of
               (Inl err, tr7) \<Rightarrow> (Inl (ExportFailed err), tr7 @ finalizer_events b w ?cid tr7)
             | (Inr templatePath, tr7) \<Rightarrow>
                 (Inr (result2\<lparr>TemplatePath := templatePath,
                                 BuildDuration := clock w tr7 - clock w tr\<rparr>),
                  emit Now tr7)))"
    using eq
    by (auto simp: deferred_cleanup_events deferred_cleanup_off
        split: prod.splits option.splits sum.splits)
  with more show ?thesis by blast
qed

theorem cleanup_failure_is_not_fatal_witness:
  "enters_cleanup ex_builder ex_env_false_fails ex_cleanup_fails ''web:latest'' [] []
     = Some (ex_result [''Step 1''], ex_configured) \<and>
   executeSetupStep ex_builder ex_env_false_fails 10000 (Cleanup ex_cleanup_fails ! 0)
       ''Cleanup 1'' [] ex_configured
     = (Some (ExecError ''exit status 1''), ex_configured @ run_events ''Cleanup 1'' ''false'') \<and>
   cleanup_loop ex_builder ex_env_false_fails 10000 [] (0 + 1)
       (drop (0 + 1) (Cleanup ex_cleanup_fails)) (ex_result [''Step 1''])
       ((ex_configured @ run_events ''Cleanup 1'' ''false'') @
        [Log Warning ''Cleanup step failed (continuing): %v'' [BE (ExecError ''exit status 1'')]])
     = (ex_result [''Step 1'', ''Cleanup 2''], ex_cleaned) \<and>
   stopContainer ex_builder ex_env_false_fails 10000 ex_cleaned
     = (None, ex_cleaned @ stop_events) \<and>
   exportTemplate ex_builder ex_env_false_fails 10000 ''web:latest'' (ex_cleaned @ stop_events)
     = (Inr ''10000'', ex_cleaned @ stop_events @ export_events) \<and>
   BuildTemplate ex_builder ex_env_false_fails ex_cleanup_fails ''web:latest'' [] []
     = (Inr ((ex_result [''Step 1'', ''Cleanup 2''])
               \<lparr>TemplatePath := ''10000'', BuildDuration := 20\<rparr>),
        emit Now (ex_cleaned @ stop_events @ export_events))"
proof -
  have k0: "0 < length (Cleanup ex_cleanup_fails)" by (simp add: manifest_defs)
  note run = cleanup_failure_is_not_fatal[where b = ex_builder and w = ex_env_false_fails
      and lxcfile = ex_cleanup_fails and tr = "[]" and k = 0 and templateName = "''web:latest''"
      and buildArgs = "[]", unfolded ex_false_id ex_cleanup_label1,
      OF ex_cleanup_reach k0 ex_cleanup_before ex_cleanup_step_fails ex_cleanup_rest,
      THEN conjunct2]
  have build: "BuildTemplate ex_builder ex_env_false_fails ex_cleanup_fails ''web:latest'' [] []
     = (Inr ((ex_result [''Step 1'', ''Cleanup 2''])
               \<lparr>TemplatePath := ''10000'', BuildDuration := 20\<rparr>),
        emit Now (ex_cleaned @ stop_events @ export_events))"
    using run unfolding ex_cleanup_stop prod.case option.case ex_cleanup_export sum.case
      ex_cleanup_clock .
  show ?thesis
    apply (rule conjI[OF ex_cleanup_reach])
    apply (rule conjI[OF ex_cleanup_step_fails])
    apply (rule conjI[OF ex_cleanup_rest])
    apply (rule conjI[OF ex_cleanup_stop])
    apply (rule conjI[OF ex_cleanup_export])
    apply (rule build)
    done
qed

section \<open>The deployment orchestrator\<close>

subsection \<open>Resources of a container\<close>

lemmas ex_defs = resources_of_def ex_orchestrator_def stack_with_defaults_def service_with_def
  runner_New_def zero_RunnerConfig_def New_def NewClient_def stack_of_def template_service_def
  zero_Service_def

text \<open>
  C8, as stated, fails: a negative value at the service level is not zero, yet the stack
  default wins over it; and a swap of the stack default that is not zero is never used.
\<close>

theorem resource_merge_counterexample:
  "cc_Memory (buildContainerConfig ex_orchestrator (service_with (resources_of 0 (-5) 0))
                (stack_with_defaults (resources_of 2 1024 512)))
     \<noteq> merged_by_precedence Memory (service_with (resources_of 0 (-5) 0))
          (stack_with_defaults (resources_of 2 1024 512)) \<and>
   cc_Swap (buildContainerConfig ex_orchestrator (service_with (resources_of 0 (-5) 0))
                (stack_with_defaults (resources_of 2 1024 512)))
     \<noteq> merged_by_precedence Swap (service_with (resources_of 0 (-5) 0))
          (stack_with_defaults (resources_of 2 1024 512))"
  by (simp add: buildContainerConfig_def merged_by_precedence_def service_value_def
      default_value_def stack_defaults_def ex_defs Let_def)

text \<open>
  C8, amended.  Memory and cores of the container configuration are the value of the
  service when that is positive, and otherwise the value of the stack's default
  resources, which is zero when the stack has none.  Swap follows the same rule whenever
  the value of the service is positive or the default swap of the stack is zero.
\<close>

theorem resource_merge:
  "cc_Memory (buildContainerConfig o' service stack) =
     (if service_value Memory service > 0 then service_value Memory service
      else default_value Memory stack) \<and>
   cc_Cores (buildContainerConfig o' service stack) =
     (if service_value Cores service > 0 then service_value Cores service
      else default_value Cores stack) \<and>
   (service_value Swap service > 0 \<or> default_value Swap stack = 0 \<longrightarrow>
      cc_Swap (buildContainerConfig o' service stack) =
        (if service_value Swap service > 0 then service_value Swap service
         else default_value Swap stack))"
  by (auto simp: buildContainerConfig_def service_value_def default_value_def stack_defaults_def
      Let_def split: option.splits)

theorem resource_merge_witness:
  "service_value Swap (service_with (resources_of 0 2048 256)) > 0 \<and>
   cc_Memory (buildContainerConfig ex_orchestrator (service_with (resources_of 0 2048 256))
                (stack_with_defaults (resources_of 2 1024 512))) = 2048 \<and>
   cc_Cores (buildContainerConfig ex_orchestrator (service_with (resources_of 0 2048 256))
                (stack_with_defaults (resources_of 2 1024 512))) = 2 \<and>
   cc_Swap (buildContainerConfig ex_orchestrator (service_with (resources_of 0 2048 256))
                (stack_with_defaults (resources_of 2 1024 512))) = 256 \<and>
   default_value Swap (stack_with_defaults (resources_of 2 1024 0)) = 0 \<and>
   cc_Swap (buildContainerConfig ex_orchestrator (service_with (resources_of 0 2048 0))
                (stack_with_defaults (resources_of 2 1024 0))) = 0 \<and>
   cc_Swap (buildContainerConfig ex_orchestrator (service_with (resources_of 0 2048 (-1)))
                (stack_of [])) = 0"
  using resource_merge[of ex_orchestrator "service_with (resources_of 0 2048 256)"
          "stack_with_defaults (resources_of 2 1024 512)"]
    resource_merge[of ex_orchestrator "service_with (resources_of 0 2048 0)"
          "stack_with_defaults (resources_of 2 1024 0)"]
    resource_merge[of ex_orchestrator "service_with (resources_of 0 2048 (-1))" "stack_of []"]
  by (simp add: service_value_def default_value_def stack_defaults_def ex_defs)

subsection \<open>The outcomes of Up\<close>

lemma deployService_Name: "Name (fst (deployService o' w name service stack tr)) = name"
  by (simp add: deployService_def Let_def configureContainer_def service_ContainerID_def
      split: prod.splits sum.splits option.splits)

lemma deployService_running:
  "Error (fst (deployService o' w name service stack tr)) = None \<Longrightarrow>
   Status (fst (deployService o' w name service stack tr)) = ''running''"
  by (simp add: deployService_def Let_def configureContainer_def service_ContainerID_def
      split: prod.splits sum.splits option.splits)

lemma outcomes_fail_head:
  assumes "Name r = n" "Error r = Some e"
  shows "outcomes_of (n # ns) [r] (Some (DeployFailed n e))"
proof -
  have "0 < length (n # ns) \<and> Some (DeployFailed n e) = Some (DeployFailed ((n # ns) ! 0) e) \<and>
        map Name [r] = take (Suc 0) (n # ns) \<and>
        (\<forall>i<0. Error ([r] ! i) = None \<and> Status ([r] ! i) = ''running'') \<and>
        Error ([r] ! 0) = Some e"
    using assms by simp
  then show ?thesis unfolding outcomes_of_def by blast
qed

lemma outcomes_cons:
  assumes r: "Name r = n" "Error r = None" "Status r = ''running''"
    and rest: "outcomes_of ns new err"
  shows "outcomes_of (n # ns) (r # new) err"
  using rest unfolding outcomes_of_def
proof
  assume "err = None \<and> map Name new = ns \<and>
          (\<forall>r\<in>set new. Error r = None \<and> Status r = ''running'')"
  then have "err = None \<and> map Name (r # new) = n # ns \<and>
             (\<forall>x\<in>set (r # new). Error x = None \<and> Status x = ''running'')"
    using r by simp
  then show "(err = None \<and> map Name (r # new) = n # ns \<and>
       (\<forall>r\<in>set (r # new). Error r = None \<and> Status r = ''running'')) \<or>
     (\<exists>k e. k < length (n # ns) \<and> err = Some (DeployFailed ((n # ns) ! k) e) \<and>
         map Name (r # new) = take (Suc k) (n # ns) \<and>
         (\<forall>i<k. Error ((r # new) ! i) = None \<and> Status ((r # new) ! i) = ''running'') \<and>
         Error ((r # new) ! k) = Some e)"
    by (rule disjI1)
next
  assume "\<exists>k e. k < length ns \<and> err = Some (DeployFailed (ns ! k) e) \<and>
            map Name new = take (Suc k) ns \<and>
            (\<forall>i<k. Error (new ! i) = None \<and> Status (new ! i) = ''running'') \<and>
            Error (new ! k) = Some e"
  then obtain k e where k: "k < length ns" and e: "err = Some (DeployFailed (ns ! k) e)"
    and names: "map Name new = take (Suc k) ns"
    and ok: "\<forall>i<k. Error (new ! i) = None \<and> Status (new ! i) = ''running''"
    and bad: "Error (new ! k) = Some e"
    by blast
  have ok': "\<forall>i<Suc k. Error ((r # new) ! i) = None \<and> Status ((r # new) ! i) = ''running''"
  proof (intro allI impI)
    fix i assume "i < Suc k"
    then show "Error ((r # new) ! i) = None \<and> Status ((r # new) ! i) = ''running''"
      using ok r by (cases i) simp_all
  qed
  have "Suc k < length (n # ns) \<and> err = Some (DeployFailed ((n # ns) ! Suc k) e) \<and>
        map Name (r # new) = take (Suc (Suc k)) (n # ns) \<and>
        (\<forall>i<Suc k. Error ((r # new) ! i) = None \<and> Status ((r # new) ! i) = ''running'') \<and>
        Error ((r # new) ! Suc k) = Some e"
    using k e names bad r ok' by simp
  then have "\<exists>k e. k < length (n # ns) \<and> err = Some (DeployFailed ((n # ns) ! k) e) \<and>
         map Name (r # new) = take (Suc k) (n # ns) \<and>
         (\<forall>i<k. Error ((r # new) ! i) = None \<and> Status ((r # new) ! i) = ''running'') \<and>
         Error ((r # new) ! k) = Some e"
    by blast
  then show "(err = None \<and> map Name (r # new) = n # ns \<and>
       (\<forall>r\<in>set (r # new). Error r = None \<and> Status r = ''running'')) \<or>
     (\<exists>k e. k < length (n # ns) \<and> err = Some (DeployFailed ((n # ns) ! k) e) \<and>
         map Name (r # new) = take (Suc k) (n # ns) \<and>
         (\<forall>i<k. Error ((r # new) ! i) = None \<and> Status ((r # new) ! i) = ''running'') \<and>
         Error ((r # new) ! k) = Some e)"
    by (rule disjI2)
qed

lemma deploy_loop_outcomes:
  "deploy_loop o' w stack ns result tr = ((res, err), tr') \<Longrightarrow>
   \<exists>new. dr_Services res = dr_Services result @ new \<and> outcomes_of ns new err"
proof (induction ns arbitrary: result tr)
  case Nil
  then have "dr_Services res = dr_Services result @ [] \<and> outcomes_of [] [] err"
    by (simp add: outcomes_of_def)
  then show ?case by blast
next
  case (Cons n ns)
  let ?d = "deployService o' w n (lookup_service (Services stack) n) stack tr"
  let ?r = "fst ?d"
  let ?result1 = "result\<lparr>dr_Services := dr_Services result @ [?r]\<rparr>"
  have name: "Name ?r = n" by (rule deployService_Name)
  show ?case
  proof (cases "Error ?r")
    case (Some e)
    then have "res = ?result1" "err = Some (DeployFailed n e)"
      using Cons.prems by (simp_all add: Let_def split: prod.splits)
    then have "dr_Services res = dr_Services result @ [?r] \<and> outcomes_of (n # ns) [?r] err"
      using outcomes_fail_head[OF name Some] by simp
    then show ?thesis by blast
  next
    case None
    then have run: "deploy_loop o' w stack ns ?result1 (snd ?d) = ((res, err), tr')"
      using Cons.prems by (simp add: Let_def split: prod.splits)
    have st: "Status ?r = ''running''" using None by (rule deployService_running)
    from Cons.IH[OF run] obtain new where
      new: "dr_Services res = dr_Services ?result1 @ new" and rest: "outcomes_of ns new err"
      by blast
    have "dr_Services res = dr_Services result @ (?r # new) \<and> outcomes_of (n # ns) (?r # new) err"
      using new outcomes_cons[OF name None st rest] by simp
    then show ?thesis by blast
  qed
qed

lemma Up_after_resolution:
  assumes load: "stack_loaded_by_Up w stackFile tr = Inr stack"
    and valid: "Validate stack = None"
    and ord: "GetServiceDependencyOrder stack = Inr ord"
    and up: "Up o' w stackFile tr = ((res, err), tr')"
  shows "\<exists>result. res = Some result \<and> outcomes_of ord (dr_Services result) err"
proof -
  let ?r0 = "\<lparr>dr_Services = [], dr_Networks = [], dr_Volumes = [], DeploymentTime = 0\<rparr>"
  let ?tr7 = "log ''Service startup order: %s'' [S (Join ord '' -> '')]
                (snd (createVolumes o' (snd (createNetworks o'
                   (log ''Deploying stack: %s'' [S (getStackName o' stack)]
                      (emit (Load stackFile)
                         (log ''Loading stack configuration: %s'' [S stackFile]
                            (emit Now tr))))))))"
  obtain res1 err1 tr8 where loop: "deploy_loop o' w stack ord ?r0 ?tr7 = ((res1, err1), tr8)"
    by (metis surj_pair)
  have r: "\<exists>res2. res = Some res2 \<and> dr_Services res2 = dr_Services res1" and e: "err = err1"
    using up load valid ord loop
    by (auto simp: Up_def stack_loaded_by_Up_def time_Now_def time_Since_def createNetworks_def
        createVolumes_def split: option.splits)
  from deploy_loop_outcomes[OF loop] obtain new where
    "dr_Services res1 = new" and o: "outcomes_of ord new err1" by auto
  then have "outcomes_of ord (dr_Services res1) err" using e by simp
  moreover from r obtain res2 where "res = Some res2" "dr_Services res2 = dr_Services res1"
    by blast
  ultimately have "res = Some res2 \<and> outcomes_of ord (dr_Services res2) err" by simp
  then show ?thesis by blast
qed

lemma ex_abc_order: "GetServiceDependencyOrder ex_abc = Inr [''a'', ''b'', ''c'']"
  by (simp add: ex_abc_def eval_stack_defs)

lemma deploy_loop_fails_at:
  assumes before: "deploy_loop o' w stack xs result tr = ((resultk, None), trk)"
    and run: "deployService o' w n (lookup_service (Services stack) n) stack trk = (sr, t)"
    and bad: "Error sr = Some e"
  shows "deploy_loop o' w stack (xs @ n # rest) result tr
           = ((resultk\<lparr>dr_Services := dr_Services resultk @ [sr]\<rparr>,
               Some (DeployFailed n e)), t)"
  using before
proof (induction xs arbitrary: result tr)
  case Nil
  then have "resultk = result" "trk = tr" by simp_all
  then show ?case using run bad by (simp add: Let_def)
next
  case (Cons x xs)
  obtain r t1 where d: "deployService o' w x (lookup_service (Services stack) x) stack tr = (r, t1)"
    by (metis surj_pair)
  show ?case
  proof (cases "Error r")
    case (Some e')
    then have False using Cons.prems d by (simp add: Let_def)
    then show ?thesis ..
  next
    case None
    then have "deploy_loop o' w stack xs (result\<lparr>dr_Services := dr_Services result @ [r]\<rparr>) t1
                 = ((resultk, None), trk)"
      using Cons.prems d by (simp add: Let_def)
    from Cons.IH[OF this] show ?thesis using d None by (simp add: Let_def)
  qed
qed

lemma Up_deploy_fails:
  assumes reach: "enters_deploy o' w stackFile tr = Some (stack, ord, tr0)"
    and loop: "deploy_loop o' w stack ord empty_result tr0 = ((result1, Some err), tr8)"
  shows "Up o' w stackFile tr = ((Some result1, Some err), tr8)"
proof -
  let ?tr6 = "snd (createVolumes o' (snd (createNetworks o'
                (log ''Deploying stack: %s'' [S (getStackName o' stack)]
                   (emit (Load stackFile)
                      (log ''Loading stack configuration: %s'' [S stackFile]
                         (emit Now tr)))))))"
  have load: "LoadLXCStack w (log ''Loading stack configuration: %s'' [S stackFile] (emit Now tr))
                stackFile = Inr stack"
    and valid: "Validate stack = None"
    and ord: "GetServiceDependencyOrder stack = Inr ord"
    and tr0: "tr0 = log ''Service startup order: %s'' [S (Join ord '' -> '')] ?tr6"
    using reach
    by (auto simp: enters_deploy_def stack_loaded_by_Up_def createNetworks_def
        createVolumes_def split: sum.splits option.splits)
  have loop': "deploy_loop o' w stack ord
                 \<lparr>dr_Services = [], dr_Networks = [], dr_Volumes = [], DeploymentTime = 0\<rparr>
                 (log ''Service startup order: %s'' [S (Join ord '' -> '')] ?tr6)
               = ((result1, Some err), tr8)"
    using loop unfolding tr0 empty_result_def .
  show ?thesis
    using load valid ord loop'
    by (simp add: Up_def time_Now_def createNetworks_def createVolumes_def)
qed

lemma deployService_build_fails:
  assumes "ensureTemplate o' w name service (log ''Deploying service: %s'' [S name] tr)
             = (Inl e, t2)"
  shows "deployService o' w name service stack tr = (failed_outcome name 0 e, t2)"
  using assms by (simp add: deployService_def failed_outcome_def Let_def)

lemma deployService_create_fails:
  assumes "ensureTemplate o' w name service (log ''Deploying service: %s'' [S name] tr)
             = (Inr templateName, t2)"
    and "CreateContainer (client o') w (container_id o' w name) templateName
           (container_config o' name service stack) t2 = (Some err, t3)"
  shows "deployService o' w name service stack tr
           = (failed_outcome name (container_id o' w name) (CreateContainerFailed err), t3)"
  using assms
  by (simp add: deployService_def failed_outcome_def Let_def service_ContainerID_def
      container_id_def container_config_def)

lemma deployService_start_fails:
  assumes "ensureTemplate o' w name service (log ''Deploying service: %s'' [S name] tr)
             = (Inr templateName, t2)"
    and "CreateContainer (client o') w (container_id o' w name) templateName
           (container_config o' name service stack) t2 = (None, t3)"
    and "StartContainer (client o') w (container_id o' w name) (emit Now t3) = (Some err, t5)"
  shows "deployService o' w name service stack tr
           = (failed_outcome name (container_id o' w name) (StartContainerFailed err), t5)"
  using assms
  by (simp add: deployService_def failed_outcome_def Let_def service_ContainerID_def
      container_id_def container_config_def configureContainer_def time_Now_def)

lemma Up_fails_at:
  assumes reach: "enters_deploy o' w stackFile tr = Some (stack, ord, tr0)"
    and k: "k < length ord"
    and before: "deploy_loop o' w stack (take k ord) empty_result tr0 = ((resultk, None), trk)"
    and run: "deployService o' w (ord ! k) (lookup_service (Services stack) (ord ! k)) stack trk
                = (failed_outcome (ord ! k) cid e, t)"
  shows "Up o' w stackFile tr
           = ((Some (resultk\<lparr>dr_Services := dr_Services resultk @ [failed_outcome (ord ! k) cid e]\<rparr>),
               Some (DeployFailed (ord ! k) e)), t)"
proof -
  have bad: "Error (failed_outcome (ord ! k) cid e) = Some e" by (simp add: failed_outcome_def)
  have "deploy_loop o' w stack (take k ord @ ord ! k # drop (Suc k) ord) empty_result tr0
          = ((resultk\<lparr>dr_Services := dr_Services resultk @ [failed_outcome (ord ! k) cid e]\<rparr>,
              Some (DeployFailed (ord ! k) e)), t)"
    by (rule deploy_loop_fails_at[OF before run bad])
  then have "deploy_loop o' w stack ord empty_result tr0
          = ((resultk\<lparr>dr_Services := dr_Services resultk @ [failed_outcome (ord ! k) cid e]\<rparr>,
              Some (DeployFailed (ord ! k) e)), t)"
    using id_take_nth_drop[OF k] by simp
  then show ?thesis by (rule Up_deploy_fails[OF reach])
qed

lemma deploy_loop_successes:
  assumes "deploy_loop o' w stack ns empty_result tr0 = ((resultk, None), trk)"
  shows "map Name (dr_Services resultk) = ns \<and>
         (\<forall>r\<in>set (dr_Services resultk). Error r = None \<and> Status r = ''running'')"
proof -
  from deploy_loop_outcomes[OF assms] obtain new where
    n: "dr_Services resultk = dr_Services empty_result @ new" and o: "outcomes_of ns new None"
    by blast
  have "dr_Services resultk = new" using n by (simp add: empty_result_def)
  moreover have "map Name new = ns \<and> (\<forall>r\<in>set new. Error r = None \<and> Status r = ''running'')"
    using o by (simp add: outcomes_of_def)
  ultimately show ?thesis by simp
qed

text \<open>
  C7. Let \<open>Up\<close> get to its loop with the resolved order \<open>ord\<close>, and let the loop deploy
  the first \<open>k\<close> services of the order without an error.  Then the result holds a
  successful outcome for each of them, in order.  If now the build, the creation or the
  start of the service \<open>ord ! k\<close> fails, \<open>Up\<close> returns at once: its trace ends with the
  call that failed, so no later service is attempted; its result holds the outcomes of
  the first \<open>k\<close> services followed by the failed outcome of \<open>ord ! k\<close> and nothing else;
  and it returns the error of that service with the result.
\<close>

theorem up_partial_failure:
  assumes reach: "enters_deploy o' w stackFile tr = Some (stack, ord, tr0)"
    and k: "k < length ord"
    and before: "deploy_loop o' w stack (take k ord) empty_result tr0 = ((resultk, None), trk)"
  shows "map Name (dr_Services resultk) = take k ord \<and>
     (\<forall>r\<in>set (dr_Services resultk). Error r = None \<and> Status r = ''running'') \<and>
     (ensureTemplate o' w (ord ! k) (lookup_service (Services stack) (ord ! k))
          (log ''Deploying service: %s'' [S (ord ! k)] trk) = (Inl e, t2) \<longrightarrow>
      Up o' w stackFile tr
        = ((Some (resultk\<lparr>dr_Services :=
                     dr_Services resultk @ [failed_outcome (ord ! k) 0 e]\<rparr>),
            Some (DeployFailed (ord ! k) e)), t2)) \<and>
     (ensureTemplate o' w (ord ! k) (lookup_service (Services stack) (ord ! k))
          (log ''Deploying service: %s'' [S (ord ! k)] trk) = (Inr templateName, t2) \<and>
      CreateContainer (client o') w (container_id o' w (ord ! k)) templateName
          (container_config o' (ord ! k) (lookup_service (Services stack) (ord ! k)) stack) t2
        = (Some err, t3) \<longrightarrow>
      Up o' w stackFile tr
        = ((Some (resultk\<lparr>dr_Services :=
                     dr_Services resultk @
                     [failed_outcome (ord ! k) (container_id o' w (ord ! k))
                        (CreateContainerFailed err)]\<rparr>),
            Some (DeployFailed (ord ! k) (CreateContainerFailed err))), t3)) \<and>
     (ensureTemplate o' w (ord ! k) (lookup_service (Services stack) (ord ! k))
          (log ''Deploying service: %s'' [S (ord ! k)] trk) = (Inr templateName, t2) \<and>
      CreateContainer (client o') w (container_id o' w (ord ! k)) templateName
          (container_config o' (ord ! k) (lookup_service (Services stack) (ord ! k)) stack) t2
        = (None, t3) \<and>
      StartContainer (client o') w (container_id o' w (ord ! k)) (emit Now t3)
        = (Some err, t5) \<longrightarrow>
      Up o' w stackFile tr
        = ((Some (resultk\<lparr>dr_Services :=
                     dr_Services resultk @
                     [failed_outcome (ord ! k) (container_id o' w (ord ! k))
                        (StartContainerFailed err)]\<rparr>),
            Some (DeployFailed (ord ! k) (StartContainerFailed err))), t5))"
proof -
  let ?n = "ord ! k"
  let ?svc = "lookup_service (Services stack) ?n"
  have names: "map Name (dr_Services resultk) = take k ord"
    and ok: "\<forall>r\<in>set (dr_Services resultk). Error r = None \<and> Status r = ''running''"
    using deploy_loop_successes[OF before] by simp_all
  have build: "Up o' w stackFile tr
        = ((Some (resultk\<lparr>dr_Services := dr_Services resultk @ [failed_outcome ?n 0 e]\<rparr>),
            Some (DeployFailed ?n e)), t2)"
    if "ensureTemplate o' w ?n ?svc (log ''Deploying service: %s'' [S ?n] trk) = (Inl e, t2)"
    by (rule Up_fails_at[OF reach k before deployService_build_fails[OF that]])
  have create: "Up o' w stackFile tr
        = ((Some (resultk\<lparr>dr_Services := dr_Services resultk @
                     [failed_outcome ?n (container_id o' w ?n) (CreateContainerFailed err)]\<rparr>),
            Some (DeployFailed ?n (CreateContainerFailed err))), t3)"
    if "ensureTemplate o' w ?n ?svc (log ''Deploying service: %s'' [S ?n] trk)
          = (Inr templateName, t2) \<and>
        CreateContainer (client o') w (container_id o' w ?n) templateName
          (container_config o' ?n ?svc stack) t2 = (Some err, t3)"
    by (rule Up_fails_at[OF reach k before
          deployService_create_fails[OF conjunct1[OF that] conjunct2[OF that]]])
  have start: "Up o' w stackFile tr
        = ((Some (resultk\<lparr>dr_Services := dr_Services resultk @
                     [failed_outcome ?n (container_id o' w ?n) (StartContainerFailed err)]\<rparr>),
            Some (DeployFailed ?n (StartContainerFailed err))), t5)"
    if "ensureTemplate o' w ?n ?svc (log ''Deploying service: %s'' [S ?n] trk)
          = (Inr templateName, t2) \<and>
        CreateContainer (client o') w (container_id o' w ?n) templateName
          (container_config o' ?n ?svc stack) t2 = (None, t3) \<and>
        StartContainer (client o') w (container_id o' w ?n) (emit Now t3) = (Some err, t5)"
    by (rule Up_fails_at[OF reach k before
          deployService_start_fails[OF conjunct1[OF that] conjunct1[OF conjunct2[OF that]]
            conjunct2[OF conjunct2[OF that]]]])
  show ?thesis
    apply (rule conjI[OF names])
    apply (rule conjI[OF ok])
    apply (rule conjI)
     apply (rule impI)
     apply (erule build)
    apply (rule conjI)
     apply (rule impI)
     apply (erule create)
    apply (rule impI)
    apply (erule start)
    done
qed

text \<open>
  Three runs on the services \<open>a\<close>, \<open>b\<close> and \<open>c\<close>, resolved in this order, in which \<open>a\<close>
  is deployed and \<open>b\<close> fails: \<open>pct start\<close> fails, \<open>pct create\<close> fails, and the second
  step of the build of \<open>b\<close> fails.
\<close>

lemma ex_start_reach: "enters_deploy ex_orchestrator ex_env_b_start_fails ''lxc-stack.yml'' []
         = Some (ex_abc, [''a'', ''b'', ''c''], ex_deploy_start)"
  by code_simp
lemma ex_start_before: "deploy_loop ex_orchestrator ex_env_b_start_fails ex_abc (take 1 [''a'', ''b'', ''c''])
           empty_result ex_deploy_start = ((ex_a_running, None), ex_a_deployed)"
  by code_simp
lemma ex_start_template: "ensureTemplate ex_orchestrator ex_env_b_start_fails ''b''
           (lookup_service (Services ex_abc) ''b'')
           (log ''Deploying service: %s'' [S ''b''] ex_a_deployed)
         = (Inr ''ubuntu-22.04'', ex_b_begun)"
  by code_simp
lemma ex_start_id: "container_id ex_orchestrator ex_env_b_start_fails ''b'' = 443"
  by code_simp
lemma ex_start_created: "CreateContainer (client ex_orchestrator) ex_env_b_start_fails 443 ''ubuntu-22.04''
           (container_config ex_orchestrator ''b'' (lookup_service (Services ex_abc) ''b'')
              ex_abc) ex_b_begun
         = (None, ex_b_created)"
  by code_simp
lemma ex_start_fails: "StartContainer (client ex_orchestrator) ex_env_b_start_fails 443 (emit Now ex_b_created)
         = (Some (ClientExecError ''exit status 1''),
            ex_b_created @ [Now, Exec [''start'', ''443'']])"
  by code_simp

lemma ex_create_reach: "enters_deploy ex_orchestrator ex_env_b_create_fails ''lxc-stack.yml'' []
         = Some (ex_abc, [''a'', ''b'', ''c''], ex_deploy_start)"
  by code_simp
lemma ex_create_before: "deploy_loop ex_orchestrator ex_env_b_create_fails ex_abc (take 1 [''a'', ''b'', ''c''])
           empty_result ex_deploy_start = ((ex_a_running, None), ex_a_deployed)"
  by code_simp
lemma ex_create_template: "ensureTemplate ex_orchestrator ex_env_b_create_fails ''b''
           (lookup_service (Services ex_abc) ''b'')
           (log ''Deploying service: %s'' [S ''b''] ex_a_deployed)
         = (Inr ''ubuntu-22.04'', ex_b_begun)"
  by code_simp
lemma ex_create_id: "container_id ex_orchestrator ex_env_b_create_fails ''b'' = 443"
  by code_simp
lemma ex_create_fails: "CreateContainer (client ex_orchestrator) ex_env_b_create_fails 443 ''ubuntu-22.04''
           (container_config ex_orchestrator ''b'' (lookup_service (Services ex_abc) ''b'')
              ex_abc) ex_b_begun
         = (Some (ClientExecError ''exit status 1''), ex_b_created)"
  by code_simp

lemma ex_build_reach: "enters_deploy ex_orchestrator ex_env_b_build_fails ''lxc-stack.yml'' []
         = Some (ex_abc_build, [''a'', ''b'', ''c''], ex_deploy_start)"
  by code_simp
lemma ex_build_before: "deploy_loop ex_orchestrator ex_env_b_build_fails ex_abc_build
           (take 1 [''a'', ''b'', ''c'']) empty_result ex_deploy_start
         = ((ex_a_running, None), ex_a_deployed)"
  by code_simp

lemma ex_build_fails: "ensureTemplate ex_orchestrator ex_env_b_build_fails ''b''
           (lookup_service (Services ex_abc_build) ''b'')
           (log ''Deploying service: %s'' [S ''b''] ex_a_deployed)
         = (Inl (BuildFailed ''b'' (StepFailed ''Step 2'' (ExecError ''exit status 1''))),
            ex_b_build)"
  by (simp add: ensureTemplate_def GetBuildConfig_def lookup_service_def ex_abc_build_def
      stack_of_def build_service_def template_service_def zero_Service_def ex_orchestrator_def
      runner_New_def zero_RunnerConfig_def NewClient_def BuildTemplate_def build_body_def
      deferred_cleanup_def ex_env_b_build_fails_def ex_b_build_def ex_b_begun_def
      ex_a_deployed_def ex_deploy_start_def world_defs config_defs manifest_defs builder_defs)

theorem up_partial_failure_witness:
  "enters_deploy ex_orchestrator ex_env_b_start_fails ''lxc-stack.yml'' []
     = Some (ex_abc, [''a'', ''b'', ''c''], ex_deploy_start) \<and>
   deploy_loop ex_orchestrator ex_env_b_start_fails ex_abc (take 1 [''a'', ''b'', ''c''])
       empty_result ex_deploy_start = ((ex_a_running, None), ex_a_deployed) \<and>
   ensureTemplate ex_orchestrator ex_env_b_start_fails ''b''
       (lookup_service (Services ex_abc) ''b'')
       (log ''Deploying service: %s'' [S ''b''] ex_a_deployed)
     = (Inr ''ubuntu-22.04'', ex_b_begun) \<and>
   CreateContainer (client ex_orchestrator) ex_env_b_start_fails 443 ''ubuntu-22.04''
       (container_config ex_orchestrator ''b'' (lookup_service (Services ex_abc) ''b'') ex_abc)
       ex_b_begun
     = (None, ex_b_created) \<and>
   StartContainer (client ex_orchestrator) ex_env_b_start_fails 443 (emit Now ex_b_created)
     = (Some (ClientExecError ''exit status 1''),
        ex_b_created @ [Now, Exec [''start'', ''443'']]) \<and>
   map Name (dr_Services ex_a_running) = take 1 [''a'', ''b'', ''c''] \<and>
   Up ex_orchestrator ex_env_b_start_fails ''lxc-stack.yml'' []
     = ((Some (ex_a_running\<lparr>dr_Services :=
                 dr_Services ex_a_running @
                 [failed_outcome ''b'' 443
                    (StartContainerFailed (ClientExecError ''exit status 1''))]\<rparr>),
         Some (DeployFailed ''b'' (StartContainerFailed (ClientExecError ''exit status 1'')))),
        ex_b_created @ [Now, Exec [''start'', ''443'']]) \<and>
   Log Info ''Deploying service: %s'' [S ''c'']
     \<notin> set (ex_b_created @ [Now, Exec [''start'', ''443'']]) \<and>
   enters_deploy ex_orchestrator ex_env_b_create_fails ''lxc-stack.yml'' []
     = Some (ex_abc, [''a'', ''b'', ''c''], ex_deploy_start) \<and>
   deploy_loop ex_orchestrator ex_env_b_create_fails ex_abc (take 1 [''a'', ''b'', ''c''])
       empty_result ex_deploy_start = ((ex_a_running, None), ex_a_deployed) \<and>
   ensureTemplate ex_orchestrator ex_env_b_create_fails ''b''
       (lookup_service (Services ex_abc) ''b'')
       (log ''Deploying service: %s'' [S ''b''] ex_a_deployed)
     = (Inr ''ubuntu-22.04'', ex_b_begun) \<and>
   CreateContainer (client ex_orchestrator) ex_env_b_create_fails 443 ''ubuntu-22.04''
       (container_config ex_orchestrator ''b'' (lookup_service (Services ex_abc) ''b'') ex_abc)
       ex_b_begun
     = (Some (ClientExecError ''exit status 1''), ex_b_created) \<and>
   Up ex_orchestrator ex_env_b_create_fails ''lxc-stack.yml'' []
     = ((Some (ex_a_running\<lparr>dr_Services :=
                 dr_Services ex_a_running @
                 [failed_outcome ''b'' 443
                    (CreateContainerFailed (ClientExecError ''exit status 1''))]\<rparr>),
         Some (DeployFailed ''b'' (CreateContainerFailed (ClientExecError ''exit status 1'')))),
        ex_b_created) \<and>
   enters_deploy ex_orchestrator ex_env_b_build_fails ''lxc-stack.yml'' []
     = Some (ex_abc_build, [''a'', ''b'', ''c''], ex_deploy_start) \<and>
   deploy_loop ex_orchestrator ex_env_b_build_fails ex_abc_build (take 1 [''a'', ''b'', ''c''])
       empty_result ex_deploy_start = ((ex_a_running, None), ex_a_deployed) \<and>
   ensureTemplate ex_orchestrator ex_env_b_build_fails ''b''
       (lookup_service (Services ex_abc_build) ''b'')
       (log ''Deploying service: %s'' [S ''b''] ex_a_deployed)
     = (Inl (BuildFailed ''b'' (StepFailed ''Step 2'' (ExecError ''exit status 1''))),
        ex_b_build) \<and>
   Up ex_orchestrator ex_env_b_build_fails ''lxc-stack.yml'' []
     = ((Some (ex_a_running\<lparr>dr_Services :=
                 dr_Services ex_a_running @
                 [failed_outcome ''b'' 0
                    (BuildFailed ''b'' (StepFailed ''Step 2'' (ExecError ''exit status 1'')))]\<rparr>),
         Some (DeployFailed ''b''
                 (BuildFailed ''b'' (StepFailed ''Step 2'' (ExecError ''exit status 1''))))),
        ex_b_build)"
proof -
  have k: "(1::nat) < length [''a'', ''b'', ''c'']" by simp
  have n: "[''a'', ''b'', ''c''] ! 1 = ''b''" by simp
  note start = up_partial_failure[OF ex_start_reach k ex_start_before, unfolded n ex_start_id]
  note create = up_partial_failure[OF ex_create_reach k ex_create_before, unfolded n ex_create_id]
  note build = up_partial_failure[OF ex_build_reach k ex_build_before, unfolded n]
  have names: "map Name (dr_Services ex_a_running) = take 1 [''a'', ''b'', ''c'']"
    by (rule start[THEN conjunct1])
  have up_s: "Up ex_orchestrator ex_env_b_start_fails ''lxc-stack.yml'' []
     = ((Some (ex_a_running\<lparr>dr_Services :=
                 dr_Services ex_a_running @
                 [failed_outcome ''b'' 443
                    (StartContainerFailed (ClientExecError ''exit status 1''))]\<rparr>),
         Some (DeployFailed ''b'' (StartContainerFailed (ClientExecError ''exit status 1'')))),
        ex_b_created @ [Now, Exec [''start'', ''443'']])"
    by (rule start[THEN conjunct2, THEN conjunct2, THEN conjunct2, THEN conjunct2, THEN mp,
          OF conjI[OF ex_start_template conjI[OF ex_start_created ex_start_fails]]])
  have up_c: "Up ex_orchestrator ex_env_b_create_fails ''lxc-stack.yml'' []
     = ((Some (ex_a_running\<lparr>dr_Services :=
                 dr_Services ex_a_running @
                 [failed_outcome ''b'' 443
                    (CreateContainerFailed (ClientExecError ''exit status 1''))]\<rparr>),
         Some (DeployFailed ''b'' (CreateContainerFailed (ClientExecError ''exit status 1'')))),
        ex_b_created)"
    by (rule create[THEN conjunct2, THEN conjunct2, THEN conjunct2, THEN conjunct1, THEN mp,
          OF conjI[OF ex_create_template ex_create_fails]])
  have up_b: "Up ex_orchestrator ex_env_b_build_fails ''lxc-stack.yml'' []
     = ((Some (ex_a_running\<lparr>dr_Services :=
                 dr_Services ex_a_running @
                 [failed_outcome ''b'' 0
                    (BuildFailed ''b'' (StepFailed ''Step 2'' (ExecError ''exit status 1'')))]\<rparr>),
         Some (DeployFailed ''b''
                 (BuildFailed ''b'' (StepFailed ''Step 2'' (ExecError ''exit status 1''))))),
        ex_b_build)"
    by (rule build[THEN conjunct2, THEN conjunct2, THEN conjunct1, THEN mp, OF ex_build_fails])
  have later: "Log Info ''Deploying service: %s'' [S ''c'']
     \<notin> set (ex_b_created @ [Now, Exec [''start'', ''443'']])"
    by (simp add: ex_b_created_def ex_b_begun_def ex_a_deployed_def ex_deploy_start_def)
  show ?thesis
    apply (rule conjI[OF ex_start_reach])
    apply (rule conjI[OF ex_start_before])
    apply (rule conjI[OF ex_start_template])
    apply (rule conjI[OF ex_start_created])
    apply (rule conjI[OF ex_start_fails])
    apply (rule conjI[OF names])
    apply (rule conjI[OF up_s])
    apply (rule conjI[OF later])
    apply (rule conjI[OF ex_create_reach])
    apply (rule conjI[OF ex_create_before])
    apply (rule conjI[OF ex_create_template])
    apply (rule conjI[OF ex_create_fails])
    apply (rule conjI[OF up_c])
    apply (rule conjI[OF ex_build_reach])
    apply (rule conjI[OF ex_build_before])
    apply (rule conjI[OF ex_build_fails])
    apply (rule up_b)
    done
qed

subsection \<open>The order of Down\<close>

lemma reverse_loop_length: "length (reverse_loop k xs) = length xs"
  by (induction k arbitrary: xs) (simp_all add: Let_def)

lemma reverse_loop_nth:
  "k \<le> length xs div 2 \<Longrightarrow> p < length xs \<Longrightarrow>
   reverse_loop k xs ! p =
     (if p < k \<or> length xs - k \<le> p then xs ! (length xs - 1 - p) else xs ! p)"
proof (induction k arbitrary: xs)
  case 0
  then show ?case by simp
next
  case (Suc k)
  let ?n = "length xs"
  let ?opp = "?n - 1 - k"
  let ?ys = "xs[k := xs ! ?opp, ?opp := xs ! k]"
  have k: "k < ?n div 2" using Suc.prems by simp
  have len: "length ?ys = ?n" by simp
  have kopp: "k < ?opp" "?opp < ?n" using k by auto
  have ih: "reverse_loop k ?ys ! p =
      (if p < k \<or> ?n - k \<le> p then ?ys ! (?n - 1 - p) else ?ys ! p)"
    using Suc.IH[of ?ys] k Suc.prems(2) by simp
  have step: "reverse_loop (Suc k) xs = reverse_loop k ?ys" by (simp add: Let_def)
  show ?case
  proof (cases "p < k \<or> ?n - k \<le> p")
    case True
    then have "?n - 1 - p \<noteq> k" "?n - 1 - p \<noteq> ?opp" using k Suc.prems(2) by auto
    then have "?ys ! (?n - 1 - p) = xs ! (?n - 1 - p)" by simp
    then show ?thesis using True ih step by auto
  next
    case False
    then have r: "reverse_loop k ?ys ! p = ?ys ! p" using ih by simp
    show ?thesis
    proof (cases "p = k")
      case True
      then have "?ys ! p = xs ! ?opp" using kopp by simp
      then show ?thesis using True r step by simp
    next
      case pk: False
      show ?thesis
      proof (cases "p = ?opp")
        case True
        then have "?ys ! p = xs ! k" using kopp by simp
        moreover have "?n - 1 - p = k" using True kopp by simp
        moreover have "?n - Suc k \<le> p" using True by simp
        ultimately show ?thesis using r step by simp
      next
        case False
        then have "?ys ! p = xs ! p" using pk by simp
        moreover have "\<not> (p < Suc k \<or> ?n - Suc k \<le> p)"
          using \<open>\<not> (p < k \<or> ?n - k \<le> p)\<close> pk False by auto
        ultimately show ?thesis using r step by simp
      qed
    qed
  qed
qed

lemma reverse_in_place_rev: "reverse_in_place xs = rev xs"
proof (rule nth_equalityI)
  show "length (reverse_in_place xs) = length (rev xs)"
    by (simp add: reverse_in_place_def reverse_loop_length)
next
  fix p
  assume "p < length (reverse_in_place xs)"
  then have p: "p < length xs" by (simp add: reverse_in_place_def reverse_loop_length)
  have "reverse_in_place xs ! p =
          (if p < length xs div 2 \<or> length xs - length xs div 2 \<le> p
           then xs ! (length xs - 1 - p) else xs ! p)"
    unfolding reverse_in_place_def using p by (intro reverse_loop_nth) simp_all
  moreover have "length xs - 1 - p = p"
    if "\<not> (p < length xs div 2 \<or> length xs - length xs div 2 \<le> p)"
    using that p by auto
  ultimately have "reverse_in_place xs ! p = xs ! (length xs - 1 - p)" by auto
  then show "reverse_in_place xs ! p = rev xs ! p" using p by (simp add: rev_nth)
qed

lemma removed_services_append:
  "removed_services (xs @ ys) = removed_services xs @ removed_services ys"
  by (simp add: removed_services_def List.map_filter_def)

lemma removed_services_emit:
  "removed_services (emit e tr) =
     removed_services tr @ (case removal_of e of None \<Rightarrow> [] | Some n \<Rightarrow> [n])"
  by (simp add: removed_services_def List.map_filter_def emit_def split: option.splits)

lemma remove_loop_removed:
  "removed_services (remove_loop ns tr) = removed_services tr @ ns"
  by (induction ns arbitrary: tr)
     (simp_all add: removeService_def log_def removed_services_emit)

lemma run_hooks_removed:
  "announce \<noteq> ''Removing service: %s'' \<Longrightarrow>
   removed_services (run_hooks announce failed hooks tr) = removed_services tr"
  by (simp add: run_hooks_def executeHooks_def log_def removed_services_emit Let_def)

lemma Down_removed:
  assumes load: "stack_loaded_by_Down w stackFile tr = Inr stack"
    and ord: "GetServiceDependencyOrder stack = Inr ord"
  shows "fst (Down o' w stackFile remove_volumes tr) = None \<and>
         removed_services (snd (Down o' w stackFile remove_volumes tr))
           = removed_services tr @ rev ord"
proof -
  have h: "removed_services (case stack_Hooks stack of None \<Rightarrow> t
             | Some h \<Rightarrow> run_hooks a f (g h) t) = removed_services t"
    if "a \<noteq> ''Removing service: %s''" for a f g t
    using that by (simp add: run_hooks_removed split: option.splits)
  show ?thesis
    using load ord
    by (simp add: Down_def stack_loaded_by_Down_def Let_def removeVolumes_def logSuccess_def
        log_def removed_services_emit remove_loop_removed h reverse_in_place_rev)
qed

lemma Up_invalid:
  assumes load: "stack_loaded_by_Up w stackFile tr = Inr stack"
    and invalid: "Validate stack = Some e"
  shows "deployed_by (Up o' w stackFile tr) = []"
  using load invalid
  by (simp add: Up_def stack_loaded_by_Up_def time_Now_def deployed_by_def)

lemma Up_unresolved:
  assumes load: "stack_loaded_by_Up w stackFile tr = Inr stack"
    and ord: "GetServiceDependencyOrder stack = Inl e"
  shows "deployed_by (Up o' w stackFile tr) = []"
  using load ord
  by (simp add: Up_def stack_loaded_by_Up_def time_Now_def deployed_by_def createNetworks_def
      createVolumes_def split: option.splits)

lemma outcomes_prefix:
  assumes "outcomes_of ord new err"
  shows "map Name new = take (length new) ord \<and> (err = None \<longrightarrow> map Name new = ord)"
proof -
  from assms have "(err = None \<and> map Name new = ord) \<or>
     (\<exists>k e. k < length ord \<and> err = Some (DeployFailed (ord ! k) e) \<and>
         map Name new = take (Suc k) ord)"
    unfolding outcomes_of_def by blast
  then show ?thesis
  proof
    assume a: "err = None \<and> map Name new = ord"
    then have "length new = length ord" by (metis length_map)
    then show ?thesis using a by simp
  next
    assume "\<exists>k e. k < length ord \<and> err = Some (DeployFailed (ord ! k) e) \<and>
         map Name new = take (Suc k) ord"
    then obtain k e where k: "k < length ord" and e: "err = Some (DeployFailed (ord ! k) e)"
      and n: "map Name new = take (Suc k) ord" by blast
    from n have "length new = length (take (Suc k) ord)" by (metis length_map)
    then have "length new = Suc k" using k by simp
    then show ?thesis using n e by simp
  qed
qed

lemma Up_deployed_prefix:
  assumes load: "stack_loaded_by_Up w stackFile tr = Inr stack"
    and ord: "GetServiceDependencyOrder stack = Inr ord"
  shows "deployed_by (Up o' w stackFile tr)
           = take (length (deployed_by (Up o' w stackFile tr))) ord \<and>
         (snd (fst (Up o' w stackFile tr)) = None \<longrightarrow> deployed_by (Up o' w stackFile tr) = ord)"
proof (cases "Validate stack")
  case (Some e)
  have "\<exists>y. snd (fst (Up o' w stackFile tr)) = Some y"
    using load Some by (simp add: Up_def stack_loaded_by_Up_def time_Now_def)
  then obtain y where "snd (fst (Up o' w stackFile tr)) = Some y" ..
  then show ?thesis using Up_invalid[OF load Some, of o'] by simp
next
  case None
  obtain res err tr' where up: "Up o' w stackFile tr = ((res, err), tr')"
    by (metis surj_pair)
  from Up_after_resolution[OF load None ord up] obtain result where
    r: "res = Some result" and o: "outcomes_of ord (dr_Services result) err" by blast
  have d: "deployed_by (Up o' w stackFile tr) = map Name (dr_Services result)"
    using up r by (simp add: deployed_by_def)
  have e: "snd (fst (Up o' w stackFile tr)) = err" using up by simp
  show ?thesis unfolding d e length_map by (rule outcomes_prefix[OF o])
qed

lemma Down_unresolved:
  assumes load: "stack_loaded_by_Down w stackFile tr = Inr stack"
    and ord: "GetServiceDependencyOrder stack = Inl e"
  shows "removed_services (snd (Down o' w stackFile remove_volumes tr)) = removed_services tr"
proof -
  have h: "removed_services (case stack_Hooks stack of None \<Rightarrow> t
             | Some h \<Rightarrow> run_hooks a f (g h) t) = removed_services t"
    if "a \<noteq> ''Removing service: %s''" for a f g t
    using that by (simp add: run_hooks_removed split: option.splits)
  show ?thesis
    using load ord
    by (simp add: Down_def stack_loaded_by_Down_def Let_def log_def removed_services_emit h)
qed

text \<open>
  C9, as stated, fails.  \<open>Up\<close> and \<open>Down\<close> each load the stack and resolve the order
  for themselves, and the order of independent services follows the enumeration of the
  services map, which Go does not fix.  The same map of the services \<open>a\<close> and \<open>b\<close>,
  enumerated as \<open>a, b\<close> for \<open>Up\<close> and as \<open>b, a\<close> for \<open>Down\<close>: \<open>Up\<close> deploys \<open>a, b\<close> and
  \<open>Down\<close> removes \<open>a, b\<close>, which is not the reverse.
\<close>

theorem down_order_counterexample:
  "map_of (Services ex_ab) = map_of (Services ex_ba) \<and>
   snd (fst (Up ex_orchestrator (env_of all_succeed ex_ab) ''lxc-stack.yml'' [])) = None \<and>
   map Name (dr_Services (the (fst (fst
      (Up ex_orchestrator (env_of all_succeed ex_ab) ''lxc-stack.yml'' [])))))
     = [''a'', ''b''] \<and>
   removed_services (snd (Down ex_orchestrator (env_of all_succeed ex_ba)
      ''lxc-stack.yml'' False [])) = [''a'', ''b''] \<and>
   [''a'', ''b''] \<noteq> rev [''a'', ''b'']"
proof -
  have "map_of (Services ex_ab) = map_of (Services ex_ba)"
    by (auto simp: ex_ab_def ex_ba_def stack_of_def fun_eq_iff)
  moreover have "snd (fst (Up ex_orchestrator (env_of all_succeed ex_ab) ''lxc-stack.yml'' []))
                   = None"
    by code_simp
  moreover have "map Name (dr_Services (the (fst (fst
      (Up ex_orchestrator (env_of all_succeed ex_ab) ''lxc-stack.yml'' [])))))
     = [''a'', ''b'']"
    by code_simp
  moreover have "removed_services (snd (Down ex_orchestrator (env_of all_succeed ex_ba)
      ''lxc-stack.yml'' False [])) = [''a'', ''b'']"
    by code_simp
  ultimately show ?thesis by simp
qed

text \<open>
  C9, amended.  When \<open>Up\<close> and \<open>Down\<close> load the same stack with the services map
  enumerated in the same order, \<open>Down\<close> removes the services in exactly the reverse of
  the order that the resolver returns for that stack, and the services \<open>Up\<close> deploys are
  an initial part of that order: all of it when \<open>Up\<close> returns no error.  When the
  resolver fails, \<open>Down\<close> removes nothing and \<open>Up\<close> deploys nothing.
\<close>

theorem down_reverses_up:
  assumes up_load: "stack_loaded_by_Up w stackFile tr = Inr stack"
    and down_load: "stack_loaded_by_Down w stackFile tr2 = Inr stack"
  shows "case GetServiceDependencyOrder stack of
           Inr ord \<Rightarrow>
             removed_services (snd (Down o' w stackFile remove_volumes tr2))
               = removed_services tr2 @ rev ord \<and>
             deployed_by (Up o' w stackFile tr)
               = take (length (deployed_by (Up o' w stackFile tr))) ord \<and>
             (snd (fst (Up o' w stackFile tr)) = None \<longrightarrow>
                deployed_by (Up o' w stackFile tr) = ord)
         | Inl err \<Rightarrow>
             removed_services (snd (Down o' w stackFile remove_volumes tr2))
               = removed_services tr2 \<and>
             deployed_by (Up o' w stackFile tr) = []"
proof (cases "GetServiceDependencyOrder stack")
  case (Inl e)
  then show ?thesis
    using Down_unresolved[OF down_load Inl] Up_unresolved[OF up_load Inl] by simp
next
  case (Inr ord)
  then show ?thesis
    using Down_removed[OF down_load Inr] Up_deployed_prefix[OF up_load Inr] by simp
qed

theorem down_reverses_up_witness:
  "stack_loaded_by_Up ex_env_a_fails ''lxc-stack.yml'' [] = Inr ex_abc \<and>
   stack_loaded_by_Down ex_env_a_fails ''lxc-stack.yml'' [] = Inr ex_abc \<and>
   GetServiceDependencyOrder ex_abc = Inr [''a'', ''b'', ''c''] \<and>
   snd (fst (Up ex_orchestrator ex_env_a_fails ''lxc-stack.yml'' []))
     = Some (DeployFailed ''a'' (CreateContainerFailed (ClientExecError ''exit status 1''))) \<and>
   deployed_by (Up ex_orchestrator ex_env_a_fails ''lxc-stack.yml'' []) = [''a''] \<and>
   removed_services (snd (Down ex_orchestrator ex_env_a_fails ''lxc-stack.yml'' False []))
     = [''c'', ''b'', ''a''] \<and>
   stack_loaded_by_Up (env_of all_succeed ex_web_db) ''lxc-stack.yml'' [] = Inr ex_web_db \<and>
   stack_loaded_by_Down (env_of all_succeed ex_web_db) ''lxc-stack.yml'' [] = Inr ex_web_db \<and>
   GetServiceDependencyOrder ex_web_db = Inr [''db'', ''web''] \<and>
   snd (fst (Up ex_orchestrator (env_of all_succeed ex_web_db) ''lxc-stack.yml'' [])) = None \<and>
   deployed_by (Up ex_orchestrator (env_of all_succeed ex_web_db) ''lxc-stack.yml'' [])
     = [''db'', ''web''] \<and>
   removed_services (snd (Down ex_orchestrator (env_of all_succeed ex_web_db)
      ''lxc-stack.yml'' False [])) = [''web'', ''db'']"
proof -
  let ?w = "env_of all_succeed ex_web_db"
  have a1: "stack_loaded_by_Up ex_env_a_fails ''lxc-stack.yml'' [] = Inr ex_abc"
    by (simp add: stack_loaded_by_Up_def ex_env_a_fails_def env_of_def)
  have a2: "stack_loaded_by_Down ex_env_a_fails ''lxc-stack.yml'' [] = Inr ex_abc"
    by (simp add: stack_loaded_by_Down_def ex_env_a_fails_def env_of_def)
  have a3: "snd (fst (Up ex_orchestrator ex_env_a_fails ''lxc-stack.yml'' []))
     = Some (DeployFailed ''a'' (CreateContainerFailed (ClientExecError ''exit status 1'')))"
    by code_simp
  have a4: "deployed_by (Up ex_orchestrator ex_env_a_fails ''lxc-stack.yml'' []) = [''a'']"
    by code_simp
  have l1: "stack_loaded_by_Up ?w ''lxc-stack.yml'' [] = Inr ex_web_db"
    by (simp add: stack_loaded_by_Up_def env_of_def)
  have l2: "stack_loaded_by_Down ?w ''lxc-stack.yml'' [] = Inr ex_web_db"
    by (simp add: stack_loaded_by_Down_def env_of_def)
  have l3: "GetServiceDependencyOrder ex_web_db = Inr [''db'', ''web'']"
    by (simp add: ex_web_db_def eval_stack_defs)
  have l4: "snd (fst (Up ex_orchestrator ?w ''lxc-stack.yml'' [])) = None" by code_simp
  have a5: "removed_services (snd (Down ex_orchestrator ex_env_a_fails ''lxc-stack.yml'' False []))
     = [''c'', ''b'', ''a'']"
    using down_reverses_up[OF a1 a2, of ex_orchestrator False]
    by (simp add: ex_abc_order removed_services_def)
  have l5: "deployed_by (Up ex_orchestrator ?w ''lxc-stack.yml'' []) = [''db'', ''web''] \<and>
      removed_services (snd (Down ex_orchestrator ?w ''lxc-stack.yml'' False []))
        = [''web'', ''db'']"
    using down_reverses_up[OF l1 l2, of ex_orchestrator False] l4
    by (simp add: l3 removed_services_def)
  show ?thesis
    apply (rule conjI[OF a1])
    apply (rule conjI[OF a2])
    apply (rule conjI[OF ex_abc_order])
    apply (rule conjI[OF a3])
    apply (rule conjI[OF a4])
    apply (rule conjI[OF a5])
    apply (rule conjI[OF l1])
    apply (rule conjI[OF l2])
    apply (rule conjI[OF l3])
    apply (rule conjI[OF l4])
    apply (rule l5)
    done
qed

end
